(* ===== verification/Prelude.thy ===== *)
theory Prelude
  imports Complex_Main "HOL-Library.AList" "HOL-Library.Sublist" "HOL-Library.Word"
begin

section \<open>Shared vocabulary of the development\<close>

text \<open>
  Types, errors and generic lemmas that the component theories share: JSON values as the
  Python code handles them, the exceptions that cross component boundaries, the collections
  of simplification rules, and small facts on lists and options.
  Python strings are \<open>string\<close> (lists of characters), Python integers are \<open>int\<close>, and a Python
  call that raises is a value \<open>Inl e\<close> of a sum type.
\<close>

named_theorems gw_simps \<open>unfolding rules for the gateway's record helpers\<close>
named_theorems gate_defs \<open>definitions of the stages of the invocation pipeline\<close>

subsection \<open>JSON values\<close>

text \<open>
  A value as \<open>json.loads\<close> returns it. A float is kept as the text of its \<open>repr\<close>, since the
  code only stores and prints it. Object keys are the dictionary's keys in insertion order.
\<close>

datatype json =
    JNull
  | JBool bool
  | JInt int
  | JFloat string
  | JStr string
  | JArr "json list"
  | JObj "(string \<times> json) list"

fun is_obj :: "json \<Rightarrow> bool" where
  "is_obj (JObj _) = True"
| "is_obj _ = False"

text \<open>\<open>d.get(k)\<close> on a dictionary; a value that is not a dictionary has no key.\<close>

fun jlookup :: "json \<Rightarrow> string \<Rightarrow> json option" where
  "jlookup (JObj kvs) k = map_of kvs k"
| "jlookup _ k = None"

text \<open>Values built from options and strings, and \<open>d.get(k)\<close> with its default \<open>None\<close>.\<close>

definition jopt :: "('a \<Rightarrow> json) \<Rightarrow> 'a option \<Rightarrow> json" where
  "jopt f x = (case x of None \<Rightarrow> JNull | Some y \<Rightarrow> f y)"

definition jstrs :: "string list \<Rightarrow> json" where
  "jstrs xs = JArr (map JStr xs)"

definition jget :: "json \<Rightarrow> string \<Rightarrow> json" where
  "jget d k = (case jlookup d k of None \<Rightarrow> JNull | Some v \<Rightarrow> v)"

text \<open>Truth value of a Python object, as \<open>if x\<close> reads it.\<close>

fun truthy :: "json \<Rightarrow> bool" where
  "truthy JNull = False"
| "truthy (JBool b) = b"
| "truthy (JInt i) = (i \<noteq> 0)"
| "truthy (JFloat s) = (s \<noteq> ''0.0'' \<and> s \<noteq> ''-0.0'')"
| "truthy (JStr s) = (s \<noteq> [])"
| "truthy (JArr xs) = (xs \<noteq> [])"
| "truthy (JObj kvs) = (kvs \<noteq> [])"

subsection \<open>Optional values\<close>

text \<open>\<open>x or y\<close> where \<open>x\<close> is \<open>None\<close> or a string, and \<open>if x\<close> for such an \<open>x\<close>.\<close>

definition str_or :: "string option \<Rightarrow> string \<Rightarrow> string" where
  "str_or x y = (case x of Some s \<Rightarrow> (if s = [] then y else s) | None \<Rightarrow> y)"

definition str_true :: "string option \<Rightarrow> bool" where
  "str_true x = (case x of Some s \<Rightarrow> s \<noteq> [] | None \<Rightarrow> False)"

lemma str_true_simps [simp]:
  "str_true None = False"
  "str_true (Some s) = (s \<noteq> [])"
  by (simp_all add: str_true_def)

lemma str_or_simps [simp]:
  "str_or None y = y"
  "str_or (Some s) y = (if s = [] then y else s)"
  by (simp_all add: str_or_def)

subsection \<open>Errors that cross component boundaries\<close>

text \<open>
  The exceptions of the invocation pipeline, with the arguments that a later stage reads.
  \<open>CredentialInjectionError\<close> and its two subclasses are the constructors of
  \<open>cred_error\<close>.
\<close>

datatype cred_error =
    CredentialInjectionError string
  | CredentialEnrollmentRequiredError string
  | CrossTypePrincipalFallbackDenied string

datatype exn =
    ToolDisabledError
  | ToolQuarantinedError
  | ToolDeprecatedError
  | ServerInMaintenanceError string
  | ScanFreshnessError "rat option"
  | NotEntitledError string string
  | TaintFloorDenyError int
  | OPADenyError "string list"
  | OPAUnavailableError string
  | CredentialError cred_error
  | AuditEmissionError string
  | TaintStoreError string
  | ProfileLookupError string
  | ValueError string
  | AttributeError string
  | RuntimeError string
  | TypeError string
  | KeyError string

subsection \<open>Lists\<close>

text \<open>
  Logs grow only at their end: \<open>prefix old new\<close> of HOL-Library.Sublist. The facts below let
  the simplifier discharge such goals for one appended entry.
\<close>

lemma prefix_snoc_self [simp, intro]: "prefix xs (xs @ ys)"
  by simp

lemma prefix_trans_append: "prefix (xs @ ys) zs \<Longrightarrow> prefix xs zs"
  by (auto simp: prefix_def)

lemma map_of_eq_None_filter:
  "map_of (filter (\<lambda>(k, v). k \<noteq> a) kvs) a = None"
  by (induction kvs) auto

lemma map_of_filter_other:
  "b \<noteq> a \<Longrightarrow> map_of (filter (\<lambda>(k, v). k \<noteq> a) kvs) b = map_of kvs b"
  by (induction kvs) auto

lemma find_Some_set: "find P xs = Some x \<Longrightarrow> x \<in> set xs \<and> P x"
  by (induction xs) (auto split: if_splits)

lemma find_None_iff_not: "(find P xs = None) = (\<forall>x \<in> set xs. \<not> P x)"
  by (induction xs) auto

lemma find_distinct_key:
  assumes "distinct (map f xs)" and "x \<in> set xs" and "P x" and "\<And>y. P y \<Longrightarrow> f y = f x"
  shows "find P xs = Some x"
proof -
  from assms(2,3) obtain y where y: "find P xs = Some y"
    using find_None_iff_not [of P xs] by (cases "find P xs") auto
  then have "y \<in> set xs" and "P y" using find_Some_set [OF y] by simp_all
  moreover from \<open>P y\<close> have "f y = f x" by (rule assms(4))
  ultimately have "y = x" using assms(1,2) by (simp add: distinct_map inj_on_def)
  with y show ?thesis by simp
qed

end
