(* ===== verification/PyStd.thy ===== *)
theory PyStd
  imports Prelude
begin

section \<open>The parts of Python's standard library the code relies on\<close>

text \<open>
  String splitting, \<open>urllib.parse.urlparse\<close> with its \<open>hostname\<close>, \<open>username\<close> and \<open>password\<close>
  attributes, and \<open>ipaddress.ip_address\<close> / \<open>ip_network\<close> with the classification tables
  (\<open>is_private\<close>, \<open>is_global\<close>) of CPython 3.12, the interpreter of the proxy image.
  URLs are ASCII: the NFKC check that \<open>urlsplit\<close> makes on other host names is not modelled.
  A scope id is checked and dropped, because the code never compares it.
\<close>

unbundle bit_operations_syntax

subsection \<open>Strings\<close>

fun split_on :: "char \<Rightarrow> string \<Rightarrow> string list" where
  "split_on c [] = [[]]"
| "split_on c (x # xs) =
     (if x = c then [] # split_on c xs
      else case split_on c xs of [] \<Rightarrow> [[x]] | p # ps \<Rightarrow> (x # p) # ps)"

text \<open>\<open>s.partition(c)\<close>: head, whether the separator occurs, tail.\<close>

definition partition_on :: "char \<Rightarrow> string \<Rightarrow> string \<times> bool \<times> string" where
  "partition_on c s =
     (takeWhile (\<lambda>x. x \<noteq> c) s, c \<in> set s, tl (dropWhile (\<lambda>x. x \<noteq> c) s))"

text \<open>\<open>s.rpartition(c)\<close>: without a separator the whole string is the last component.\<close>

definition rpartition_on :: "char \<Rightarrow> string \<Rightarrow> string \<times> bool \<times> string" where
  "rpartition_on c s =
     (if c \<in> set s
      then (rev (tl (dropWhile (\<lambda>x. x \<noteq> c) (rev s))), True, rev (takeWhile (\<lambda>x. x \<noteq> c) (rev s)))
      else ([], False, s))"

definition startswith :: "string \<Rightarrow> string \<Rightarrow> bool" where
  "startswith s p = (take (length p) s = p)"

definition endswith :: "string \<Rightarrow> string \<Rightarrow> bool" where
  "endswith s p = (length p \<le> length s \<and> drop (length s - length p) s = p)"

fun contains_sub :: "string \<Rightarrow> string \<Rightarrow> bool" where
  "contains_sub p [] = (p = [])"
| "contains_sub p (x # xs) = (startswith (x # xs) p \<or> contains_sub p xs)"

definition is_digit :: "char \<Rightarrow> bool" where
  "is_digit c = (48 \<le> (of_char c :: int) \<and> (of_char c :: int) \<le> 57)"

definition is_upper :: "char \<Rightarrow> bool" where
  "is_upper c = (65 \<le> (of_char c :: int) \<and> (of_char c :: int) \<le> 90)"

definition is_lower :: "char \<Rightarrow> bool" where
  "is_lower c = (97 \<le> (of_char c :: int) \<and> (of_char c :: int) \<le> 122)"

definition is_alpha :: "char \<Rightarrow> bool" where
  "is_alpha c = (is_upper c \<or> is_lower c)"

definition lower_char :: "char \<Rightarrow> char" where
  "lower_char c = (if is_upper c then char_of ((of_char c :: int) + 32) else c)"

definition lower :: "string \<Rightarrow> string" where
  "lower = map lower_char"

definition isdigit :: "string \<Rightarrow> bool" where
  "isdigit s = (s \<noteq> [] \<and> list_all is_digit s)"

definition digit_val :: "char \<Rightarrow> int" where
  "digit_val c = (of_char c :: int) - 48"

definition int_of_digits :: "string \<Rightarrow> int" where
  "int_of_digits s = foldl (\<lambda>n c. 10 * n + digit_val c) 0 s"

definition is_hex :: "char \<Rightarrow> bool" where
  "is_hex c = (is_digit c \<or> (65 \<le> (of_char c :: int) \<and> (of_char c :: int) \<le> 70)
                 \<or> (97 \<le> (of_char c :: int) \<and> (of_char c :: int) \<le> 102))"

definition hex_val :: "char \<Rightarrow> int" where
  "hex_val c = (let n = (of_char c :: int) in
     if is_digit c then n - 48 else if n \<le> 70 then n - 55 else n - 87)"

definition int_of_hex :: "string \<Rightarrow> int" where
  "int_of_hex s = foldl (\<lambda>n c. 16 * n + hex_val c) 0 s"

text \<open>\<open>s.strip()\<close> and \<open>s.splitlines()\<close>, with the boundaries that fit a byte.\<close>

definition py_space :: "char \<Rightarrow> bool" where
  "py_space c = (let n = (of_char c :: int) in (9 \<le> n \<and> n \<le> 13) \<or> (28 \<le> n \<and> n \<le> 32) \<or> n = 133 \<or> n = 160)"

definition strip :: "string \<Rightarrow> string" where
  "strip s = rev (dropWhile py_space (rev (dropWhile py_space s)))"

definition line_end :: "char \<Rightarrow> bool" where
  "line_end c = (let n = (of_char c :: int) in (10 \<le> n \<and> n \<le> 13) \<or> (28 \<le> n \<and> n \<le> 30) \<or> n = 133)"

fun splitlines_acc :: "string \<Rightarrow> string \<Rightarrow> string list" where
  "splitlines_acc acc [] = (if acc = [] then [] else [rev acc])"
| "splitlines_acc acc (c # s) =
     (if line_end c
      then rev acc # splitlines_acc [] (if c = CHR 0x0D \<and> take 1 s = [CHR 0x0A] then tl s else s)
      else splitlines_acc (c # acc) s)"

definition splitlines :: "string \<Rightarrow> string list" where
  "splitlines s = splitlines_acc [] s"

subsection \<open>IP addresses and networks\<close>

datatype ipaddr = IPv4 "32 word" | IPv6 "128 word"

text \<open>A network: its (masked) network address and its prefix length.\<close>

datatype ipnet = Net4 "32 word" nat | Net6 "128 word" nat

definition netmask4 :: "nat \<Rightarrow> 32 word" where
  "netmask4 p = NOT (mask (32 - p))"

definition netmask6 :: "nat \<Rightarrow> 128 word" where
  "netmask6 p = NOT (mask (128 - p))"

text \<open>\<open>ip in net\<close>; an address of the other family is never inside.\<close>

fun in_net :: "ipaddr \<Rightarrow> ipnet \<Rightarrow> bool" where
  "in_net (IPv4 a) (Net4 n p) = (a AND netmask4 p = n)"
| "in_net (IPv6 a) (Net6 n p) = (a AND netmask6 p = n)"
| "in_net _ _ = False"

text \<open>\<open>IPv4Address._parse_octet\<close> and \<open>_ip_int_from_string\<close>.\<close>

definition parse_octet :: "string \<Rightarrow> int option" where
  "parse_octet s =
     (if isdigit s \<and> length s \<le> 3 \<and> (s = ''0'' \<or> hd s \<noteq> CHR ''0'') \<and> int_of_digits s \<le> 255
      then Some (int_of_digits s) else None)"

definition parse_ipv4 :: "string \<Rightarrow> 32 word option" where
  "parse_ipv4 s =
     (case map parse_octet (split_on CHR ''.'' s) of
        [Some a, Some b, Some c, Some d] \<Rightarrow>
          Some (word_of_int (((a * 256 + b) * 256 + c) * 256 + d))
      | _ \<Rightarrow> None)"

definition parse_hextet :: "string \<Rightarrow> int option" where
  "parse_hextet s =
     (if s \<noteq> [] \<and> list_all is_hex s \<and> length s \<le> 4 then Some (int_of_hex s) else None)"

fun parse_hextets :: "string list \<Rightarrow> int list option" where
  "parse_hextets [] = Some []"
| "parse_hextets (s # ss) =
     (case parse_hextet s of None \<Rightarrow> None
      | Some n \<Rightarrow> (case parse_hextets ss of None \<Rightarrow> None | Some ns \<Rightarrow> Some (n # ns)))"

definition hextets_word :: "int list \<Rightarrow> 128 word" where
  "hextets_word ns = word_of_int (foldl (\<lambda>n h. 65536 * n + h) 0 ns)"

text \<open>
  The colon-separated groups of an IPv6 literal: a trailing dotted quad becomes two groups
  (kept as numbers by \<open>Inr\<close>, still text by \<open>Inl\<close>).
\<close>

definition ipv6_parts :: "string \<Rightarrow> string list option" where
  "ipv6_parts s = (let ps = split_on CHR '':'' s in if length ps < 3 then None else Some ps)"

definition ipv6_tail :: "string list \<Rightarrow> (string list \<times> int list) option" where
  "ipv6_tail ps =
     (if CHR ''.'' \<in> set (last ps)
      then (case parse_ipv4 (last ps) of None \<Rightarrow> None
            | Some w \<Rightarrow> Some (butlast ps, [uint w div 65536, uint w mod 65536]))
      else Some (ps, []))"

text \<open>Positions strictly inside the list whose group is empty, i.e. the places of \<open>::\<close>.\<close>

definition skip_positions :: "string list \<Rightarrow> nat \<Rightarrow> nat list" where
  "skip_positions ps n = filter (\<lambda>i. i < length ps \<and> ps ! i = []) [1 ..< n - 1]"

definition parse_ipv6_groups :: "string list \<Rightarrow> int list \<Rightarrow> 128 word option" where
  "parse_ipv6_groups ps v4 =
     (let n = length ps + length v4 in
      if n > 9 then None
      else case skip_positions ps n of
        [] \<Rightarrow>
          (if n \<noteq> 8 then None
           else case parse_hextets ps of None \<Rightarrow> None
                | Some hs \<Rightarrow> Some (hextets_word (hs @ v4)))
      | [k] \<Rightarrow>
          (let hi = take k ps; lo = drop (Suc k) ps;
               hi' = (if ps ! 0 = [] then tl hi else hi);
               lo' = (if v4 = [] \<and> last ps = [] then butlast lo else lo)
           in if ps ! 0 = [] \<and> k \<noteq> 1 then None
              else if v4 = [] \<and> last ps = [] \<and> length lo \<noteq> 1 then None
              else if length hi' + length lo' + length v4 \<ge> 8 then None
              else case (parse_hextets hi', parse_hextets lo') of
                (Some hs, Some ls) \<Rightarrow>
                  Some (hextets_word (hs @ replicate (8 - (length hs + length ls + length v4)) 0 @ ls @ v4))
              | _ \<Rightarrow> None)
      | _ \<Rightarrow> None)"

definition parse_ipv6 :: "string \<Rightarrow> 128 word option" where
  "parse_ipv6 s =
     (let (addr, pct, scope) = partition_on CHR ''%'' s in
      if CHR ''/'' \<in> set s then None
      else if pct \<and> (scope = [] \<or> CHR ''%'' \<in> set scope) then None
      else case ipv6_parts addr of None \<Rightarrow> None
           | Some ps \<Rightarrow> (case ipv6_tail ps of None \<Rightarrow> None
                         | Some (qs, v4) \<Rightarrow> parse_ipv6_groups qs v4))"

definition ip_address :: "string \<Rightarrow> ipaddr option" where
  "ip_address s =
     (case (if CHR ''/'' \<in> set s then None else parse_ipv4 s) of
        Some w \<Rightarrow> Some (IPv4 w)
      | None \<Rightarrow> map_option IPv6 (parse_ipv6 s))"

text \<open>
  \<open>ip_network(s, strict=False)\<close>: an optional prefix length after the slash, host bits
  cleared. The dotted netmask and hostmask forms of IPv4 are read like \<open>ipaddress\<close> does.
\<close>

definition prefix_of_mask :: "32 word \<Rightarrow> nat option" where
  "prefix_of_mask m = find (\<lambda>p. netmask4 p = m) [0 ..< 33]"

definition prefix4 :: "string \<Rightarrow> nat option" where
  "prefix4 s =
     (if isdigit s then (if int_of_digits s \<le> 32 then Some (nat (int_of_digits s)) else None)
      else case parse_ipv4 s of None \<Rightarrow> None
           | Some m \<Rightarrow> (case prefix_of_mask m of Some p \<Rightarrow> Some p | None \<Rightarrow> prefix_of_mask (NOT m)))"

definition prefix6 :: "string \<Rightarrow> nat option" where
  "prefix6 s = (if isdigit s \<and> int_of_digits s \<le> 128 then Some (nat (int_of_digits s)) else None)"

definition ip_network4 :: "string \<Rightarrow> ipnet option" where
  "ip_network4 s =
     (case split_on CHR ''/'' s of
        [a] \<Rightarrow> (case parse_ipv4 a of None \<Rightarrow> None | Some w \<Rightarrow> Some (Net4 w 32))
      | [a, m] \<Rightarrow>
          (case (parse_ipv4 a, prefix4 m) of
             (Some w, Some p) \<Rightarrow> Some (Net4 (w AND netmask4 p) p) | _ \<Rightarrow> None)
      | _ \<Rightarrow> None)"

definition ip_network6 :: "string \<Rightarrow> ipnet option" where
  "ip_network6 s =
     (case split_on CHR ''/'' s of
        [a] \<Rightarrow> (case parse_ipv6 a of None \<Rightarrow> None | Some w \<Rightarrow> Some (Net6 w 128))
      | [a, m] \<Rightarrow>
          (case (parse_ipv6 a, prefix6 m) of
             (Some w, Some p) \<Rightarrow> Some (Net6 (w AND netmask6 p) p) | _ \<Rightarrow> None)
      | _ \<Rightarrow> None)"

definition ip_network :: "string \<Rightarrow> ipnet option" where
  "ip_network s = (case ip_network4 s of Some n \<Rightarrow> Some n | None \<Rightarrow> ip_network6 s)"

subsubsection \<open>Embedded IPv4 forms\<close>

definition ipv4_mapped :: "128 word \<Rightarrow> 32 word option" where
  "ipv4_mapped w = (if drop_bit 32 w = 0xFFFF then Some (ucast w) else None)"

definition sixtofour :: "128 word \<Rightarrow> 32 word option" where
  "sixtofour w = (if drop_bit 112 w = 0x2002 then Some (ucast (drop_bit 80 w)) else None)"

definition teredo :: "128 word \<Rightarrow> (32 word \<times> 32 word) option" where
  "teredo w = (if drop_bit 96 w = 0x20010000
               then Some (ucast (drop_bit 64 w), ucast (NOT w)) else None)"

subsubsection \<open>Global reachability\<close>

definition private_v4 :: "ipnet list" where
  "private_v4 =
     [Net4 0x00000000 8, Net4 0x0A000000 8, Net4 0x7F000000 8, Net4 0xA9FE0000 16,
      Net4 0xAC100000 12, Net4 0xC0000000 24, Net4 0xC00000AA 31, Net4 0xC0000200 24,
      Net4 0xC0A80000 16, Net4 0xC6120000 15, Net4 0xC6336400 24, Net4 0xCB007100 24,
      Net4 0xF0000000 4, Net4 0xFFFFFFFF 32]"

definition private_v4_exceptions :: "ipnet list" where
  "private_v4_exceptions = [Net4 0xC0000009 32, Net4 0xC000000A 32]"

definition private_v6 :: "ipnet list" where
  "private_v6 =
     [Net6 1 128, Net6 0 128, Net6 0xFFFF00000000 96, Net6 0x0064FF9B000100000000000000000000 48,
      Net6 0x01000000000000000000000000000000 64, Net6 0x20010000000000000000000000000000 23,
      Net6 0x20010DB8000000000000000000000000 32, Net6 0x20020000000000000000000000000000 16,
      Net6 0xFC000000000000000000000000000000 7, Net6 0xFE800000000000000000000000000000 10]"

definition private_v6_exceptions :: "ipnet list" where
  "private_v6_exceptions =
     [Net6 0x20010001000000000000000000000001 128, Net6 0x20010001000000000000000000000002 128,
      Net6 0x20010003000000000000000000000000 32, Net6 0x20010004011200000000000000000000 48,
      Net6 0x20010020000000000000000000000000 28, Net6 0x20010030000000000000000000000000 28]"

definition in_any :: "ipaddr \<Rightarrow> ipnet list \<Rightarrow> bool" where
  "in_any a nets = list_ex (in_net a) nets"

definition is_private_v4 :: "32 word \<Rightarrow> bool" where
  "is_private_v4 w = (in_any (IPv4 w) private_v4 \<and> \<not> in_any (IPv4 w) private_v4_exceptions)"

fun is_global :: "ipaddr \<Rightarrow> bool" where
  "is_global (IPv4 w) = (\<not> in_net (IPv4 w) (Net4 0x64400000 10) \<and> \<not> is_private_v4 w)"
| "is_global (IPv6 w) =
     (case ipv4_mapped w of
        Some v \<Rightarrow> \<not> is_private_v4 v
      | None \<Rightarrow> \<not> (in_any (IPv6 w) private_v6 \<and> \<not> in_any (IPv6 w) private_v6_exceptions))"

subsection \<open>URLs\<close>

record parsed_url =
  url_scheme :: string
  url_netloc :: string

definition scheme_char :: "char \<Rightarrow> bool" where
  "scheme_char c = (is_alpha c \<or> is_digit c \<or> c = CHR ''+'' \<or> c = CHR ''-'' \<or> c = CHR ''.'')"

text \<open>\<open>urlsplit\<close> first strips leading control characters and drops tab, CR and LF.\<close>

definition url_clean :: "string \<Rightarrow> string" where
  "url_clean u =
     filter (\<lambda>c. (of_char c :: int) \<noteq> 9 \<and> (of_char c :: int) \<noteq> 10 \<and> (of_char c :: int) \<noteq> 13)
       (dropWhile (\<lambda>c. (of_char c :: int) \<le> 32) u)"

definition split_scheme :: "string \<Rightarrow> string \<times> string" where
  "split_scheme u =
     (let (s, colon, rest) = partition_on CHR '':'' u in
      if colon \<and> s \<noteq> [] \<and> is_alpha (hd s) \<and> list_all scheme_char s
      then (lower s, rest) else ([], u))"

definition split_netloc :: "string \<Rightarrow> string" where
  "split_netloc u =
     (if startswith u ''//''
      then takeWhile (\<lambda>c. c \<noteq> CHR ''/'' \<and> c \<noteq> CHR ''?'' \<and> c \<noteq> CHR ''#'') (drop 2 u) else [])"

text \<open>\<open>_check_bracketed_host\<close>: an address in brackets is IPv6 or a \<open>v<hex>.\<close> future form.\<close>

definition bracketed_host_ok :: "string \<Rightarrow> bool" where
  "bracketed_host_ok h =
     (if startswith h ''v''
      then (let (v, dot, rest) = partition_on CHR ''.'' (tl h) in
              dot \<and> v \<noteq> [] \<and> list_all is_hex v \<and> rest \<noteq> [])
      else case ip_address h of Some (IPv6 _) \<Rightarrow> True | _ \<Rightarrow> False)"

definition netloc_ok :: "string \<Rightarrow> bool" where
  "netloc_ok n =
     (let br = (CHR ''['' \<in> set n); cl = (CHR '']'' \<in> set n) in
      if br \<noteq> cl then False
      else if \<not> br then True
      else let (_, _, hp) = rpartition_on CHR ''@'' n;
               (pre, ob, bracketed) = partition_on CHR ''['' hp in
        if ob then pre = [] \<and>
          (let (host, _, port) = partition_on CHR '']'' bracketed in
             (port = [] \<or> hd port = CHR '':'') \<and> bracketed_host_ok host)
        else (let (host, _, _) = partition_on CHR '':'' hp in bracketed_host_ok host))"

text \<open>\<open>urlparse\<close>: \<open>None\<close> where it raises \<open>ValueError\<close>.\<close>

definition urlparse :: "string \<Rightarrow> parsed_url option" where
  "urlparse u =
     (let (sch, rest) = split_scheme (url_clean u); n = split_netloc rest in
      if netloc_ok n then Some \<lparr>url_scheme = sch, url_netloc = n\<rparr> else None)"

definition url_hostname :: "parsed_url \<Rightarrow> string option" where
  "url_hostname p =
     (let (_, _, hostinfo) = rpartition_on CHR ''@'' (url_netloc p);
          (_, ob, bracketed) = partition_on CHR ''['' hostinfo;
          host = (if ob then fst (partition_on CHR '']'' bracketed)
                  else fst (partition_on CHR '':'' hostinfo));
          (h, pct, zone) = partition_on CHR ''%'' host
      in if host = [] then None else Some (lower h @ (if pct then CHR ''%'' # zone else [])))"

definition url_username :: "parsed_url \<Rightarrow> string option" where
  "url_username p =
     (let (userinfo, have, _) = rpartition_on CHR ''@'' (url_netloc p) in
      if have then Some (fst (partition_on CHR '':'' userinfo)) else None)"

definition url_password :: "parsed_url \<Rightarrow> string option" where
  "url_password p =
     (let (userinfo, have, _) = rpartition_on CHR ''@'' (url_netloc p);
          (_, havepw, pw) = partition_on CHR '':'' userinfo in
      if have \<and> havepw then Some pw else None)"

end
