(* ===== verification/Ssrf.thy ===== *)
theory Ssrf
  imports PyStd
begin

section \<open>The SSRF guard and the invoke-time address check\<close>

text \<open>
  \<^verbatim>\<open>proxy/app/services/ssrf.py\<close>: the blocked networks, the cloud-metadata floor, the
  IPv4 addresses that IPv6 transition forms embed, and \<open>validate_server_url\<close>.
  \<^verbatim>\<open>proxy/app/services/server_onboarding.py\<close>: the private-CIDR allowlist helpers,
  \<open>validate_upstream_url_ssrf\<close> and \<open>revalidate_upstream_ip_at_invoke\<close>.
  DNS is the parameter \<open>getaddrinfo\<close>: the addresses of a host as text, \<open>None\<close> where the
  call raises \<open>OSError\<close>. An error message is a constructor with the values it prints.
\<close>

subsection \<open>Address tables\<close>

definition BLOCKED_V4 :: "ipnet list" where
  "BLOCKED_V4 =
     [Net4 0x0A000000 8,    \<comment> \<open>10.0.0.0/8\<close>
      Net4 0xAC100000 12,   \<comment> \<open>172.16.0.0/12\<close>
      Net4 0xC0A80000 16,   \<comment> \<open>192.168.0.0/16\<close>
      Net4 0x7F000000 8,    \<comment> \<open>127.0.0.0/8\<close>
      Net4 0xA9FE0000 16,   \<comment> \<open>169.254.0.0/16\<close>
      Net4 0x00000000 8,    \<comment> \<open>0.0.0.0/8\<close>
      Net4 0x64400000 10]"  \<comment> \<open>100.64.0.0/10\<close>

definition BLOCKED_V6 :: "ipnet list" where
  "BLOCKED_V6 =
     [Net6 1 128, Net6 0 128,
      Net6 0xFC000000000000000000000000000000 7,
      Net6 0xFE800000000000000000000000000000 10,
      Net6 0xFD000EC2000000000000000000000000 32]"

definition METADATA_FLOOR_V4 :: "ipnet list" where
  "METADATA_FLOOR_V4 =
     [Net4 0xA9FEA9FE 32,   \<comment> \<open>169.254.169.254\<close>
      Net4 0xA9FEAA02 32,   \<comment> \<open>169.254.170.2\<close>
      Net4 0x646464C8 32]"  \<comment> \<open>100.100.100.200\<close>

definition METADATA_FLOOR_V6 :: "ipnet list" where
  "METADATA_FLOOR_V6 = [Net6 0xFD000EC2000000000000000000000254 128]"

definition NAT64_PREFIX :: ipnet where
  "NAT64_PREFIX = Net6 0x0064FF9B000000000000000000000000 96"

definition V4COMPAT_PREFIX :: ipnet where
  "V4COMPAT_PREFIX = Net6 0 96"

definition v4_blocked :: "32 word \<Rightarrow> bool" where
  "v4_blocked w = in_any (IPv4 w) BLOCKED_V4"

definition embedded_v4s :: "128 word \<Rightarrow> 32 word list" where
  "embedded_v4s w =
     (case ipv4_mapped w of None \<Rightarrow> [] | Some v \<Rightarrow> [v]) @
     (case sixtofour w of None \<Rightarrow> [] | Some v \<Rightarrow> [v]) @
     (case teredo w of None \<Rightarrow> [] | Some (server, client) \<Rightarrow> [server, client]) @
     (if in_net (IPv6 w) NAT64_PREFIX \<or> in_net (IPv6 w) V4COMPAT_PREFIX then [ucast w] else [])"

fun floor_ip :: "ipaddr \<Rightarrow> bool" where
  "floor_ip (IPv4 w) = in_any (IPv4 w) METADATA_FLOOR_V4"
| "floor_ip (IPv6 w) =
     (in_any (IPv6 w) METADATA_FLOOR_V6
      \<or> list_ex (\<lambda>v. in_any (IPv4 v) METADATA_FLOOR_V4) (embedded_v4s w))"

definition is_floor_blocked :: "string \<Rightarrow> bool" where
  "is_floor_blocked addr = (case ip_address addr of None \<Rightarrow> False | Some ip \<Rightarrow> floor_ip ip)"

subsection \<open>The block decision\<close>

text \<open>The private or reserved ranges, before any exemption.\<close>

fun reserved_ip :: "ipaddr \<Rightarrow> bool" where
  "reserved_ip (IPv4 w) = v4_blocked w"
| "reserved_ip (IPv6 w) =
     (if list_ex v4_blocked (embedded_v4s w) \<or> in_any (IPv6 w) BLOCKED_V6 then True
      else \<not> is_global (IPv6 w))"

fun exemption_candidates :: "ipaddr \<Rightarrow> ipaddr list" where
  "exemption_candidates (IPv4 w) = [IPv4 w]"
| "exemption_candidates (IPv6 w) = IPv6 w # map IPv4 (embedded_v4s w)"

text \<open>\<open>_is_blocked_ip\<close> on a parsed address.\<close>

definition blocked_ip :: "ipaddr \<Rightarrow> ipnet option \<Rightarrow> bool" where
  "blocked_ip ip allowed_cidr =
     (if floor_ip ip then True
      else if \<not> reserved_ip ip then False
      else case allowed_cidr of
             None \<Rightarrow> True
           | Some net \<Rightarrow> \<not> list_ex (\<lambda>c. in_net c net) (exemption_candidates ip))"

definition is_blocked_ip :: "string \<Rightarrow> ipnet option \<Rightarrow> bool" where
  "is_blocked_ip addr allowed_cidr =
     (if is_floor_blocked addr then True
      else case ip_address addr of
             None \<Rightarrow> False
           | Some ip \<Rightarrow> blocked_ip ip allowed_cidr)"

subsection \<open>\<open>validate_server_url\<close>\<close>

datatype ssrf_error =
    Unparseable | NoScheme | NoHostname | HasCredentials | BadAllowedCidr string
  | HttpNotAllowed | HttpRawIp | SchemeNotAllowed string
  | HostOnFloor string | HostBlocked string
  | DnsFailed string | ResolvedOnFloor string string | ResolvedPublic string string
  | ResolvedBlocked string string

text \<open>The loop over the resolved addresses in development-mode plain HTTP.\<close>

fun check_resolved_dev :: "string \<Rightarrow> string list \<Rightarrow> ssrf_error + unit" where
  "check_resolved_dev host [] = Inr ()"
| "check_resolved_dev host (a # as) =
     (let clean = hd (split_on CHR ''%'' a) in
      if is_floor_blocked clean then Inl (ResolvedOnFloor host a)
      else case ip_address clean of
             None \<Rightarrow> check_resolved_dev host as
           | Some ip \<Rightarrow> if is_global ip then Inl (ResolvedPublic host a)
                       else check_resolved_dev host as)"

fun check_resolved :: "string \<Rightarrow> ipnet option \<Rightarrow> string list \<Rightarrow> ssrf_error + unit" where
  "check_resolved host net [] = Inr ()"
| "check_resolved host net (a # as) =
     (if is_floor_blocked a then Inl (ResolvedOnFloor host a)
      else if is_blocked_ip a net then Inl (ResolvedBlocked host a)
      else check_resolved host net as)"

text \<open>\<open>host.replace(".", "").replace(":", "").isdigit()\<close>.\<close>

definition looks_like_ip :: "string \<Rightarrow> bool" where
  "looks_like_ip host = isdigit (filter (\<lambda>c. c \<noteq> CHR ''.'' \<and> c \<noteq> CHR '':'') host)"

definition http_scheme_check :: "bool \<Rightarrow> string \<Rightarrow> ipnet option \<Rightarrow> ssrf_error + unit" where
  "http_scheme_check allow_http_localhost host net =
     (if \<not> allow_http_localhost then Inl HttpNotAllowed
      else let host_ip = ip_address host;
               allowlisted_raw_ip =
                 (case (host_ip, net) of
                    (Some ip, Some n) \<Rightarrow> \<not> is_floor_blocked host \<and> in_net ip n
                  | _ \<Rightarrow> False);
               is_raw_ip = (is_blocked_ip host net \<or> looks_like_ip host)
           in if host \<notin> {''localhost'', ''127.0.0.1'', ''::1''} \<and> is_raw_ip \<and> \<not> allowlisted_raw_ip
              then Inl HttpRawIp else Inr ())"

definition scheme_check :: "bool \<Rightarrow> string \<Rightarrow> string \<Rightarrow> ipnet option \<Rightarrow> ssrf_error + unit" where
  "scheme_check allow_http_localhost sch host net =
     (if sch = ''http'' then http_scheme_check allow_http_localhost host net
      else if sch \<noteq> ''https'' then Inl (SchemeNotAllowed sch) else Inr ())"

text \<open>The checks on the host itself and on what it resolves to, after the scheme check.\<close>

definition host_check ::
    "(string \<Rightarrow> string list option) \<Rightarrow> bool \<Rightarrow> string \<Rightarrow> string \<Rightarrow> ipnet option \<Rightarrow> ssrf_error + unit" where
  "host_check getaddrinfo allow_http_localhost sch host net =
     (if is_floor_blocked host then Inl (HostOnFloor host)
      else if is_blocked_ip host net then Inl (HostBlocked host)
      else if host = ''localhost'' then Inr ()
      else case getaddrinfo host of
             None \<Rightarrow> Inl (DnsFailed host)
           | Some resolved \<Rightarrow>
               if allow_http_localhost \<and> sch = ''http'' then check_resolved_dev host resolved
               else check_resolved host net resolved)"

definition validate_server_url ::
    "(string \<Rightarrow> string list option) \<Rightarrow> string \<Rightarrow> bool \<Rightarrow> string option \<Rightarrow> ssrf_error + unit" where
  "validate_server_url getaddrinfo url allow_http_localhost allowed_cidr =
     (case urlparse url of
        None \<Rightarrow> Inl Unparseable
      | Some parsed \<Rightarrow>
          if url_scheme parsed = [] then Inl NoScheme
          else case url_hostname parsed of
            None \<Rightarrow> Inl NoHostname
          | Some host \<Rightarrow>
              if str_true (url_username parsed) \<or> str_true (url_password parsed)
              then Inl HasCredentials
              else if str_true allowed_cidr \<and> ip_network (the allowed_cidr) = None
              then Inl (BadAllowedCidr (the allowed_cidr))
              else let net = (if str_true allowed_cidr then ip_network (the allowed_cidr) else None) in
                case scheme_check allow_http_localhost (url_scheme parsed) host net of
                  Inl e \<Rightarrow> Inl e
                | Inr _ \<Rightarrow> host_check getaddrinfo allow_http_localhost (url_scheme parsed) host net)"

subsection \<open>The private-CIDR allowlist of the onboarding path\<close>

datatype onboarding_error =
    BadUrl | UrlNoScheme | UrlNoHostname | UrlCredentials | UrlScheme string
  | BadCidrEntry string | CidrInsideFloor string ipnet
  | RawIpBlocked string | RawIpNotAllowlisted string
  | ResolutionFailed string | NoAddress string
  | PrivateNotAllowlisted string string | MixedResolution string
  | MultipleCidrs string | DevHttpPublic string | DevHttpNoAllowlist string
  | ResolvesToBlocked string string

definition floor_networks :: "ipnet \<Rightarrow> ipnet list" where
  "floor_networks net = (case net of Net4 _ _ \<Rightarrow> METADATA_FLOOR_V4 | Net6 _ _ \<Rightarrow> METADATA_FLOOR_V6)"

fun network_address :: "ipnet \<Rightarrow> ipaddr" where
  "network_address (Net4 n p) = IPv4 n"
| "network_address (Net6 n p) = IPv6 n"

definition cidr_floor_overlap :: "ipnet \<Rightarrow> ipnet option" where
  "cidr_floor_overlap net = find (\<lambda>f. in_net (network_address f) net) (floor_networks net)"

text \<open>\<open>net.subnet_of(floor_net)\<close>: first and last address inside; a mixed pair is \<open>False\<close>.\<close>

fun cidr_is_subset_of_floor :: "ipnet \<Rightarrow> ipnet \<Rightarrow> bool" where
  "cidr_is_subset_of_floor (Net4 n p) (Net4 f q) =
     (f \<le> n \<and> n OR NOT (netmask4 p) \<le> f OR NOT (netmask4 q))"
| "cidr_is_subset_of_floor (Net6 n p) (Net6 f q) =
     (f \<le> n \<and> n OR NOT (netmask6 p) \<le> f OR NOT (netmask6 q))"
| "cidr_is_subset_of_floor _ _ = False"

fun parse_cidr_allowlist :: "string list \<Rightarrow> onboarding_error + ipnet list" where
  "parse_cidr_allowlist [] = Inr []"
| "parse_cidr_allowlist (entry # rest) =
     (case ip_network entry of
        None \<Rightarrow> Inl (BadCidrEntry entry)
      | Some net \<Rightarrow>
          (case cidr_floor_overlap net of
             Some f \<Rightarrow>
               if cidr_is_subset_of_floor net f then Inl (CidrInsideFloor entry f)
               else map_sum id ((#) net) (parse_cidr_allowlist rest)
           | None \<Rightarrow> map_sum id ((#) net) (parse_cidr_allowlist rest)))"

text \<open>The network that covers the address; the code returns its text \<open>str(net)\<close>.\<close>

definition ip_in_allowlist :: "string \<Rightarrow> ipnet list \<Rightarrow> ipnet option" where
  "ip_in_allowlist ip_str networks =
     (if is_floor_blocked ip_str then None
      else case ip_address ip_str of
             None \<Rightarrow> None
           | Some ip \<Rightarrow> find (in_net ip) networks)"

text \<open>The categorising loop: the matched networks in order and the count of public addresses.\<close>

fun categorise :: "string \<Rightarrow> ipnet list \<Rightarrow> string list \<Rightarrow> ipnet list \<Rightarrow> nat
    \<Rightarrow> onboarding_error + ipnet list \<times> nat" where
  "categorise host nets [] matched pub = Inr (matched, pub)"
| "categorise host nets (a # as) matched pub =
     (if is_blocked_ip a None
      then (case ip_in_allowlist a nets of
              None \<Rightarrow> Inl (PrivateNotAllowlisted host a)
            | Some n \<Rightarrow> categorise host nets as (List.insert n matched) pub)
      else categorise host nets as matched (Suc pub))"

definition validate_resolved_ips_against_allowlist ::
    "string \<Rightarrow> string list \<Rightarrow> ipnet list \<Rightarrow> onboarding_error + ipnet option" where
  "validate_resolved_ips_against_allowlist host ip_addresses nets =
     (if ip_addresses = [] then Inl (NoAddress host)
      else case categorise host nets ip_addresses [] 0 of
             Inl e \<Rightarrow> Inl e
           | Inr (matched, pub) \<Rightarrow>
               if matched \<noteq> [] \<and> pub > 0 then Inl (MixedResolution host)
               else if length matched > 1 then Inl (MultipleCidrs host)
               else (case matched of [] \<Rightarrow> Inr None | n # _ \<Rightarrow> Inr (Some n)))"

text \<open>The last part of \<open>validate_upstream_url_ssrf\<close>, once the host has been resolved.\<close>

definition check_upstream_addresses ::
    "bool \<Rightarrow> string \<Rightarrow> ipnet list \<Rightarrow> string list \<Rightarrow> onboarding_error + ipnet option" where
  "check_upstream_addresses dev_http host nets ips =
     (if nets \<noteq> []
      then (case validate_resolved_ips_against_allowlist host ips nets of
              Inl e \<Rightarrow> Inl e
            | Inr m \<Rightarrow> if dev_http \<and> m = None then Inl (DevHttpPublic host) else Inr m)
      else if dev_http then Inl (DevHttpNoAllowlist host)
      else case find (\<lambda>a. is_blocked_ip a None) ips of
             Some a \<Rightarrow> Inl (ResolvesToBlocked host a)
           | None \<Rightarrow> Inr None)"

definition validate_upstream_url_ssrf ::
    "(string \<Rightarrow> string list option) \<Rightarrow> string \<Rightarrow> string list \<Rightarrow> bool \<Rightarrow> onboarding_error + ipnet option" where
  "validate_upstream_url_ssrf getaddrinfo upstream_url private_cidr_allowlist allow_http_dev =
     (case urlparse upstream_url of
        None \<Rightarrow> Inl BadUrl
      | Some parsed \<Rightarrow>
          if url_scheme parsed = [] then Inl UrlNoScheme
          else case url_hostname parsed of
            None \<Rightarrow> Inl UrlNoHostname
          | Some host \<Rightarrow>
              if str_true (url_username parsed) \<or> str_true (url_password parsed)
              then Inl UrlCredentials
              else if url_scheme parsed \<noteq> ''https'' \<and> \<not> (allow_http_dev \<and> url_scheme parsed = ''http'')
              then Inl (UrlScheme (url_scheme parsed))
              else case parse_cidr_allowlist private_cidr_allowlist of
                Inl e \<Rightarrow> Inl e
              | Inr nets \<Rightarrow>
                  if is_blocked_ip host None
                  then (if nets = [] then Inl (RawIpBlocked host)
                        else case ip_in_allowlist host nets of
                               None \<Rightarrow> Inl (RawIpNotAllowlisted host)
                             | Some n \<Rightarrow> Inr (Some n))
                  else case getaddrinfo host of
                         None \<Rightarrow> Inl (ResolutionFailed host)
                       | Some [] \<Rightarrow> Inl (NoAddress host)
                       | Some ips \<Rightarrow>
                           check_upstream_addresses (url_scheme parsed = ''http'') host nets ips)"

subsection \<open>\<open>revalidate_upstream_ip_at_invoke\<close>\<close>

datatype revalidation_error =
    RevalBadUrl | RevalNoHostname | RevalDnsFailed string | RevalNoAddress string
  | RevalBadCidr string | RevalFloor string "string list" | RevalOutside string "string list"
  | RevalPrivate string "string list"

text \<open>An address counts as outside when it does not parse or is not in the registered network.\<close>

definition outside_net :: "ipnet \<Rightarrow> string \<Rightarrow> bool" where
  "outside_net net a =
     (\<not> is_floor_blocked a \<and> (case ip_address a of None \<Rightarrow> True | Some ip \<Rightarrow> \<not> in_net ip net))"

definition check_registered_policy ::
    "string \<Rightarrow> string option \<Rightarrow> string list \<Rightarrow> revalidation_error + string list" where
  "check_registered_policy host entry ips =
     (if str_true entry
      then (case ip_network (the entry) of
              None \<Rightarrow> Inl (RevalBadCidr (the entry))
            | Some net \<Rightarrow>
                let floor_hit = filter is_floor_blocked ips; outside = filter (outside_net net) ips in
                if floor_hit \<noteq> [] then Inl (RevalFloor host floor_hit)
                else if outside \<noteq> [] then Inl (RevalOutside host outside)
                else Inr ips)
      else let private_ips = filter (\<lambda>a. is_blocked_ip a None) ips in
           if private_ips \<noteq> [] then Inl (RevalPrivate host private_ips) else Inr ips)"

definition revalidate_upstream_ip_at_invoke ::
    "(string \<Rightarrow> string list option) \<Rightarrow> string \<Rightarrow> string option \<Rightarrow> revalidation_error + string list" where
  "revalidate_upstream_ip_at_invoke getaddrinfo upstream_url entry =
     (case urlparse upstream_url of
        None \<Rightarrow> Inl RevalBadUrl
      | Some parsed \<Rightarrow>
          (case url_hostname parsed of
             None \<Rightarrow> Inl RevalNoHostname
           | Some host \<Rightarrow>
               (case getaddrinfo host of
                  None \<Rightarrow> Inl (RevalDnsFailed host)
                | Some [] \<Rightarrow> Inl (RevalNoAddress host)
                | Some ips \<Rightarrow> check_registered_policy host entry ips)))"

subsection \<open>Facts on the block decision\<close>

lemma floor_ip_blocked [simp]: "floor_ip ip \<Longrightarrow> blocked_ip ip net"
  by (simp add: blocked_ip_def)

lemma is_floor_blocked_blocked [simp]: "is_floor_blocked a \<Longrightarrow> is_blocked_ip a net"
  by (simp add: is_blocked_ip_def)

lemma is_blocked_ip_parsed [gw_simps]:
  "ip_address a = Some ip \<Longrightarrow> is_blocked_ip a net = blocked_ip ip net"
  by (simp add: is_blocked_ip_def is_floor_blocked_def)

lemma not_blocked_exempt:
  "\<not> blocked_ip ip allowed \<Longrightarrow> reserved_ip ip \<Longrightarrow>
     \<exists>net c. allowed = Some net \<and> c \<in> set (exemption_candidates ip) \<and> in_net c net"
  by (auto simp: blocked_ip_def list_ex_iff split: if_splits option.splits)

lemma embedded_blocked_reserved:
  "v \<in> set (embedded_v4s w) \<Longrightarrow> v4_blocked v \<Longrightarrow> blocked_ip (IPv6 w) None"
  by (auto simp: blocked_ip_def list_ex_iff)

lemma embedded_floor:
  "v \<in> set (embedded_v4s w) \<Longrightarrow> floor_ip (IPv4 v) \<Longrightarrow> floor_ip (IPv6 w)"
  by (auto simp: list_ex_iff)

text \<open>
  Fields of a 128-bit word written as \<open>prefix : middle : low\<close>. The prefix stays a variable, so
  that the simplifier does not evaluate it before the bits are compared.
\<close>

lemma low_field: "32 \<le> k \<Longrightarrow> ucast (push_bit k p OR ucast v :: 128 word) = (v :: 32 word)"
  by (rule bit_word_eqI) (auto simp: bit_simps)

lemma low_field_not:
  "32 \<le> k \<Longrightarrow> 32 \<le> j \<Longrightarrow>
     ucast (NOT (push_bit k p OR push_bit j q OR ucast (NOT v) :: 128 word)) = (v :: 32 word)"
  by (rule bit_word_eqI) (auto simp: bit_simps)

lemma mid_field:
  "j + 32 \<le> k \<Longrightarrow> j \<le> 96 \<Longrightarrow>
     ucast (drop_bit j (push_bit k p OR push_bit j (ucast v) OR take_bit j r :: 128 word)) = (v :: 32 word)"
  by (rule bit_word_eqI) (auto simp: bit_simps)

lemma top_field:
  fixes p q :: "128 word"
  assumes "take_bit (128 - k) p = p" and "k \<le> 128" and "\<And>i. bit q i \<Longrightarrow> i < k"
  shows "drop_bit k (push_bit k p OR q) = p"
proof (rule bit_word_eqI)
  fix n
  have "bit p n \<longleftrightarrow> bit p n \<and> n < 128 - k"
    using assms(1) by (metis bit_take_bit_iff)
  with assms(2,3) show "bit (drop_bit k (push_bit k p OR q)) n = bit p n"
    by (auto simp: bit_simps dest: bit_imp_le_length)
qed

text \<open>The wrappers an attacker can write around an IPv4 address \<open>v\<close>.\<close>

lemma embedded_mapped: "v \<in> set (embedded_v4s (push_bit 32 0xFFFF OR ucast v))"
proof -
  have "drop_bit 32 (push_bit 32 0xFFFF OR ucast v :: 128 word) = 0xFFFF"
    by (rule top_field) (auto simp: bit_simps dest: bit_imp_le_length)
  with low_field [of 32 "0xFFFF" v] show ?thesis
    by (simp add: embedded_v4s_def ipv4_mapped_def)
qed

lemma embedded_sixtofour:
  "v \<in> set (embedded_v4s (push_bit 112 0x2002 OR (push_bit 80 (ucast v) OR take_bit 80 r)))"
proof -
  have "drop_bit 112 (push_bit 112 0x2002 OR (push_bit 80 (ucast v) OR take_bit 80 r) :: 128 word) = 0x2002"
    by (rule top_field) (auto simp: bit_simps dest: bit_imp_le_length)
  with mid_field [of 80 112 "0x2002" v r] show ?thesis
    by (simp add: embedded_v4s_def sixtofour_def or.assoc)
qed

lemma embedded_teredo_server:
  "v \<in> set (embedded_v4s (push_bit 96 0x20010000 OR (push_bit 64 (ucast v) OR take_bit 64 r)))"
proof -
  have "drop_bit 96 (push_bit 96 0x20010000 OR (push_bit 64 (ucast v) OR take_bit 64 r) :: 128 word)
      = 0x20010000"
    by (rule top_field) (auto simp: bit_simps dest: bit_imp_le_length)
  with mid_field [of 64 96 "0x20010000" v r] show ?thesis
    by (simp add: embedded_v4s_def teredo_def or.assoc)
qed

lemma embedded_teredo_client:
  "v \<in> set (embedded_v4s (push_bit 96 0x20010000 OR (push_bit 32 (take_bit 64 r) OR ucast (NOT v))))"
proof -
  have "drop_bit 96 (push_bit 96 0x20010000 OR (push_bit 32 (take_bit 64 r) OR ucast (NOT v)) :: 128 word)
      = 0x20010000"
    by (rule top_field) (auto simp: bit_simps dest: bit_imp_le_length)
  with low_field_not [of 96 32 "0x20010000" "take_bit 64 r" v] show ?thesis
    by (simp add: embedded_v4s_def teredo_def or.assoc)
qed

lemma prefix_field:
  "(push_bit 96 p OR ucast (v :: 32 word) :: 128 word) AND netmask6 96 = push_bit 96 p"
  by (rule bit_word_eqI) (auto simp: bit_simps netmask6_def dest: bit_imp_le_length)

lemma embedded_nat64: "v \<in> set (embedded_v4s (push_bit 96 0x0064FF9B OR ucast v))"
  using low_field [of 96 "0x0064FF9B" v] prefix_field [of "0x0064FF9B" v]
  by (simp add: embedded_v4s_def NAT64_PREFIX_def)

lemma embedded_compat: "v \<in> set (embedded_v4s (ucast v))"
  using low_field [of 96 0 v] prefix_field [of 0 v]
  by (simp add: embedded_v4s_def V4COMPAT_PREFIX_def)

lemmas embedded_wrappers =
  embedded_mapped embedded_sixtofour embedded_teredo_server embedded_teredo_client
  embedded_nat64 embedded_compat

subsection \<open>The loops over resolved addresses\<close>

lemma check_resolved_ok [gw_simps]:
  "check_resolved host net as = Inr () \<longleftrightarrow> (\<forall>a \<in> set as. \<not> is_blocked_ip a net)"
  by (induction as) (auto split: if_splits)

definition strip_scope :: "string \<Rightarrow> string" where
  "strip_scope a = hd (split_on CHR ''%'' a)"

lemma check_resolved_dev_ok [gw_simps]:
  "check_resolved_dev host as = Inr () \<longleftrightarrow>
     (\<forall>a \<in> set as. \<not> is_floor_blocked (strip_scope a)
        \<and> (\<forall>ip. ip_address (strip_scope a) = Some ip \<longrightarrow> \<not> is_global ip))"
  by (induction as) (auto simp: Let_def strip_scope_def split: if_splits option.splits)

text \<open>The network that the stored CIDR text denotes; an empty text is no exemption.\<close>

definition allowed_net :: "string option \<Rightarrow> ipnet option" where
  "allowed_net cidr = (if str_true cidr then ip_network (the cidr) else None)"

lemma validate_server_url_host_check:
  assumes "validate_server_url gai url dev cidr = Inr ()" and "urlparse url = Some p"
    and "url_hostname p = Some h"
  shows "scheme_check dev (url_scheme p) h (allowed_net cidr) = Inr ()
    \<and> host_check gai dev (url_scheme p) h (allowed_net cidr) = Inr ()"
  using assms
  by (auto simp: validate_server_url_def allowed_net_def Let_def split: if_splits sum.splits)

lemma host_check_ok:
  assumes "host_check gai dev sch h net = Inr ()"
  shows "\<not> is_floor_blocked h \<and> \<not> is_blocked_ip h net
    \<and> (h \<noteq> ''localhost'' \<longrightarrow> (\<exists>ips. gai h = Some ips \<and>
          (if dev \<and> sch = ''http'' then check_resolved_dev h ips else check_resolved h net ips) = Inr ()))"
  using assms by (auto simp: host_check_def split: if_splits option.splits)



text \<open>
  A private or reserved address gets through the production guard only by the
  registered CIDR: when an \<open>https\<close> URL is accepted, every resolved address that parses and lies in a
  reserved range is inside the network of the stored CIDR, itself or in an IPv4 form it embeds.
  Without a stored CIDR no resolved address is reserved.
\<close>

theorem validate_server_url_private_exemption:
  assumes "validate_server_url gai url dev cidr = Inr ()" and "urlparse url = Some p"
    and "url_hostname p = Some h" and "h \<noteq> ''localhost''" and "url_scheme p = ''https''"
  shows "\<exists>ips. gai h = Some ips \<and>
    (\<forall>a \<in> set ips. \<forall>ip. ip_address a = Some ip \<longrightarrow> reserved_ip ip \<longrightarrow>
       (\<exists>net c. allowed_net cidr = Some net \<and> c \<in> set (exemption_candidates ip) \<and> in_net c net))"
proof -
  from validate_server_url_host_check [OF assms(1-3)]
  have "host_check gai dev (url_scheme p) h (allowed_net cidr) = Inr ()" ..
  from host_check_ok [OF this] assms(4,5) obtain ips where ips: "gai h = Some ips"
    and "\<forall>a \<in> set ips. \<not> is_blocked_ip a (allowed_net cidr)"
    by (auto simp: gw_simps split: if_splits)
  then have "\<forall>a \<in> set ips. \<forall>ip. ip_address a = Some ip \<longrightarrow> \<not> blocked_ip ip (allowed_net cidr)"
    by (auto simp: gw_simps)
  with ips show ?thesis using not_blocked_exempt by blast
qed

theorem validate_server_url_private_exemption_witness:
  "\<exists>net c. allowed_net (Some ''10.89.0.0/16'') = Some net
     \<and> c \<in> set (exemption_candidates (IPv4 0x0A590003)) \<and> in_net c net"
proof -
  let ?gai = "\<lambda>h :: string. Some [''10.89.0.3'']"
  let ?url = "''https://mcp-netbox/mcp''"
  let ?p = "\<lparr>url_scheme = ''https'', url_netloc = ''mcp-netbox''\<rparr>"
  have "validate_server_url ?gai ?url False (Some ''10.89.0.0/16'') = Inr ()" by code_simp
  moreover have "urlparse ?url = Some ?p" by code_simp
  moreover have "url_hostname ?p = Some ''mcp-netbox''" by code_simp
  moreover have "ip_address ''10.89.0.3'' = Some (IPv4 0x0A590003)" by code_simp
  moreover have "reserved_ip (IPv4 0x0A590003)" by code_simp
  ultimately show ?thesis
    using validate_server_url_private_exemption [of ?gai ?url False "Some ''10.89.0.0/16''" ?p] by simp
qed

text \<open>
  Property C25. An IPv4 address in a blocked range stays blocked inside every IPv6 transition
  form: IPv4-mapped, 6to4, Teredo (server or client), NAT64 and IPv4-compatible, for any value
  of the bits the form leaves free; a metadata address stays on the floor in the same forms.
\<close>

theorem wrapped_ipv4_stays_blocked:
  assumes "w \<in> {push_bit 32 0xFFFF OR ucast v,
      push_bit 112 0x2002 OR (push_bit 80 (ucast v) OR take_bit 80 r),
      push_bit 96 0x20010000 OR (push_bit 64 (ucast v) OR take_bit 64 r),
      push_bit 96 0x20010000 OR (push_bit 32 (take_bit 64 r) OR ucast (NOT v)),
      push_bit 96 0x0064FF9B OR ucast v, ucast v}"
  shows "(v4_blocked v \<longrightarrow> blocked_ip (IPv6 w) None)
    \<and> (floor_ip (IPv4 v) \<longrightarrow> (\<forall>net. blocked_ip (IPv6 w) net))"
proof -
  from assms have "v \<in> set (embedded_v4s w)"
    by (elim insertE emptyE) (simp_all only: embedded_wrappers)
  then show ?thesis
    using embedded_blocked_reserved embedded_floor floor_ip_blocked by blast
qed

theorem wrapped_ipv4_stays_blocked_witness:
  "blocked_ip (IPv6 (push_bit 96 0x0064FF9B OR ucast (0x7F000001 :: 32 word))) None"
proof -
  have "v4_blocked 0x7F000001" by code_simp
  then show ?thesis
    using wrapped_ipv4_stays_blocked
      [of "push_bit 96 0x0064FF9B OR ucast (0x7F000001 :: 32 word)" "0x7F000001" 0] by blast
qed

subsection \<open>The allowlist of the onboarding path\<close>

lemma categorise_eq:
  "categorise host nets as matched pub =
     (case find (\<lambda>a. is_blocked_ip a None \<and> ip_in_allowlist a nets = None) as of
        Some a \<Rightarrow> Inl (PrivateNotAllowlisted host a)
      | None \<Rightarrow> Inr
          (fold List.insert (map (\<lambda>a. the (ip_in_allowlist a nets)) (filter (\<lambda>a. is_blocked_ip a None) as)) matched,
           pub + length (filter (\<lambda>a. \<not> is_blocked_ip a None) as)))"
  by (induction as arbitrary: matched pub) (auto split: option.splits)

lemma set_fold_insert: "set (fold List.insert xs ys) = set xs \<union> set ys"
  by (induction xs arbitrary: ys) auto

lemma distinct_fold_insert: "distinct ys \<Longrightarrow> distinct (fold List.insert xs ys)"
  by (induction xs arbitrary: ys) auto

lemma ip_in_allowlist_Some:
  "ip_in_allowlist a nets = Some n \<Longrightarrow>
     \<not> is_floor_blocked a \<and> n \<in> set nets \<and> (\<exists>ip. ip_address a = Some ip \<and> in_net ip n)"
  by (auto simp: ip_in_allowlist_def dest: find_Some_set split: if_splits option.splits)

lemma distinct_at_most_one: "distinct xs \<Longrightarrow> length xs \<le> 1 \<longleftrightarrow> (\<forall>x \<in> set xs. \<forall>y \<in> set xs. x = y)"
  by (cases xs; cases "tl xs") auto

lemma allowlist_verdict:
  assumes "ms = fold List.insert (map (\<lambda>a. the (ip_in_allowlist a nets)) (filter (\<lambda>a. is_blocked_ip a None) ips)) []"
  shows "validate_resolved_ips_against_allowlist host ips nets = Inr m \<longleftrightarrow>
     ips \<noteq> [] \<and> (\<forall>a \<in> set ips. is_blocked_ip a None \<longrightarrow> ip_in_allowlist a nets \<noteq> None)
      \<and> (ms = [] \<or> (\<forall>a \<in> set ips. is_blocked_ip a None))
      \<and> length ms \<le> 1 \<and> m = (case ms of [] \<Rightarrow> None | n # _ \<Rightarrow> Some n)"
proof (cases "find (\<lambda>a. is_blocked_ip a None \<and> ip_in_allowlist a nets = None) ips")
  case None
  then have "\<forall>a \<in> set ips. is_blocked_ip a None \<longrightarrow> ip_in_allowlist a nets \<noteq> None"
    by (auto simp: find_None_iff_not)
  moreover have "categorise host nets ips [] 0 = Inr (ms, length (filter (\<lambda>a. \<not> is_blocked_ip a None) ips))"
    using None assms by (simp add: categorise_eq)
  ultimately show ?thesis
    by (auto simp: validate_resolved_ips_against_allowlist_def filter_empty_conv split: list.splits)
next
  case (Some a)
  then show ?thesis
    using find_Some_set [OF Some] by (auto simp: validate_resolved_ips_against_allowlist_def categorise_eq)
qed
lemma allowlist_check_exact: "validate_resolved_ips_against_allowlist host ips nets = Inr m \<longleftrightarrow>
     ips \<noteq> [] \<and>
     (case m of
        Some n \<Rightarrow> \<forall>a \<in> set ips. is_blocked_ip a None \<and> ip_in_allowlist a nets = Some n
      | None \<Rightarrow> \<forall>a \<in> set ips. \<not> is_blocked_ip a None)" (is "?L = ?R")
proof -
  define ms where "ms = fold List.insert (map (\<lambda>a. the (ip_in_allowlist a nets)) (filter (\<lambda>a. is_blocked_ip a None) ips)) []"
  have setms: "set ms = (\<lambda>a. the (ip_in_allowlist a nets)) ` {a \<in> set ips. is_blocked_ip a None}"
    by (simp add: ms_def set_fold_insert)
  have one: "(length ms \<le> 1) = (\<forall>x \<in> set ms. \<forall>y \<in> set ms. x = y)"
    by (rule distinct_at_most_one) (simp add: ms_def distinct_fold_insert)
  note L = allowlist_verdict [OF ms_def, of host m]
  have empty: "ms = [] \<longleftrightarrow> (\<forall>a \<in> set ips. \<not> is_blocked_ip a None)"
    using setms by (auto simp flip: set_empty)
  show ?thesis
  proof (cases m)
    case None
    then show ?thesis using L empty by (cases ms) auto
  next
    case (Some n)
    have "?L \<longleftrightarrow> ips \<noteq> [] \<and> (\<forall>a \<in> set ips. is_blocked_ip a None \<and> ip_in_allowlist a nets \<noteq> None) \<and> ms = [n]"
      using L Some empty by (cases ms) auto
    moreover have "ms = [n] \<longleftrightarrow> set ms = {n}"
      using one by (cases ms) auto
    moreover have "set ms = {n} \<longleftrightarrow> (\<forall>a \<in> set ips. the (ip_in_allowlist a nets) = n)"
      if "ips \<noteq> []" and "\<forall>a \<in> set ips. is_blocked_ip a None"
    proof -
      from that(2) have "set ms = (\<lambda>a. the (ip_in_allowlist a nets)) ` set ips"
        unfolding setms by (intro image_cong) auto
      with that(1) show ?thesis by (cases ips) auto
    qed
    ultimately have "?L \<longleftrightarrow> ips \<noteq> [] \<and> (\<forall>a \<in> set ips. is_blocked_ip a None \<and>
        ip_in_allowlist a nets \<noteq> None \<and> the (ip_in_allowlist a nets) = n)"
      by blast
    also have "\<dots> \<longleftrightarrow> ips \<noteq> [] \<and> (\<forall>a \<in> set ips. is_blocked_ip a None \<and> ip_in_allowlist a nets = Some n)"
      by (metis option.distinct(1) option.exhaust_sel option.sel)
    finally show ?thesis using Some by simp
  qed
qed

definition respects_registration :: "string option \<Rightarrow> string list \<Rightarrow> bool" where
  "respects_registration entry ips \<longleftrightarrow>
     (\<forall>a \<in> set ips. \<not> is_floor_blocked a) \<and>
     (if str_true entry
      then (case ip_network (the entry) of
              None \<Rightarrow> False
            | Some net \<Rightarrow> \<forall>a \<in> set ips. \<exists>ip. ip_address a = Some ip \<and> in_net ip net)
      else (\<forall>a \<in> set ips. \<not> is_blocked_ip a None))"

lemma not_outside_net:
  "\<not> is_floor_blocked a \<Longrightarrow> \<not> outside_net net a \<longleftrightarrow> (\<exists>ip. ip_address a = Some ip \<and> in_net ip net)"
  by (auto simp: outside_net_def split: option.splits)

lemma check_registered_policy_iff:
  "check_registered_policy host entry ips = Inr r \<longleftrightarrow> r = ips \<and> respects_registration entry ips"
proof (cases "str_true entry")
  case True
  show ?thesis
  proof (cases "ip_network (the entry)")
    case None
    with True show ?thesis by (simp add: check_registered_policy_def respects_registration_def)
  next
    case (Some net)
    have "filter is_floor_blocked ips = [] \<and> filter (outside_net net) ips = []
        \<longleftrightarrow> (\<forall>a \<in> set ips. \<not> is_floor_blocked a \<and> \<not> outside_net net a)"
      by (auto simp: filter_empty_conv)
    also have "\<dots> \<longleftrightarrow> (\<forall>a \<in> set ips. \<not> is_floor_blocked a \<and> (\<exists>ip. ip_address a = Some ip \<and> in_net ip net))"
      by (intro ball_cong conj_cong refl) (rule not_outside_net)
    also have "\<dots> \<longleftrightarrow> respects_registration entry ips"
      using True Some by (simp add: respects_registration_def ball_conj_distrib)
    finally show ?thesis
      using True Some by (auto simp: check_registered_policy_def Let_def)
  qed
next
  case False
  then show ?thesis
    by (auto simp: check_registered_policy_def respects_registration_def Let_def filter_empty_conv
        dest: is_floor_blocked_blocked)
qed

lemma revalidate_iff:
  "revalidate_upstream_ip_at_invoke gai url entry = Inr ips \<longleftrightarrow>
     (\<exists>p h. urlparse url = Some p \<and> url_hostname p = Some h \<and> gai h = Some ips) \<and>
     ips \<noteq> [] \<and> respects_registration entry ips"
proof (cases "urlparse url")
  case (Some p)
  note parsed = Some
  show ?thesis
  proof (cases "url_hostname p")
    case (Some h)
    with parsed show ?thesis
      by (auto simp: revalidate_upstream_ip_at_invoke_def check_registered_policy_iff
          split: option.splits list.splits)
  qed (simp add: revalidate_upstream_ip_at_invoke_def parsed)
qed (simp add: revalidate_upstream_ip_at_invoke_def)

lemma check_upstream_addresses_respects:
  assumes "check_upstream_addresses dev_http h nets ips = Inr m"
    and "case m of None \<Rightarrow> \<not> str_true entry | Some n \<Rightarrow> str_true entry \<and> ip_network (the entry) = Some n"
  shows "respects_registration entry ips"
proof (cases m)
  case None
  with assms(1) have "\<forall>a \<in> set ips. \<not> is_blocked_ip a None"
    by (cases "validate_resolved_ips_against_allowlist h ips nets")
      (auto simp: check_upstream_addresses_def allowlist_check_exact[where m = None] find_None_iff
        split: if_splits option.splits)
  with None assms(2) show ?thesis
    by (auto simp: respects_registration_def dest: is_floor_blocked_blocked)
next
  case (Some n)
  with assms(1) have "\<forall>a \<in> set ips. ip_in_allowlist a nets = Some n"
    by (cases "validate_resolved_ips_against_allowlist h ips nets")
      (auto simp: check_upstream_addresses_def allowlist_check_exact[where m = "Some n"] 
        split: if_splits option.splits)
  with Some assms(2) show ?thesis
    by (auto simp: respects_registration_def dest: ip_in_allowlist_Some)
qed



lemma allowlist_by_address:
  "ip_address a = ip_address b \<Longrightarrow> ip_in_allowlist a nets = ip_in_allowlist b nets"
  by (simp add: ip_in_allowlist_def is_floor_blocked_def)

lemma registered_addresses_respect:
  assumes "validate_upstream_url_ssrf gai url allow dev = Inr m"
    and "\<And>h ip. ip_address h = Some ip \<Longrightarrow> \<exists>a. gai h = Some [a] \<and> ip_address a = Some ip"
    and "case m of None \<Rightarrow> \<not> str_true entry | Some n \<Rightarrow> str_true entry \<and> ip_network (the entry) = Some n"
  obtains p h ips where "urlparse url = Some p" and "url_hostname p = Some h" and "gai h = Some ips"
    and "ips \<noteq> []" and "respects_registration entry ips"
    and "url_scheme p = ''https'' \<or> dev \<and> url_scheme p = ''http'' \<and> m \<noteq> None"
proof -
  from assms(1) obtain p h nets where p: "urlparse url = Some p" and h: "url_hostname p = Some h"
    and nets: "parse_cidr_allowlist allow = Inr nets"
    and sch: "url_scheme p = ''https'' \<or> dev \<and> url_scheme p = ''http''"
    by (auto simp: validate_upstream_url_ssrf_def split: option.splits if_splits sum.splits)
  show thesis
  proof (cases "is_blocked_ip h None")
    case True
    with assms(1) p h nets have "ip_in_allowlist h nets = m \<and> m \<noteq> None"
      by (auto simp: validate_upstream_url_ssrf_def intro: sym split: if_splits option.splits)
    then obtain n where m: "m = Some n" and n: "ip_in_allowlist h nets = Some n" by blast
    then obtain ip where ip: "ip_address h = Some ip" by (auto dest: ip_in_allowlist_Some)
    with assms(2) obtain a where a: "gai h = Some [a]" "ip_address a = Some ip" by blast
    with n ip have "ip_in_allowlist a nets = Some n" using allowlist_by_address[of a h] by simp
    with assms(3) m have "respects_registration entry [a]"
      by (auto simp: respects_registration_def dest: ip_in_allowlist_Some)
    with p h a m sch show thesis by (intro that[of p h "[a]"]) auto
  next
    case False
    with assms(1) p h nets obtain ips where ips: "gai h = Some ips" "ips \<noteq> []"
      and chk: "check_upstream_addresses (url_scheme p = ''http'') h nets ips = Inr m"
      by (auto simp: validate_upstream_url_ssrf_def split: option.splits if_splits list.splits)
    have "url_scheme p = ''http'' \<Longrightarrow> m \<noteq> None"
      using chk by (auto simp: check_upstream_addresses_def split: if_splits sum.splits)
    with p h ips sch check_upstream_addresses_respects[OF chk assms(3)] show thesis
      by (intro that[of p h ips]) auto
  qed
qed


subsection \<open>The pinned transport\<close>

text \<open>
  \<open>PinnedIPTransport.handle_async_request\<close>: the request that reaches the network layer. Header
  names are lower case, as httpx keeps them; \<open>sni\<close> is the \<open>sni_hostname\<close> extension.
\<close>

record http_request =
  req_method :: string
  req_host :: string
  req_headers :: "(string \<times> string) list"
  req_sni :: "string option"

definition handle_async_request :: "string \<Rightarrow> string \<Rightarrow> 'a http_request_scheme \<Rightarrow> 'a http_request_scheme" where
  "handle_async_request pinned_ip original_hostname request =
     request\<lparr>req_host := pinned_ip,
       req_headers := AList.update ''host'' original_hostname (req_headers request),
       req_sni := Some original_hostname\<rparr>"

text \<open>
  The contract of a guard that resolves an upstream before the connection is opened, and what
  the pinned transport gets from it: the address it connects to is one the guard saw, whatever
  the resolver answers later.
\<close>

locale upstream_guard =
  fixes guard :: "(string \<Rightarrow> string list option) \<Rightarrow> string \<Rightarrow> 'p \<Rightarrow> 'e + string list"
    and admits :: "'p \<Rightarrow> string list \<Rightarrow> bool"
  assumes guard_resolved: "guard gai url p = Inr ips \<Longrightarrow>
      \<exists>u h. urlparse url = Some u \<and> url_hostname u = Some h \<and> gai h = Some ips \<and> ips \<noteq> []"
    and guard_admits: "guard gai url p = Inr ips \<Longrightarrow> admits p ips"
    and admits_floor: "admits p ips \<Longrightarrow> a \<in> set ips \<Longrightarrow> \<not> is_floor_blocked a"
begin

lemma pinned_connection:
  assumes "guard gai url p = Inr ips"
  shows "admits p ips \<and> req_host (handle_async_request (hd ips) h r) \<in> set ips
    \<and> \<not> is_floor_blocked (req_host (handle_async_request (hd ips) h r))"
proof -
  from guard_resolved[OF assms] have "ips \<noteq> []" by blast
  then have "hd ips \<in> set ips" by simp
  with guard_admits[OF assms] admits_floor show ?thesis
    by (auto simp: handle_async_request_def)
qed

end

interpretation revalidation: upstream_guard revalidate_upstream_ip_at_invoke respects_registration
  by unfold_locales (auto simp: revalidate_iff respects_registration_def)

text \<open>
  What \<open>revalidate_upstream_ip_at_invoke\<close> returns is exactly the resolver's answer for
  the host of the URL, and it returns only when that answer is non-empty, holds no
  metadata or link-local address, and keeps to what was registered: every address inside the
  registered CIDR entry, or, with no entry, every address public.
\<close>

theorem revalidation_exact:
  "revalidate_upstream_ip_at_invoke gai url entry = Inr ips \<longleftrightarrow>
     (\<exists>p h. urlparse url = Some p \<and> url_hostname p = Some h \<and> gai h = Some ips) \<and>
     ips \<noteq> [] \<and> respects_registration entry ips"
  by (rule revalidate_iff)

text \<open>
  Property C26. Registration and invocation agree: an upstream URL that passes
  \<open>validate_upstream_url_ssrf\<close> is plain HTTP only in development and with a matched CIDR entry, and, as long as the
  resolver's answer stays the same, passes the re-validation at invoke time with the entry
  registration returned.
\<close>

theorem registration_then_invoke:
  assumes "validate_upstream_url_ssrf gai url allow dev = Inr m"
    and "\<And>h ip. ip_address h = Some ip \<Longrightarrow> \<exists>a. gai h = Some [a] \<and> ip_address a = Some ip"
    and "case m of None \<Rightarrow> \<not> str_true entry | Some n \<Rightarrow> str_true entry \<and> ip_network (the entry) = Some n"
  shows "(\<exists>ips. revalidate_upstream_ip_at_invoke gai url entry = Inr ips)
    \<and> (\<exists>p. urlparse url = Some p \<and>
          (url_scheme p = ''https'' \<or> dev \<and> url_scheme p = ''http'' \<and> m \<noteq> None))"
proof -
  from registered_addresses_respect[OF assms] obtain p h ips where *: "urlparse url = Some p" "url_hostname p = Some h" "gai h = Some ips"
    "ips \<noteq> []" "respects_registration entry ips"
    "url_scheme p = ''https'' \<or> dev \<and> url_scheme p = ''http'' \<and> m \<noteq> None" by blast
  then have "revalidate_upstream_ip_at_invoke gai url entry = Inr ips"
    by (auto simp: revalidate_iff)
  with * show ?thesis by blast
qed

theorem registration_then_invoke_witness:
  "\<exists>ips. revalidate_upstream_ip_at_invoke (\<lambda>h. Some [if h = ''grafana.lab'' then ''10.89.4.7'' else h])
     ''http://grafana.lab:3000/mcp'' (Some ''10.89.0.0/16'') = Inr ips"
proof -
  let ?g = "\<lambda>h. Some [if h = ''grafana.lab'' then ''10.89.4.7'' else h]"
  have 1: "validate_upstream_url_ssrf ?g ''http://grafana.lab:3000/mcp'' [''10.89.0.0/16''] True
      = Inr (ip_network ''10.89.0.0/16'')" by code_simp
  have 2: "ip_address ''grafana.lab'' = None" by code_simp
  then have 3: "\<exists>a. ?g h = Some [a] \<and> ip_address a = Some ip" if "ip_address h = Some ip" for h ip
    using that by auto
  have 4: "ip_network ''10.89.0.0/16'' = Some (Net4 0x0A590000 16)" by code_simp
  show ?thesis
    using registration_then_invoke[OF 1 3, of "Some ''10.89.0.0/16''"] 4
    by (simp add: str_true_def)
qed


text \<open>
  A request sent through the pinned transport after a successful re-validation goes
  to an address of the validated answer, never to a metadata or link-local address, and carries the
  original host name in the Host header and in the TLS server name, whatever headers it had.
\<close>

theorem pinned_request_safe:
  assumes "revalidate_upstream_ip_at_invoke gai url entry = Inr ips"
    and "r' = handle_async_request (hd ips) host r"
  shows "req_host r' \<in> set ips \<and> respects_registration entry ips \<and> \<not> is_floor_blocked (req_host r')
    \<and> map_of (req_headers r') ''host'' = Some host \<and> req_sni r' = Some host"
  using revalidation.pinned_connection[OF assms(1), of host r] assms(2)
  by (simp add: handle_async_request_def update_conv')

theorem pinned_request_safe_witness:
  "req_host (handle_async_request ''10.89.4.7'' ''grafana.lab''
      \<lparr>req_method = ''POST'', req_host = ''grafana.lab'', req_headers = [(''host'', ''localhost'')], req_sni = None\<rparr>)
    \<in> set [''10.89.4.7'']"
proof -
  have 1: "revalidate_upstream_ip_at_invoke (\<lambda>h. Some [''10.89.4.7'']) ''http://grafana.lab:3000/mcp''
      (Some ''10.89.0.0/16'') = Inr [''10.89.4.7'']" by code_simp
  show ?thesis
    using pinned_request_safe[OF 1 refl] by (metis list.sel(1))
qed


end
