(* ===== verification/Store.thy ===== *)
theory Store
  imports PyStd
begin

section \<open>Redis, PostgreSQL and the world around the gateway\<close>

text \<open>
  What the services share: the Redis pool of \<^verbatim>\<open>proxy/app/core/redis_client.py\<close> with the
  commands the sources use, the PostgreSQL tables the invoke path reads and writes, with the
  columns it reads, and the world of one request: the clock and, for each command and query,
  whether the call succeeds. A call that fails raises in the source; here its fault bit is off.

  A Redis value is text. \<open>CJson j\<close> is text that \<open>json.loads\<close> reads as \<open>j\<close> (every value written by
  \<open>json.dumps\<close>), \<open>CText s\<close> is any other text.
\<close>

subsection \<open>Redis\<close>

datatype cval = CText string | CJson json

record redis =
  r_init :: bool   \<comment> \<open>the pool was initialised\<close>
  r_kv :: "string \<Rightarrow> (cval \<times> rat) option"   \<comment> \<open>value and expiry time\<close>
  r_zs :: "string \<Rightarrow> (string \<times> rat) list"   \<comment> \<open>sorted sets, by score and member\<close>

definition redis_get :: "redis \<Rightarrow> rat \<Rightarrow> string \<Rightarrow> cval option" where
  "redis_get r t k = (case r_kv r k of None \<Rightarrow> None | Some (v, expiry) \<Rightarrow> if t < expiry then Some v else None)"

definition redis_setex :: "redis \<Rightarrow> rat \<Rightarrow> string \<Rightarrow> rat \<Rightarrow> cval \<Rightarrow> redis" where
  "redis_setex r t k ttl v = r\<lparr>r_kv := (r_kv r)(k := Some (v, t + ttl))\<rparr>"

definition redis_delete :: "redis \<Rightarrow> string \<Rightarrow> redis" where
  "redis_delete r k = r\<lparr>r_kv := (r_kv r)(k := None)\<rparr>"

definition str_less :: "string \<Rightarrow> string \<Rightarrow> bool" where
  "str_less s t = ord.lexordp (\<lambda>c d. (of_char c :: int) < of_char d) s t"

text \<open>\<open>ZADD\<close> of one member: an existing member moves to the new score.\<close>

fun zinsert :: "string \<Rightarrow> rat \<Rightarrow> (string \<times> rat) list \<Rightarrow> (string \<times> rat) list" where
  "zinsert m s [] = [(m, s)]"
| "zinsert m s ((m', s') # z) =
     (if s < s' \<or> (s = s' \<and> str_less m m') then (m, s) # (m', s') # z else (m', s') # zinsert m s z)"

definition zadd :: "string \<Rightarrow> rat \<Rightarrow> (string \<times> rat) list \<Rightarrow> (string \<times> rat) list" where
  "zadd m s z = zinsert m s (filter (\<lambda>e. fst e \<noteq> m) z)"

definition zremrangebyscore_upto :: "rat \<Rightarrow> (string \<times> rat) list \<Rightarrow> (string \<times> rat) list" where
  "zremrangebyscore_upto cutoff z = filter (\<lambda>e. cutoff < snd e) z"

subsection \<open>PostgreSQL\<close>

record server_row =
  sr_server_id :: string
  sr_name :: string
  sr_upstream_url :: string
  sr_custody_mode :: "string option"
  sr_status :: string
  sr_deleted :: bool
  sr_public :: bool   \<comment> \<open>\<open>public_to_authenticated\<close>\<close>
  sr_write_ops :: bool
  sr_debug_mode :: bool
  sr_debug_enabled_by :: "string option"
  sr_owner_sub :: "string option"
  sr_maintainers :: "string list"
  sr_trust_tier :: "int option"
  sr_default_injection_mode :: "string option"
  sr_allowlist_entry :: "string option"
  sr_last_rescanned_at :: "rat option"
  sr_failure_count :: int   \<comment> \<open>\<open>connection_failure_count\<close>\<close>
  sr_last_error :: "string option"

record entitlement_row =
  en_type :: string
  en_principal :: string
  en_server :: string
  en_revoked :: bool

record role_grant_row =
  rg_type :: string
  rg_principal :: string
  rg_server :: string
  rg_role :: string

text \<open>A row of \<open>mcp_profiles\<close> or \<open>profile_mcp_bindings\<close>.\<close>

record profile_row =
  pr_profile_id :: string
  pr_mcp_name :: string
  pr_enabled :: bool
  pr_functions :: "string list option"

record limits_row =
  li_client :: string
  li_rate :: "int option"
  li_sensitivity :: "string option"

record db =
  server_registry :: "server_row list"
  entitlement :: "entitlement_row list"
  server_role_grant :: "role_grant_row list"
  mcp_profiles :: "profile_row list"
  profile_mcp_bindings :: "profile_row list"
  client_limits :: "limits_row list"

text \<open>\<open>WHERE server_id = :sid AND deleted_at IS NULL\<close>.\<close>

definition live_server :: "db \<Rightarrow> string \<Rightarrow> server_row option" where
  "live_server d sid = find (\<lambda>r. sr_server_id r = sid \<and> \<not> sr_deleted r) (server_registry d)"

subsection \<open>The world of a request\<close>

datatype redis_op = RGet string | RSetex string | RDelete string | RPush string | RWindow string

datatype query =
    QMaintenance | QScanFreshness | QEntitlement | QOwnedServers | QListEntitled | QServerTrust
  | QProfile string | QBindingCount | QLimits | QAllowlistEntry | QConnectionResult | QAlert

record world =
  now :: rat
  now_repr :: string   \<comment> \<open>the clock reading as \<open>repr\<close> prints it\<close>
  redis_ok :: "redis_op \<Rightarrow> bool"
  db_ok :: "query \<Rightarrow> bool"

text \<open>A world without faults, and an empty Redis, for the witnesses.\<close>

abbreviation calm_world :: "rat \<Rightarrow> world" where
  "calm_world t \<equiv> \<lparr>now = t, now_repr = ''0.0'', redis_ok = (\<lambda>_. True), db_ok = (\<lambda>_. True)\<rparr>"

abbreviation empty_redis :: redis where
  "empty_redis \<equiv> \<lparr>r_init = True, r_kv = (\<lambda>_. None), r_zs = (\<lambda>_. [])\<rparr>"

subsection \<open>Laws\<close>

lemma redis_get_setex [simp]:
  "redis_get (redis_setex r t k ttl v) t' k' =
     (if k' = k then (if t' < t + ttl then Some v else None) else redis_get r t' k')"
  by (simp add: redis_get_def redis_setex_def)

lemma redis_get_delete [simp]:
  "redis_get (redis_delete r k) t k' = (if k' = k then None else redis_get r t k')"
  by (simp add: redis_get_def redis_delete_def)

lemma redis_setex_zs [simp]: "r_zs (redis_setex r t k ttl v) = r_zs r"
  and redis_setex_init [simp]: "r_init (redis_setex r t k ttl v) = r_init r"
  by (simp_all add: redis_setex_def)

lemma redis_get_update_zs [simp]: "redis_get (r\<lparr>r_zs := z\<rparr>) t k = redis_get r t k"
  by (simp add: redis_get_def)

lemma set_zinsert [simp]: "set (zinsert m s z) = insert (m, s) (set z)"
  by (induction m s z rule: zinsert.induct) auto

lemma length_zinsert [simp]: "length (zinsert m s z) = Suc (length z)"
  by (induction m s z rule: zinsert.induct) auto

lemma set_zadd: "set (zadd m s z) = insert (m, s) {e \<in> set z. fst e \<noteq> m}"
  by (auto simp: zadd_def)

lemma sorted_zinsert:
  "sorted (map snd z) \<Longrightarrow> sorted (map snd (zinsert m s z))"
  by (induction m s z rule: zinsert.induct) (auto simp: less_imp_le)

lemma distinct_zinsert:
  "distinct (map fst z) \<Longrightarrow> m \<notin> fst ` set z \<Longrightarrow> distinct (map fst (zinsert m s z))"
  by (induction m s z rule: zinsert.induct) auto

text \<open>The well-formedness of a sorted set, and that the window commands keep it.\<close>

definition zset_ok :: "(string \<times> rat) list \<Rightarrow> bool" where
  "zset_ok z \<longleftrightarrow> distinct (map fst z) \<and> sorted (map snd z)"

lemma distinct_map_fst_filter: "distinct (map fst z) \<Longrightarrow> distinct (map fst (filter P z))"
  by (induction z) auto

lemma zset_ok_filter: "zset_ok z \<Longrightarrow> zset_ok (filter P z)"
  by (simp add: zset_ok_def distinct_map_fst_filter sorted_filter)

lemma zset_ok_zadd: "zset_ok z \<Longrightarrow> zset_ok (zadd m s z)"
proof -
  assume "zset_ok z"
  then have "zset_ok (filter (\<lambda>e. fst e \<noteq> m) z)" by (rule zset_ok_filter)
  then show ?thesis
    by (auto simp: zadd_def zset_ok_def intro: sorted_zinsert distinct_zinsert)
qed

lemma zset_ok_zrem: "zset_ok z \<Longrightarrow> zset_ok (zremrangebyscore_upto c z)"
  by (simp add: zremrangebyscore_upto_def zset_ok_filter)

lemma live_server_Some:
  "live_server d sid = Some r \<Longrightarrow> r \<in> set (server_registry d) \<and> sr_server_id r = sid \<and> \<not> sr_deleted r"
  by (auto simp: live_server_def dest: find_Some_set)

end
