(* ===== verification/Sha256.thy ===== *)
theory Sha256
  imports PyStd
begin

section \<open>SHA-256 and HMAC\<close>

text \<open>
  \<open>hashlib.sha256(text.encode()).hexdigest()\<close> as the sources call it, for cache keys, audit event
  hashes and parameter hashes, and \<open>hmac.new(key, text, sha256).hexdigest()\<close>. A character is a byte:
  the UTF-8 encoding of a text is the text itself where it is ASCII.
\<close>

unbundle bit_operations_syntax

definition sha_K :: "32 word list" where
  "sha_K =
     [0x428A2F98, 0x71374491, 0xB5C0FBCF, 0xE9B5DBA5, 0x3956C25B, 0x59F111F1,
      0x923F82A4, 0xAB1C5ED5, 0xD807AA98, 0x12835B01, 0x243185BE, 0x550C7DC3,
      0x72BE5D74, 0x80DEB1FE, 0x9BDC06A7, 0xC19BF174, 0xE49B69C1, 0xEFBE4786,
      0x0FC19DC6, 0x240CA1CC, 0x2DE92C6F, 0x4A7484AA, 0x5CB0A9DC, 0x76F988DA,
      0x983E5152, 0xA831C66D, 0xB00327C8, 0xBF597FC7, 0xC6E00BF3, 0xD5A79147,
      0x06CA6351, 0x14292967, 0x27B70A85, 0x2E1B2138, 0x4D2C6DFC, 0x53380D13,
      0x650A7354, 0x766A0ABB, 0x81C2C92E, 0x92722C85, 0xA2BFE8A1, 0xA81A664B,
      0xC24B8B70, 0xC76C51A3, 0xD192E819, 0xD6990624, 0xF40E3585, 0x106AA070,
      0x19A4C116, 0x1E376C08, 0x2748774C, 0x34B0BCB5, 0x391C0CB3, 0x4ED8AA4A,
      0x5B9CCA4F, 0x682E6FF3, 0x748F82EE, 0x78A5636F, 0x84C87814, 0x8CC70208,
      0x90BEFFFA, 0xA4506CEB, 0xBEF9A3F7, 0xC67178F2]"

definition sha_H0 :: "32 word list" where
  "sha_H0 =
     [0x6A09E667, 0xBB67AE85, 0x3C6EF372, 0xA54FF53A, 0x510E527F, 0x9B05688C,
      0x1F83D9AB, 0x5BE0CD19]"

definition rotr :: "nat \<Rightarrow> 32 word \<Rightarrow> 32 word" where
  "rotr n w = drop_bit n w OR push_bit (32 - n) w"

definition sig0 :: "32 word \<Rightarrow> 32 word" where
  "sig0 w = (rotr 7 w XOR rotr 18 w) XOR drop_bit 3 w"

definition sig1 :: "32 word \<Rightarrow> 32 word" where
  "sig1 w = (rotr 17 w XOR rotr 19 w) XOR drop_bit 10 w"

definition Sig0 :: "32 word \<Rightarrow> 32 word" where
  "Sig0 w = (rotr 2 w XOR rotr 13 w) XOR rotr 22 w"

definition Sig1 :: "32 word \<Rightarrow> 32 word" where
  "Sig1 w = (rotr 6 w XOR rotr 11 w) XOR rotr 25 w"

text \<open>The message schedule, newest word first.\<close>

fun schedule :: "nat \<Rightarrow> 32 word list \<Rightarrow> 32 word list" where
  "schedule 0 ws = ws"
| "schedule (Suc n) ws =
     schedule n ((sig1 (ws ! 1) + ws ! 6 + sig0 (ws ! 14) + ws ! 15) # ws)"

fun sha_round :: "32 word list \<Rightarrow> 32 word \<times> 32 word \<Rightarrow> 32 word list" where
  "sha_round [a, b, c, d, e, f, g, h] (k, w) =
     (let t1 = h + Sig1 e + ((e AND f) XOR (NOT e AND g)) + k + w;
          t2 = Sig0 a + ((a AND b) XOR (a AND c) XOR (b AND c))
      in [t1 + t2, a, b, c, d + t1, e, f, g])"
| "sha_round st _ = st"

definition compress :: "32 word list \<Rightarrow> 32 word list \<Rightarrow> 32 word list" where
  "compress st block = map2 (+) st (foldl sha_round st (zip sha_K (rev (schedule 48 (rev block)))))"

definition word_of_bytes :: "int list \<Rightarrow> 32 word" where
  "word_of_bytes bs = word_of_int (foldl (\<lambda>n b. n * 256 + b) 0 bs)"

fun chunks :: "nat \<Rightarrow> nat \<Rightarrow> 'a list \<Rightarrow> 'a list list" where
  "chunks 0 n xs = []"
| "chunks (Suc fuel) n xs = (if xs = [] then [] else take n xs # chunks fuel n (drop n xs))"

definition pad :: "int list \<Rightarrow> int list" where
  "pad bs = (let l = int (length bs); z = (55 - l) mod 64 in
     bs @ [128] @ replicate (nat z) 0 @ map (\<lambda>i. (8 * l) div 256 ^ i mod 256) [7, 6, 5, 4, 3, 2, 1, 0])"

definition sha256_words :: "int list \<Rightarrow> 32 word list" where
  "sha256_words bs = (let p = pad bs in
     foldl compress sha_H0 (map (map word_of_bytes \<circ> chunks 16 4) (chunks (length p) 64 p)))"

definition hex_digit :: "int \<Rightarrow> char" where
  "hex_digit n = (if n < 10 then char_of (48 + n) else char_of (87 + n))"

definition word_bytes :: "32 word \<Rightarrow> int list" where
  "word_bytes w = map (\<lambda>i. uint w div 256 ^ i mod 256) [3, 2, 1, 0]"

definition hex_of_bytes :: "int list \<Rightarrow> string" where
  "hex_of_bytes bs = concat (map (\<lambda>b. [hex_digit (b div 16), hex_digit (b mod 16)]) bs)"

definition sha256_bytes :: "int list \<Rightarrow> int list" where
  "sha256_bytes bs = concat (map word_bytes (sha256_words bs))"

definition sha256 :: "string \<Rightarrow> string" where
  "sha256 s = hex_of_bytes (sha256_bytes (map of_char s))"

definition hmac_key_block :: "int list \<Rightarrow> int list" where
  "hmac_key_block key = (let k = (if length key > 64 then sha256_bytes key else key) in k @ replicate (64 - length k) 0)"

definition hmac_sha256 :: "string \<Rightarrow> string \<Rightarrow> string" where
  "hmac_sha256 key msg = (let k = hmac_key_block (map of_char key);
       ipad = map (\<lambda>b. xor b 0x36) k; opad = map (\<lambda>b. xor b 0x5C) k in
     hex_of_bytes (sha256_bytes (opad @ sha256_bytes (ipad @ map of_char msg))))"

text \<open>\<open>str.encode()\<close>: a character outside ASCII is two bytes.\<close>

definition utf8 :: "string \<Rightarrow> string" where
  "utf8 s = concat (map (\<lambda>c. if (of_char c :: int) < 128 then [c]
     else [char_of (192 + (of_char c :: int) div 64), char_of (128 + (of_char c :: int) mod 64)]) s)"

definition is_ascii :: "string \<Rightarrow> bool" where
  "is_ascii s = list_all (\<lambda>c. (of_char c :: int) < 128) s"

lemma utf8_ascii: "is_ascii s \<Longrightarrow> utf8 s = s"
  by (induction s) (simp_all add: utf8_def is_ascii_def)

subsection \<open>Shape of a digest\<close>

lemma length_sha_round [simp]: "length (sha_round st kw) = length st"
  by (induction st kw rule: sha_round.induct) (auto simp: Let_def)

lemma length_foldl_sha_round [simp]: "length (foldl sha_round st xs) = length st"
  by (induction xs arbitrary: st) auto

lemma length_compress [simp]: "length (compress st block) = length st"
  by (simp add: compress_def)

lemma length_foldl_compress [simp]: "length (foldl compress st bs) = length st"
  by (induction bs arbitrary: st) auto

lemma length_sha256_words [simp]: "length (sha256_words bs) = 8"
  by (simp add: sha256_words_def Let_def sha_H0_def)

lemma length_concat_const: "\<forall>x \<in> set xs. length (f x) = n \<Longrightarrow> length (concat (map f xs)) = length xs * n"
  by (induction xs) auto

lemma length_sha256_bytes [simp]: "length (sha256_bytes bs) = 32"
  unfolding sha256_bytes_def by (subst length_concat_const[where n = 4]) (auto simp: word_bytes_def)

lemma length_sha256 [simp]: "length (sha256 s) = 64"
  unfolding sha256_def hex_of_bytes_def by (subst length_concat_const[where n = 2]) auto

text \<open>A digest is written in lower-case hexadecimal.\<close>

lemma hex_digit_is_hex: "0 \<le> n \<Longrightarrow> n < 16 \<Longrightarrow> is_hex (hex_digit n)"
  by (auto simp: hex_digit_def is_hex_def is_digit_def of_char_of)

lemma word_bytes_range: "b \<in> set (word_bytes w) \<Longrightarrow> 0 \<le> b \<and> b < 256"
  by (auto simp: word_bytes_def)

lemma sha256_bytes_range: "b \<in> set (sha256_bytes bs) \<Longrightarrow> 0 \<le> b \<and> b < 256"
  by (auto simp: sha256_bytes_def dest: word_bytes_range)

lemma hex_of_sha256_bytes: "list_all is_hex (hex_of_bytes (sha256_bytes bs))"
  by (auto simp: list_all_iff hex_of_bytes_def dest!: sha256_bytes_range intro!: hex_digit_is_hex)

lemma hmac_sha256_hex: "list_all is_hex (hmac_sha256 key msg)"
  by (simp add: hmac_sha256_def Let_def hex_of_sha256_bytes)

lemma is_hex_facts: "is_hex c \<Longrightarrow> c \<noteq> CHR ''.'' \<and> (of_char c :: int) < 128"
  by (auto simp: is_hex_def is_digit_def)

end
