(* ===== verification/Taint.thy ===== *)
theory Taint
  imports Store Sha256
begin

section \<open>The taint floor and its store\<close>

text \<open>
  \<^verbatim>\<open>proxy/app/services/taint_floor.py\<close>, the decision, and
  \<^verbatim>\<open>proxy/app/services/taint_store.py\<close>, the per-identity bit in Redis. The store is fail-closed:
  a read that cannot be answered counts as tainted, a write that cannot be done raises.
\<close>

subsection \<open>The decision\<close>

definition TRUSTED_FLOOR_RANK :: int where
  "TRUSTED_FLOOR_RANK = 2"

definition NON_INJECTING_MODES :: "string list" where
  "NON_INJECTING_MODES = [''none'']"

definition binary_integrity :: "int option \<Rightarrow> int" where
  "binary_integrity trust_tier =
     (case trust_tier of None \<Rightarrow> 0 | Some t \<Rightarrow> if TRUSTED_FLOOR_RANK \<le> t then 1 else 0)"

definition result_taints_session :: "int option \<Rightarrow> bool" where
  "result_taints_session trust_tier = (binary_integrity trust_tier = 0)"

definition injecting :: "string option \<Rightarrow> bool" where
  "injecting mode = (case mode of None \<Rightarrow> False | Some m \<Rightarrow> m \<notin> set NON_INJECTING_MODES)"

definition effective_injection_mode :: "string option \<Rightarrow> string option \<Rightarrow> string" where
  "effective_injection_mode tool_mode server_default =
     (case find injecting [tool_mode, server_default] of Some (Some m) \<Rightarrow> m | _ \<Rightarrow> ''none'')"

definition effective_required_integrity :: "int \<Rightarrow> string option \<Rightarrow> int" where
  "effective_required_integrity tool_required injection =
     (let mode = str_or injection ''none'' in
      if mode \<in> set NON_INJECTING_MODES then tool_required else max tool_required 1)"

definition taint_floor_decision :: "bool \<Rightarrow> int \<Rightarrow> string" where
  "taint_floor_decision tainted required = (if tainted \<and> 1 \<le> required then ''deny'' else ''allow'')"

definition TAINT_ACTION_BLOCK :: string where "TAINT_ACTION_BLOCK = ''block''"

definition TAINT_ACTION_NOTIFY :: string where "TAINT_ACTION_NOTIFY = ''notify''"

definition resolve_taint_action :: "string \<Rightarrow> string \<Rightarrow> string" where
  "resolve_taint_action decision mode =
     (if decision \<noteq> ''deny'' then []
      else if mode = ''enforce'' then TAINT_ACTION_BLOCK else TAINT_ACTION_NOTIFY)"

subsection \<open>The store\<close>

definition DEFAULT_TAINT_TTL_SECONDS :: rat where
  "DEFAULT_TAINT_TTL_SECONDS = 3600"

definition taint_key :: "string \<Rightarrow> string" where
  "taint_key client_id = ''mcp_taint:'' @ take 16 (sha256 client_id)"

text \<open>The pool's client, \<open>None\<close> where the pool was never initialised.\<close>

definition pool_client :: "redis \<Rightarrow> redis option" where
  "pool_client r = (if r_init r then Some r else None)"

definition is_tainted :: "world \<Rightarrow> redis option \<Rightarrow> string option \<Rightarrow> bool" where
  "is_tainted w client client_id =
     (case client_id of
        None \<Rightarrow> True
      | Some cid \<Rightarrow>
          (case client of
             None \<Rightarrow> True
           | Some r \<Rightarrow>
               if redis_ok w (RGet (taint_key cid))
               then redis_get r (now w) (taint_key cid) \<noteq> None
               else True))"

definition mark_tainted :: "world \<Rightarrow> redis option \<Rightarrow> string option \<Rightarrow> rat \<Rightarrow> exn + redis" where
  "mark_tainted w client client_id ttl =
     (case client_id of
        None \<Rightarrow> Inl (TaintStoreError ''no client_id to taint; failing closed'')
      | Some cid \<Rightarrow>
          (case client of
             None \<Rightarrow> Inl (TaintStoreError ''taint store unavailable; cannot mark tainted'')
           | Some r \<Rightarrow>
               if redis_ok w (RSetex (taint_key cid))
               then Inr (redis_setex r (now w) (taint_key cid) ttl (CText ''1''))
               else Inl (TaintStoreError ''taint write failed'')))"

definition is_tainted_for_principal :: "world \<Rightarrow> redis \<Rightarrow> string option \<Rightarrow> bool" where
  "is_tainted_for_principal w r client_id = is_tainted w (pool_client r) client_id"

definition mark_tainted_for_principal :: "world \<Rightarrow> redis \<Rightarrow> string option \<Rightarrow> exn + redis" where
  "mark_tainted_for_principal w r client_id =
     mark_tainted w (pool_client r) client_id DEFAULT_TAINT_TTL_SECONDS"

subsection \<open>The interface and its client\<close>

text \<open>
  A fail-closed bit per identity: \<open>covered s c t\<close> says that the store holds the bit of \<open>c\<close> at
  time \<open>t\<close>. A check of a covered identity never answers clean, whatever faults occur, and a mark
  either raises or covers the identity for the whole time to live.
\<close>

locale fail_closed_bit =
  fixes check :: "world \<Rightarrow> 's \<Rightarrow> string option \<Rightarrow> bool"
    and mark :: "world \<Rightarrow> 's \<Rightarrow> string option \<Rightarrow> exn + 's"
    and covered :: "'s \<Rightarrow> string \<Rightarrow> rat \<Rightarrow> bool"
    and ttl :: rat
  assumes check_covered: "covered s c (now w) \<Longrightarrow> check w s (Some c)"
    and check_unknown: "check w s None"
    and mark_covers: "mark w s (Some c) = Inr s' \<Longrightarrow> t < now w + ttl \<Longrightarrow> covered s' c t"
    and mark_keeps: "mark w s co = Inr s' \<Longrightarrow> covered s d t \<Longrightarrow> t < now w + ttl \<Longrightarrow> covered s' d t"
    and mark_unknown: "\<exists>m. mark w s None = Inl (TaintStoreError m)"
begin

text \<open>The marks of a run of requests, each at its own time; a failed mark ends its request.\<close>

fun marks :: "(world \<times> string) list \<Rightarrow> 's \<Rightarrow> 's" where
  "marks [] s = s"
| "marks ((w, c) # ms) s = (case mark w s (Some c) of Inl e \<Rightarrow> marks ms s | Inr s' \<Rightarrow> marks ms s')"

lemma covered_marks:
  assumes "covered s c t" and "\<And>w d. (w, d) \<in> set ms \<Longrightarrow> t < now w + ttl"
  shows "covered (marks ms s) c t"
  using assms
proof (induction ms arbitrary: s)
  case (Cons m ms)
  obtain w d where m: "m = (w, d)" by (cases m)
  show ?case
  proof (cases "mark w s (Some d)")
    case (Inl e)
    moreover have "covered (marks ms s) c t"
      using Cons.prems by (intro Cons.IH) auto
    ultimately show ?thesis using m by simp
  next
    case (Inr s')
    moreover have "t < now w + ttl" using Cons.prems(2)[of w d] m by simp
    ultimately have "covered s' c t" using mark_keeps Cons.prems(1) by blast
    moreover have "\<And>w d. (w, d) \<in> set ms \<Longrightarrow> t < now w + ttl"
      using Cons.prems(2) by (meson list.set_intros(2))
    ultimately show ?thesis using Cons.IH[of s'] Inr m by simp
  qed
qed simp

lemma mark_then_check:
  assumes "mark w s (Some c) = Inr s'" and "t = now w'" and "t < now w + ttl"
    and "\<And>v d. (v, d) \<in> set ms \<Longrightarrow> t < now v + ttl"
  shows "check w' (marks ms s') (Some c)"
  using check_covered covered_marks[OF mark_covers[OF assms(1,3)]] assms(2,4) by blast

end

definition taint_covered :: "redis \<Rightarrow> string \<Rightarrow> rat \<Rightarrow> bool" where
  "taint_covered r cid t = (redis_get r t (taint_key cid) \<noteq> None)"

interpretation taint_bit: fail_closed_bit is_tainted_for_principal mark_tainted_for_principal
    taint_covered DEFAULT_TAINT_TTL_SECONDS
  by unfold_locales
    (auto simp: is_tainted_for_principal_def mark_tainted_for_principal_def is_tainted_def
      mark_tainted_def taint_covered_def pool_client_def split: if_splits option.splits)

subsection \<open>Facts on the floor\<close>

lemma required_integrity_ge: "tool_required \<le> effective_required_integrity tool_required m"
  by (simp add: effective_required_integrity_def Let_def)

lemma effective_injection_mode_none:
  "effective_injection_mode a b = ''none'' \<longleftrightarrow> \<not> injecting a \<and> \<not> injecting b"
  by (auto simp: effective_injection_mode_def injecting_def NON_INJECTING_MODES_def split: option.splits)

lemma injecting_requires_trust:
  assumes "injecting tool_mode \<or> injecting server_default"
    and "effective_injection_mode tool_mode server_default \<noteq> []"
  shows "1 \<le> effective_required_integrity n (Some (effective_injection_mode tool_mode server_default))"
  using assms effective_injection_mode_none[of tool_mode server_default]
  by (auto simp: effective_required_integrity_def NON_INJECTING_MODES_def Let_def)

lemma taint_covered_other_key:
  "k \<noteq> taint_key c \<Longrightarrow> taint_covered (redis_setex r t k ttl v) c t' = taint_covered r c t'"
  by (simp add: taint_covered_def)

text \<open>A key of another name space is not a taint key.\<close>

lemma taint_key_prefix: "take 10 (taint_key c) = ''mcp_taint:''"
  by (simp add: taint_key_def)

lemma not_taint_key: "take 10 k \<noteq> ''mcp_taint:'' \<Longrightarrow> k \<noteq> taint_key c"
  using taint_key_prefix by metis

subsection \<open>Properties\<close>

text \<open>
  Property C28. Once a mark for an identity succeeded, every check of it within the time to live
  answers tainted, whatever identities are marked in between, whether those marks succeed or fail, and
  whether the check's own read succeeds or fails.
\<close>

theorem taint_persists:
  assumes "mark_tainted_for_principal w r (Some c) = Inr r'"
    and "now w' < now w + DEFAULT_TAINT_TTL_SECONDS"
    and "\<And>v d. (v, d) \<in> set ms \<Longrightarrow> now w' < now v + DEFAULT_TAINT_TTL_SECONDS"
  shows "is_tainted_for_principal w' (taint_bit.marks ms r') (Some c)"
  using taint_bit.mark_then_check[OF assms(1) refl assms(2)] assms(3) by blast

theorem taint_persists_witness:
  "is_tainted_for_principal
     \<lparr>now = 100, now_repr = ''100.0'', redis_ok = (\<lambda>_. True), db_ok = (\<lambda>_. True)\<rparr>
     (taint_bit.marks
       [(\<lparr>now = 60, now_repr = ''60.0'', redis_ok = (\<lambda>_. True), db_ok = (\<lambda>_. True)\<rparr>, ''bob'')]
       (redis_setex \<lparr>r_init = True, r_kv = (\<lambda>_. None), r_zs = (\<lambda>_. [])\<rparr> 50 (taint_key ''alice'')
          DEFAULT_TAINT_TTL_SECONDS (CText ''1'')))
     (Some ''alice'')"
proof -
  let ?r = "\<lparr>r_init = True, r_kv = (\<lambda>_. None), r_zs = (\<lambda>_. [])\<rparr>"
  let ?w = "\<lparr>now = 50, now_repr = ''50.0'', redis_ok = (\<lambda>_. True), db_ok = (\<lambda>_. True)\<rparr>"
  have "mark_tainted_for_principal ?w ?r (Some ''alice'')
      = Inr (redis_setex ?r 50 (taint_key ''alice'') DEFAULT_TAINT_TTL_SECONDS (CText ''1''))"
    by (simp add: mark_tainted_for_principal_def mark_tainted_def pool_client_def)
  then show ?thesis
    by (rule taint_persists) (auto simp: DEFAULT_TAINT_TTL_SECONDS_def)
qed



text \<open>
  The store fails closed: with no identity, no initialised pool or a failed read every
  session counts as tainted, and a mark that could not be written raises \<open>TaintStoreError\<close>
  instead of returning a store.
\<close>

theorem taint_store_fails_closed:
  "(\<not> (c \<noteq> None \<and> r_init r \<and> redis_ok w (RGet (taint_key (the c)))) \<longrightarrow> is_tainted_for_principal w r c) \<and>
   (\<not> (c \<noteq> None \<and> r_init r \<and> redis_ok w (RSetex (taint_key (the c)))) \<longrightarrow>
      (\<exists>m. mark_tainted_for_principal w r c = Inl (TaintStoreError m)))"
  by (auto simp: is_tainted_for_principal_def is_tainted_def mark_tainted_for_principal_def mark_tainted_def
      pool_client_def split: option.splits)

theorem taint_store_fails_closed_witness:
  "is_tainted_for_principal \<lparr>now = 0, now_repr = ''0.0'', redis_ok = (\<lambda>_. True), db_ok = (\<lambda>_. True)\<rparr>
     \<lparr>r_init = False, r_kv = (\<lambda>_. None), r_zs = (\<lambda>_. [])\<rparr> (Some ''alice'')"
  using taint_store_fails_closed[of "Some ''alice''" "\<lparr>r_init = False, r_kv = (\<lambda>_. None), r_zs = (\<lambda>_. [])\<rparr>"]
  by simp

end
