(* ===== verification/Cache.thy ===== *)
theory Cache
  imports Store
begin

section \<open>Lookups through a Redis cache\<close>

text \<open>
  Profiles, owned servers and client limits are read the same way: Redis first, PostgreSQL on a
  miss, and the answer written back with a time to live. The locale states that contract and
  proves what the callers rely on: an answer is never older than the time to live, whatever
  the database did in between.
\<close>

locale cached_lookup =
  fixes lookup :: "world \<Rightarrow> db \<Rightarrow> redis \<Rightarrow> 'k \<Rightarrow> (exn + 'v) \<times> redis"
    and fresh :: "db \<Rightarrow> 'k \<Rightarrow> 'v"
    and key :: "'k \<Rightarrow> string"
    and enc :: "'v \<Rightarrow> cval"
    and ttl :: rat
    and on_error :: "'k \<Rightarrow> exn + 'v"
    and keys :: "'k set"
  assumes outcome:
    "(\<forall>c e. r_kv r (key k) = Some (c, e) \<longrightarrow> c \<in> range enc) \<Longrightarrow> lookup w d r k = (res, r') \<Longrightarrow>
       (\<exists>v e. res = Inr v \<and> r_kv r (key k) = Some (enc v, e) \<and> now w < e \<and> r' = r)
       \<or> (res = Inr (fresh d k) \<and> (r' = r \<or> r' = redis_setex r (now w) (key k) ttl (enc (fresh d k))))
       \<or> ((res = on_error k \<or> (\<exists>e. res = Inl e)) \<and> r' = r)"
    and enc_inj: "enc v = enc v' \<Longrightarrow> v = v'"
    and key_inj: "inj_on key keys"
    and ttl_pos: "0 < ttl"
begin

text \<open>
  A history holds the database states that lookups read, with the time of the read. The cache is
  coherent with it when every entry was written by a lookup of the history.
\<close>

definition coherent :: "(rat \<times> db) set \<Rightarrow> redis \<Rightarrow> bool" where
  "coherent hist r \<longleftrightarrow> (\<forall>k \<in> keys. \<forall>c e. r_kv r (key k) = Some (c, e) \<longrightarrow>
     (\<exists>t d. (t, d) \<in> hist \<and> c = enc (fresh d k) \<and> e = t + ttl))"

lemma coherent_range:
  "coherent hist r \<Longrightarrow> k \<in> keys \<Longrightarrow> \<forall>c e. r_kv r (key k) = Some (c, e) \<longrightarrow> c \<in> range enc"
  unfolding coherent_def by (metis rangeI)

lemma coherent_mono: "coherent hist r \<Longrightarrow> hist \<subseteq> hist' \<Longrightarrow> coherent hist' r"
  unfolding coherent_def by (meson subsetD)

lemma coherent_lookup:
  assumes "coherent hist r" and "k \<in> keys" and "lookup w d r k = (res, r')"
  shows "coherent (insert (now w, d) hist) r'"
proof -
  have old: "coherent (insert (now w, d) hist) r"
    using assms(1) by (rule coherent_mono) auto
  from outcome[OF coherent_range[OF assms(1,2)] assms(3)]
  consider "r' = r" | "r' = redis_setex r (now w) (key k) ttl (enc (fresh d k))" by blast
  then show ?thesis
  proof cases
    case 2
    have "r_kv r' (key k') = (if k' = k then Some (enc (fresh d k), now w + ttl) else r_kv r (key k'))"
      if "k' \<in> keys" for k'
      using 2 that assms(2) key_inj by (auto simp: redis_setex_def dest: inj_onD)
    with old show ?thesis by (auto simp: coherent_def)
  qed (use old in simp)
qed

lemma bounded_staleness:
  assumes "coherent hist r" and "k \<in> keys" and "lookup w d r k = (Inr v, r')" and "on_error k \<noteq> Inr v"
  shows "\<exists>t d'. (t, d') \<in> insert (now w, d) hist \<and> now w < t + ttl \<and> v = fresh d' k"
proof -
  from outcome[OF coherent_range[OF assms(1,2)] assms(3)] assms(4)
  consider e where "r_kv r (key k) = Some (enc v, e)" "now w < e" | "v = fresh d k" by auto
  then show ?thesis
  proof cases
    case 1
    with assms(1,2) obtain t d' where "(t, d') \<in> hist" "enc v = enc (fresh d' k)" "e = t + ttl"
      unfolding coherent_def by metis
    with 1 enc_inj show ?thesis by blast
  next
    case 2
    moreover have "now w < now w + ttl" using ttl_pos by simp
    ultimately show ?thesis by blast
  qed
qed

lemma frame:
  assumes "lookup w d r k = (res, r')"
    and "\<forall>c e. r_kv r (key k) = Some (c, e) \<longrightarrow> c \<in> range enc" and "k' \<noteq> key k"
  shows "r_kv r' k' = r_kv r k'"
  using outcome[OF assms(2,1)] assms(3) by (auto simp: redis_setex_def)

end

end
