(* ===== verification/Entitlement.thy ===== *)
theory Entitlement
  imports Cache
begin

section \<open>Entitlements: who may use which server\<close>

text \<open>
  \<^verbatim>\<open>proxy/app/services/entitlement.py\<close>: \<open>check_entitlement\<close> and \<open>enforce_tool_entitlement\<close> on the
  invoke path, \<open>list_entitled_servers\<close> for discovery, and \<open>get_owned_server_ids\<close> for the owner
  rules of the policy. A query is a comprehension over the tables of \<open>Store\<close>; a query that
  fails takes the \<open>except\<close> branch of the source.
\<close>

subsection \<open>Operations\<close>

definition ROLE_LEVELS :: "(string \<times> int) list" where
  "ROLE_LEVELS = [(''user'', 0), (''manager'', 1), (''server_owner'', 2), (''auditor'', 3), (''platform_admin'', 4)]"

definition role_level :: "string \<Rightarrow> int" where
  "role_level role = (case map_of ROLE_LEVELS role of Some n \<Rightarrow> n | None \<Rightarrow> -1)"

record entitlement_result =
  er_entitled :: bool
  er_role :: "string option"
  er_server_id :: "string option"
  er_reason :: string

definition explicit_grants :: "db \<Rightarrow> string \<Rightarrow> string \<Rightarrow> entitlement_row list" where
  "explicit_grants d pt pid = filter (\<lambda>r. en_type r = pt \<and> en_principal r = pid \<and> \<not> en_revoked r) (entitlement d)"

definition role_grants :: "db \<Rightarrow> string \<Rightarrow> string \<Rightarrow> role_grant_row list" where
  "role_grants d pt pid = filter (\<lambda>r. rg_type r = pt \<and> rg_principal r = pid) (server_role_grant d)"

definition check_entitlement :: "world \<Rightarrow> db \<Rightarrow> string \<Rightarrow> string \<Rightarrow> string \<Rightarrow> entitlement_result" where
  "check_entitlement w d pt pid sid =
     (if \<not> db_ok w QEntitlement
      then \<lparr>er_entitled = False, er_role = None, er_server_id = None, er_reason = ''server_not_approved''\<rparr>
      else case live_server d sid of
        None \<Rightarrow> \<lparr>er_entitled = False, er_role = None, er_server_id = None, er_reason = ''server_not_approved''\<rparr>
      | Some row \<Rightarrow>
          if sr_status row \<noteq> ''approved''
          then \<lparr>er_entitled = False, er_role = None, er_server_id = None, er_reason = ''server_not_approved''\<rparr>
          else case find (\<lambda>r. en_server r = sid) (explicit_grants d pt pid) of
            Some _ \<Rightarrow> \<lparr>er_entitled = True, er_role = Some ''user'', er_server_id = Some sid,
                       er_reason = ''entitlement_table''\<rparr>
          | None \<Rightarrow>
              (case find (\<lambda>r. rg_server r = sid) (role_grants d pt pid) of
                 Some g \<Rightarrow> \<lparr>er_entitled = True, er_role = Some (rg_role g), er_server_id = Some sid,
                            er_reason = ''role_grant''\<rparr>
               | None \<Rightarrow>
                   if sr_public row \<and> \<not> sr_write_ops row
                   then \<lparr>er_entitled = True, er_role = Some ''user'', er_server_id = Some sid,
                         er_reason = ''public_server''\<rparr>
                   else \<lparr>er_entitled = False, er_role = None, er_server_id = Some sid,
                         er_reason = ''not_found''\<rparr>))"

definition enforce_tool_entitlement ::
    "world \<Rightarrow> db \<Rightarrow> string option \<Rightarrow> string option \<Rightarrow> string option \<Rightarrow> exn + unit" where
  "enforce_tool_entitlement w d server_id principal_id principal_type =
     (if \<not> str_true server_id then Inr ()
      else if \<not> str_true principal_id \<or> \<not> str_true principal_type
      then Inl (NotEntitledError (the server_id) ''principal_unresolved'')
      else let result = check_entitlement w d (the principal_type) (the principal_id) (the server_id) in
           if er_entitled result then Inr () else Inl (NotEntitledError (the server_id) (er_reason result)))"

text \<open>The strings of a JSON list; a value of another type has no member for the policy.\<close>

fun jstring :: "json \<Rightarrow> string option" where
  "jstring (JStr s) = Some s"
| "jstring _ = None"

fun jstrings :: "json \<Rightarrow> string list" where
  "jstrings (JArr xs) = List.map_filter jstring xs"
| "jstrings _ = []"

definition owned_key :: "string \<Rightarrow> string" where
  "owned_key principal_id = ''owned_servers:'' @ principal_id"

definition owned_rows :: "db \<Rightarrow> string \<Rightarrow> string list" where
  "owned_rows d pid = map rg_server
     (filter (\<lambda>r. rg_principal r = pid \<and> rg_role r \<in> {''server_owner'', ''manager''}) (server_role_grant d))"

definition get_owned_server_ids :: "world \<Rightarrow> db \<Rightarrow> redis \<Rightarrow> string \<Rightarrow> (exn + string list) \<times> redis" where
  "get_owned_server_ids w d r pid =
     (if \<not> r_init r then (Inl (RuntimeError ''Redis pool not initialized''), r)
      else let cached = (if redis_ok w (RGet (owned_key pid)) then redis_get r (now w) (owned_key pid) else None) in
      case cached of
        Some (CJson j) \<Rightarrow> (Inr (jstrings j), r)
      | _ \<Rightarrow>
          if \<not> db_ok w QOwnedServers then (Inr [], r)
          else let server_ids = owned_rows d pid;
                   r' = (if redis_ok w (RSetex (owned_key pid))
                         then redis_setex r (now w) (owned_key pid) 60 (CJson (JArr (map JStr server_ids))) else r)
               in (Inr server_ids, r'))"

text \<open>A row of the catalog.\<close>

record catalog_row =
  ca_server_id :: string
  ca_name :: string
  ca_upstream_url :: string
  ca_custody_mode :: "string option"
  ca_role :: string

text \<open>The \<open>UNION ALL\<close> of the query: the servers the principal has a grant for, with the role.\<close>

definition combined_grants :: "db \<Rightarrow> string \<Rightarrow> string \<Rightarrow> (string \<times> string) list" where
  "combined_grants d pt pid =
     map (\<lambda>r. (en_server r, ''user'')) (explicit_grants d pt pid)
     @ map (\<lambda>r. (rg_server r, rg_role r)) (role_grants d pt pid)
     @ map (\<lambda>r. (sr_server_id r, ''user''))
         (filter (\<lambda>r. sr_public r \<and> \<not> sr_write_ops r \<and> sr_status r = ''approved'' \<and> \<not> sr_deleted r)
           (server_registry d))"

definition entitled_rows :: "db \<Rightarrow> string \<Rightarrow> string \<Rightarrow> catalog_row list" where
  "entitled_rows d pt pid =
     concat (map (\<lambda>s. map (\<lambda>g. \<lparr>ca_server_id = sr_server_id s, ca_name = sr_name s,
           ca_upstream_url = sr_upstream_url s, ca_custody_mode = sr_custody_mode s, ca_role = snd g\<rparr>)
         (filter (\<lambda>g. fst g = sr_server_id s) (combined_grants d pt pid)))
       (filter (\<lambda>s. sr_status s = ''approved'' \<and> \<not> sr_deleted s) (server_registry d)))"

text \<open>The loop that keeps the best row per server, in the dictionary's insertion order.\<close>

fun best_rows :: "catalog_row list \<Rightarrow> (string \<times> catalog_row) list \<Rightarrow> (string \<times> catalog_row) list" where
  "best_rows [] best = best"
| "best_rows (row # rows) best =
     best_rows rows
       (case map_of best (ca_server_id row) of
          None \<Rightarrow> AList.update (ca_server_id row) row best
        | Some b \<Rightarrow> if role_level (ca_role b) < role_level (ca_role row)
                    then AList.update (ca_server_id row) row best else best)"

definition list_entitled_servers :: "world \<Rightarrow> db \<Rightarrow> string \<Rightarrow> string \<Rightarrow> catalog_row list" where
  "list_entitled_servers w d pt pid =
     (if db_ok w QListEntitled then map snd (best_rows (entitled_rows d pt pid) []) else [])"

subsection \<open>The catalog loop\<close>

lemma best_rows_dom:
  "dom (map_of (best_rows rows best)) = dom (map_of best) \<union> ca_server_id ` set rows"
  by (induction rows best rule: best_rows.induct) (auto simp: update_conv' split: option.splits)

lemma best_rows_distinct: "distinct (map fst best) \<Longrightarrow> distinct (map fst (best_rows rows best))"
  by (induction rows best rule: best_rows.induct) (auto simp: distinct_update split: option.splits)

definition keyed_rows :: "(string \<times> catalog_row) list \<Rightarrow> bool" where
  "keyed_rows best \<longleftrightarrow> (\<forall>k b. map_of best k = Some b \<longrightarrow> ca_server_id b = k)"

lemma keyed_rows_update: "keyed_rows best \<Longrightarrow> keyed_rows (AList.update (ca_server_id row) row best)"
  by (auto simp: keyed_rows_def update_conv')

lemma best_rows_keyed: "keyed_rows best \<Longrightarrow> keyed_rows (best_rows rows best)"
  by (induction rows best rule: best_rows.induct) (auto simp: keyed_rows_update split: option.splits)

text \<open>A stored row is one of the rows seen and no row of its server has a higher role.\<close>

lemma best_rows_max:
  assumes "map_of (best_rows rows best) k = Some b"
  shows "(map_of best k = Some b \<or> b \<in> set rows)
    \<and> (\<forall>b'. map_of best k = Some b' \<longrightarrow> role_level (ca_role b') \<le> role_level (ca_role b))
    \<and> (\<forall>row \<in> set rows. ca_server_id row = k \<longrightarrow> role_level (ca_role row) \<le> role_level (ca_role b))"
  using assms
proof (induction rows best rule: best_rows.induct)
  case (2 row rows best)
  then show ?case
    by (fastforce simp: update_conv' split: option.splits if_splits)
qed simp

subsection \<open>The cache of owned servers\<close>

lemma jstring_map_filter [simp]: "List.map_filter jstring (map JStr xs) = xs"
  by (induction xs) (auto simp: List.map_filter_def)

lemma jstrings_map: "jstrings (JArr (map JStr xs)) = xs"
  by simp

interpretation owned: cached_lookup get_owned_server_ids owned_rows owned_key
    "\<lambda>ids. CJson (JArr (map JStr ids))" 60 "\<lambda>_. Inr []" UNIV
proof
  fix r k w d res r'
  assume c: "\<forall>c e. r_kv r (owned_key k) = Some (c, e) \<longrightarrow> c \<in> range (\<lambda>ids. CJson (JArr (map JStr ids)))"
    and l: "get_owned_server_ids w d r k = (res, r')"
  show "(\<exists>v e. res = Inr v \<and> r_kv r (owned_key k) = Some (CJson (JArr (map JStr v)), e) \<and> now w < e \<and> r' = r)
       \<or> (res = Inr (owned_rows d k) \<and>
          (r' = r \<or> r' = redis_setex r (now w) (owned_key k) 60 (CJson (JArr (map JStr (owned_rows d k))))))
       \<or> ((res = Inr [] \<or> (\<exists>e. res = Inl e)) \<and> r' = r)"
    using c l unfolding get_owned_server_ids_def redis_get_def Let_def
    by (auto split: if_splits option.splits cval.splits)
next
  show "inj_on owned_key UNIV" by (simp add: owned_key_def inj_on_def)
next
  fix v v' :: "string list"
  assume "CJson (JArr (map JStr v)) = CJson (JArr (map JStr v'))"
  then show "v = v'" by (metis cval.inject(2) jstrings_map)
qed simp

subsection \<open>Discovery and invocation\<close>

lemma entitled_rows_iff:
  assumes "distinct (map sr_server_id (server_registry d))" and "db_ok w QEntitlement"
  shows "(\<exists>row \<in> set (entitled_rows d pt pid). ca_server_id row = sid)
    \<longleftrightarrow> er_entitled (check_entitlement w d pt pid sid)"
proof (cases "live_server d sid")
  case None
  then have "\<forall>s \<in> set (server_registry d). sr_deleted s \<or> sr_server_id s \<noteq> sid"
    by (auto simp: live_server_def find_None_iff_not)
  with None show ?thesis
    by (auto simp: entitled_rows_def check_entitlement_def)
next
  case (Some s)
  then have s: "s \<in> set (server_registry d)" "sr_server_id s = sid" "\<not> sr_deleted s"
    using live_server_Some by blast+
  have uniq: "s' = s" if "s' \<in> set (server_registry d)" "sr_server_id s' = sid" for s'
    using that s(1,2) assms(1) by (auto simp: distinct_map inj_on_def)
  have "(\<exists>row \<in> set (entitled_rows d pt pid). ca_server_id row = sid)
      \<longleftrightarrow> sr_status s = ''approved'' \<and> sid \<in> fst ` set (combined_grants d pt pid)"
  proof
    assume "\<exists>row \<in> set (entitled_rows d pt pid). ca_server_id row = sid"
    then obtain s' g where s': "s' \<in> set (server_registry d)" "sr_server_id s' = sid" "sr_status s' = ''approved''"
      and g: "g \<in> set (combined_grants d pt pid)" "fst g = sid"
      by (auto simp: entitled_rows_def)
    from uniq[OF s'(1,2)] s'(3) g show "sr_status s = ''approved'' \<and> sid \<in> fst ` set (combined_grants d pt pid)"
      by force
  next
    assume "sr_status s = ''approved'' \<and> sid \<in> fst ` set (combined_grants d pt pid)"
    then show "\<exists>row \<in> set (entitled_rows d pt pid). ca_server_id row = sid"
      using s(1,3) s(2)[symmetric] by (auto simp: entitled_rows_def intro!: exI[of _ s])
  qed
  also have "\<dots> \<longleftrightarrow> er_entitled (check_entitlement w d pt pid sid)"
  proof (cases "sr_status s = ''approved''")
    case True
    have pub: "(\<exists>r \<in> set (server_registry d). sr_server_id r = sid \<and> sr_public r \<and> \<not> sr_write_ops r \<and>
        sr_status r = ''approved'' \<and> \<not> sr_deleted r) \<longleftrightarrow> sr_public s \<and> \<not> sr_write_ops s"
      using s True uniq by blast
    have "sid \<in> fst ` set (combined_grants d pt pid) \<longleftrightarrow>
        (\<exists>r \<in> set (explicit_grants d pt pid). en_server r = sid)
        \<or> (\<exists>r \<in> set (role_grants d pt pid). rg_server r = sid) \<or> sr_public s \<and> \<not> sr_write_ops s"
      unfolding pub[symmetric] combined_grants_def by (auto simp: image_Un image_image)
    also have "\<dots> \<longleftrightarrow> find (\<lambda>r. en_server r = sid) (explicit_grants d pt pid) \<noteq> None
        \<or> find (\<lambda>r. rg_server r = sid) (role_grants d pt pid) \<noteq> None \<or> sr_public s \<and> \<not> sr_write_ops s"
      unfolding find_None_iff_not by blast
    also have "\<dots> \<longleftrightarrow> er_entitled (check_entitlement w d pt pid sid)"
      using True Some assms(2) by (simp add: check_entitlement_def split: option.split)
    finally show ?thesis using True by simp
  qed (simp add: check_entitlement_def Some assms(2))
  finally show ?thesis .
qed

lemma catalog_servers:
  assumes "db_ok w QListEntitled"
  shows "ca_server_id ` set (list_entitled_servers w d pt pid) = ca_server_id ` set (entitled_rows d pt pid)"
proof -
  let ?b = "best_rows (entitled_rows d pt pid) []"
  have d: "distinct (map fst ?b)" by (rule best_rows_distinct) simp
  have k: "keyed_rows ?b" by (rule best_rows_keyed) (simp add: keyed_rows_def)
  have "\<forall>e \<in> set ?b. ca_server_id (snd e) = fst e"
    using d k by (simp add: keyed_rows_def map_of_eq_Some_iff)
  then have "ca_server_id ` set (map snd ?b) = fst ` set ?b"
    by (simp add: image_image)
  also have "\<dots> = dom (map_of ?b)" by (simp add: dom_map_of_conv_image_fst)
  finally show ?thesis using assms by (simp add: list_entitled_servers_def best_rows_dom)
qed

text \<open>
  Property C30. Discovery is invocation: with the server identifiers unique, as the primary key has
  them, and both queries answered, a server appears in a principal's catalog exactly when the
  entitlement gate lets the principal invoke a tool of that server. No role is exempt.
\<close>

theorem discovery_is_invocation:
  assumes "distinct (map sr_server_id (server_registry d))"
    and "db_ok w QEntitlement" and "db_ok w QListEntitled"
    and "sid \<noteq> []" and "pid \<noteq> []" and "pt \<noteq> []"
  shows "sid \<in> ca_server_id ` set (list_entitled_servers w d pt pid)
    \<longleftrightarrow> enforce_tool_entitlement w d (Some sid) (Some pid) (Some pt) = Inr ()"
proof -
  have "sid \<in> ca_server_id ` set (list_entitled_servers w d pt pid)
      \<longleftrightarrow> (\<exists>row \<in> set (entitled_rows d pt pid). ca_server_id row = sid)"
    unfolding catalog_servers[OF assms(3)] by blast
  also have "\<dots> \<longleftrightarrow> er_entitled (check_entitlement w d pt pid sid)"
    by (rule entitled_rows_iff[OF assms(1,2)])
  finally show ?thesis using assms(4-6) by (simp add: enforce_tool_entitlement_def Let_def)
qed

definition catalog_example :: db where
  "catalog_example =
     \<lparr>server_registry =
        [\<lparr>sr_server_id = ''s1'', sr_name = ''notes'', sr_upstream_url = ''https://notes.lab/mcp'', sr_custody_mode = None,
          sr_status = ''approved'', sr_deleted = False, sr_public = False, sr_write_ops = True, sr_debug_mode = False,
          sr_debug_enabled_by = None, sr_owner_sub = Some ''alice'', sr_maintainers = [], sr_trust_tier = Some 2,
          sr_default_injection_mode = None, sr_allowlist_entry = None, sr_last_rescanned_at = None,
          sr_failure_count = 0, sr_last_error = None\<rparr>],
      entitlement = [\<lparr>en_type = ''human'', en_principal = ''human:kc:alice'', en_server = ''s1'', en_revoked = False\<rparr>],
      server_role_grant =
        [\<lparr>rg_type = ''human'', rg_principal = ''human:kc:alice'', rg_server = ''s1'', rg_role = ''server_owner''\<rparr>],
      mcp_profiles = [], profile_mcp_bindings = [], client_limits = []\<rparr>"

theorem discovery_is_invocation_witness:
  "''s1'' \<in> ca_server_id ` set (list_entitled_servers (calm_world 0) catalog_example ''human'' ''human:kc:alice'')
    \<and> enforce_tool_entitlement (calm_world 0) catalog_example (Some ''s1'') (Some ''human:kc:alice'') (Some ''human'') = Inr ()"
proof -
  have "enforce_tool_entitlement (calm_world 0) catalog_example (Some ''s1'') (Some ''human:kc:alice'') (Some ''human'')
      = Inr ()" by code_simp
  moreover have "distinct (map sr_server_id (server_registry catalog_example))" by code_simp
  ultimately show ?thesis
    using discovery_is_invocation[of catalog_example "calm_world 0" "''s1''" "''human:kc:alice''" "''human''"] by simp
qed

text \<open>
  The catalog has one row per server, and its role is the highest that any grant of the
  principal for that server gives.
\<close>

theorem catalog_highest_role:
  assumes "row \<in> set (list_entitled_servers w d pt pid)"
  shows "distinct (map ca_server_id (list_entitled_servers w d pt pid))
    \<and> row \<in> set (entitled_rows d pt pid)
    \<and> (\<forall>other \<in> set (entitled_rows d pt pid). ca_server_id other = ca_server_id row \<longrightarrow>
          role_level (ca_role other) \<le> role_level (ca_role row))"
proof -
  let ?b = "best_rows (entitled_rows d pt pid) []"
  have d: "distinct (map fst ?b)" by (rule best_rows_distinct) simp
  have k: "keyed_rows ?b" by (rule best_rows_keyed) (simp add: keyed_rows_def)
  have keys: "\<forall>e \<in> set ?b. ca_server_id (snd e) = fst e"
    using d k by (simp add: keyed_rows_def map_of_eq_Some_iff)
  from assms have ok: "db_ok w QListEntitled" and row: "row \<in> snd ` set ?b"
    by (auto simp: list_entitled_servers_def split: if_splits)
  from row keys have "(ca_server_id row, row) \<in> set ?b" by force
  with d have "map_of ?b (ca_server_id row) = Some row" by simp
  from best_rows_max[OF this] have "row \<in> set (entitled_rows d pt pid)
    \<and> (\<forall>other \<in> set (entitled_rows d pt pid). ca_server_id other = ca_server_id row \<longrightarrow>
          role_level (ca_role other) \<le> role_level (ca_role row))" by simp
  moreover have "map (ca_server_id \<circ> snd) ?b = map fst ?b" using keys by simp
  ultimately show ?thesis using d ok by (simp add: list_entitled_servers_def del: map_eq_conv)
qed

theorem catalog_highest_role_witness:
  "\<exists>row \<in> set (list_entitled_servers (calm_world 0) catalog_example ''human'' ''human:kc:alice'').
     ca_role row = ''server_owner'' \<and>
     (\<forall>other \<in> set (entitled_rows catalog_example ''human'' ''human:kc:alice'').
        ca_server_id other = ca_server_id row \<longrightarrow> role_level (ca_role other) \<le> role_level (ca_role row))"
proof -
  let ?row = "\<lparr>ca_server_id = ''s1'', ca_name = ''notes'', ca_upstream_url = ''https://notes.lab/mcp'',
    ca_custody_mode = None, ca_role = ''server_owner''\<rparr>"
  have "?row \<in> set (list_entitled_servers (calm_world 0) catalog_example ''human'' ''human:kc:alice'')"
    by code_simp
  with catalog_highest_role[OF this] show ?thesis
    by (intro bexI[of _ ?row]) auto
qed

text \<open>
  \<open>check_entitlement\<close> does not report the highest role: a principal with a plain
  entitlement and an owner grant gets role \<open>user\<close> from it, while the catalog shows \<open>server_owner\<close>.
\<close>

theorem check_entitlement_reports_user:
  "er_role (check_entitlement (calm_world 0) catalog_example ''human'' ''human:kc:alice'' ''s1'') = Some ''user''
   \<and> map ca_role (list_entitled_servers (calm_world 0) catalog_example ''human'' ''human:kc:alice'') = [''server_owner'']"
  by code_simp

text \<open>
  The owned servers given to the policy are those of a database state read at most 60
  seconds ago, or none: after the cache was filled only by this lookup, a revoked ownership is
  gone from the policy input within the minute, whatever faults occur.
\<close>

theorem owned_servers_bounded_staleness:
  assumes "owned.coherent hist r" and "get_owned_server_ids w d r pid = (Inr ids, r')"
  shows "owned.coherent (insert (now w, d) hist) r' \<and>
    (ids = [] \<or> (\<exists>t d'. (t, d') \<in> insert (now w, d) hist \<and> now w < t + 60 \<and> ids = owned_rows d' pid))"
  using owned.coherent_lookup[OF assms(1) UNIV_I assms(2)] owned.bounded_staleness[OF assms(1) UNIV_I assms(2)]
  by blast

theorem owned_servers_bounded_staleness_witness:
  "\<exists>t d'. (t, d') \<in> {(100, catalog_example)} \<and> (100 :: rat) < t + 60 \<and> [''s1''] = owned_rows d' ''human:kc:alice''"
proof -
  let ?r = "\<lparr>r_init = True, r_kv = (\<lambda>_. None), r_zs = (\<lambda>_. [])\<rparr>"
  let ?o = "get_owned_server_ids (calm_world 100) catalog_example ?r ''human:kc:alice''"
  have "fst ?o = Inr [''s1'']"
    by (simp add: get_owned_server_ids_def redis_get_def owned_rows_def catalog_example_def Let_def)
  then have o: "?o = (Inr [''s1''], snd ?o)" by (metis prod.collapse)
  have "owned.coherent {} ?r" by (simp add: owned.coherent_def)
  from owned_servers_bounded_staleness[OF this o] show ?thesis by simp
qed

end
