(* ===== verification/Anomaly.thy ===== *)
theory Anomaly
  imports Cache "HOL-Library.Multiset"
begin

section \<open>Anomaly scoring and per-client limits\<close>

text \<open>
  \<^verbatim>\<open>proxy/app/core/redis_client.py\<close> (the sliding window), \<^verbatim>\<open>proxy/app/services/anomaly.py\<close>
  (\<open>_score_window\<close> and \<open>detect\<close>) and \<^verbatim>\<open>proxy/app/services/limits.py\<close>. Scores are rationals: every
  value the code reaches is rounded to four decimals and prints as written here. The window
  key's own \<open>EXPIRE\<close> of 600 seconds is not observable, since every read drops what is older than
  300 seconds.
\<close>

subsection \<open>The sliding window\<close>

definition ANOMALY_WINDOW_SECONDS :: rat where "ANOMALY_WINDOW_SECONDS = 300"

definition window_key :: "string \<Rightarrow> string" where
  "window_key client_id = ''anomaly:window:'' @ client_id"

definition tool_of_member :: "string \<Rightarrow> string" where
  "tool_of_member m = hd (split_on CHR '':'' m)"

definition push_anomaly_invocation ::
    "world \<Rightarrow> redis \<Rightarrow> string \<Rightarrow> string \<Rightarrow> (exn + string list) \<times> redis" where
  "push_anomaly_invocation w r client_id tool_name =
     (if \<not> r_init r then (Inl (RuntimeError ''Redis pool not initialized''), r)
      else if \<not> redis_ok w (RPush client_id) then (Inl (RuntimeError ''redis''), r)
      else let k = window_key client_id;
               z = zremrangebyscore_upto (now w - ANOMALY_WINDOW_SECONDS)
                     (zadd (tool_name @ '':'' @ now_repr w) (now w) (r_zs r k))
           in (Inr (map (tool_of_member \<circ> fst) z), r\<lparr>r_zs := (r_zs r)(k := z)\<rparr>))"

definition get_anomaly_window_with_timestamps ::
    "world \<Rightarrow> redis \<Rightarrow> string \<Rightarrow> (exn + (string \<times> rat) list) \<times> redis" where
  "get_anomaly_window_with_timestamps w r client_id =
     (if \<not> r_init r then (Inl (RuntimeError ''Redis pool not initialized''), r)
      else if \<not> redis_ok w (RWindow client_id) then (Inl (RuntimeError ''redis''), r)
      else let k = window_key client_id;
               z = zremrangebyscore_upto (now w - ANOMALY_WINDOW_SECONDS) (r_zs r k)
           in (Inr (map (\<lambda>e. (tool_of_member (fst e), snd e)) z), r\<lparr>r_zs := (r_zs r)(k := z)\<rparr>))"

subsection \<open>The score\<close>

definition ANOMALY_ALERT_THRESHOLD :: rat where "ANOMALY_ALERT_THRESHOLD = 0.85"

definition EXFIL_SEARCH_TOOLS :: "string list" where
  "EXFIL_SEARCH_TOOLS = [''web_search'', ''search'', ''web_browse'', ''internet_search'']"

definition EXFIL_FILE_TOOLS :: "string list" where
  "EXFIL_FILE_TOOLS = [''file_reader'', ''file_read'', ''read_file'', ''bulk_file_read'', ''filesystem_read'', ''read_files'']"

definition EXFIL_AUTH_TOOLS :: "string list" where
  "EXFIL_AUTH_TOOLS = [''auth'', ''authenticate'', ''login'', ''get_token'', ''oauth'']"

definition EXFIL_EXPORT_TOOLS :: "string list" where
  "EXFIL_EXPORT_TOOLS = [''data_export'', ''export'', ''export_data'', ''dump'', ''bulk_export'']"

definition count_in :: "string list \<Rightarrow> string list \<Rightarrow> int" where
  "count_in window tools = int (length (filter (\<lambda>t. t \<in> set tools) window))"

text \<open>
  A pattern's score and label. In the third pattern the source compares binary floats: the
  raw scores that are equal as decimals there (0.85 for 20 calls and 3 reads, 0.9 for 22 or
  more calls and 4 reads) are strictly greater as floats, so the comparison is \<open>\<le>\<close> on decimals.
\<close>

datatype pattern = WebSearchBulkRead | AuthDataExport | RapidSuccessive

definition score_exfil :: "string list \<Rightarrow> (rat \<times> pattern option) \<Rightarrow> rat \<times> pattern option" where
  "score_exfil window best =
     (if 1 \<le> count_in window EXFIL_SEARCH_TOOLS \<and> 3 \<le> count_in window EXFIL_FILE_TOOLS
      then let raw = 0.7 + min (of_int (count_in window EXFIL_FILE_TOOLS) * 0.05) 0.25 in
           if fst best < raw then (raw, Some WebSearchBulkRead) else best
      else best)"

definition score_export :: "string list \<Rightarrow> (rat \<times> pattern option) \<Rightarrow> rat \<times> pattern option" where
  "score_export window best =
     (if 1 \<le> count_in window EXFIL_AUTH_TOOLS \<and> 1 \<le> count_in window EXFIL_EXPORT_TOOLS
      then if fst best < 0.8 then (0.8, Some AuthDataExport) else best
      else best)"

definition score_rapid :: "string list \<Rightarrow> (rat \<times> pattern option) \<Rightarrow> rat \<times> pattern option" where
  "score_rapid window best =
     (let total = int (length window) in
      if 10 < total
      then let raw = min (0.5 + of_int (total - 10) * 0.035) 0.9 in
           if fst best \<le> raw then (raw, Some RapidSuccessive) else best
      else best)"

definition score_window :: "string list \<Rightarrow> rat \<times> pattern option" where
  "score_window window =
     (if window = [] then (0, None)
      else score_rapid window (score_export window (score_exfil window (0, None))))"

record anomaly_result =
  anomaly_score_of :: rat
  pattern_matched :: "pattern option"
  alert_triggered :: bool

text \<open>
  \<open>detect\<close>: the result, the new Redis and the alerts persisted (a failed insert is logged and
  dropped). It never raises.
\<close>

definition detect ::
    "world \<Rightarrow> redis \<Rightarrow> string \<Rightarrow> string \<Rightarrow> string option \<Rightarrow> anomaly_result \<times> redis \<times> (string \<times> string \<times> rat) list" where
  "detect w r client_id tool_name meth =
     (if meth = Some ''tools/list'' then (\<lparr>anomaly_score_of = 0, pattern_matched = None, alert_triggered = False\<rparr>, r, [])
      else case push_anomaly_invocation w r client_id tool_name of
        (Inl e, r') \<Rightarrow> (\<lparr>anomaly_score_of = 0, pattern_matched = None, alert_triggered = False\<rparr>, r', [])
      | (Inr window, r') \<Rightarrow>
          let (score, pattern) = score_window window; alert = (ANOMALY_ALERT_THRESHOLD \<le> score) in
          (\<lparr>anomaly_score_of = score, pattern_matched = pattern, alert_triggered = alert\<rparr>, r',
           if alert \<and> db_ok w QAlert then [(client_id, tool_name, score)] else []))"

subsection \<open>Limits\<close>

definition SENSITIVITY_CUTOFF :: "(string \<times> rat) list" where
  "SENSITIVITY_CUTOFF = [(''normal'', 0.85), (''lenient'', 0.95), (''off'', 2)]"

definition DEFAULT_CUTOFF :: rat where "DEFAULT_CUTOFF = 0.85"

definition cutoff_for_sensitivity :: "string option \<Rightarrow> rat" where
  "cutoff_for_sensitivity s =
     (case s of None \<Rightarrow> DEFAULT_CUTOFF
      | Some s \<Rightarrow> (case map_of SENSITIVITY_CUTOFF s of Some c \<Rightarrow> c | None \<Rightarrow> DEFAULT_CUTOFF))"

definition limits_key :: "string \<Rightarrow> string" where
  "limits_key client_id = ''limits:cfg:'' @ client_id"

type_synonym limits = "int option \<times> string option"

definition limits_json :: "limits \<Rightarrow> json" where
  "limits_json l = JObj [(''rate_limit'', case fst l of None \<Rightarrow> JNull | Some n \<Rightarrow> JInt n),
     (''anomaly_sensitivity'', case snd l of None \<Rightarrow> JNull | Some s \<Rightarrow> JStr s)]"

definition limits_of_json :: "json \<Rightarrow> limits" where
  "limits_of_json j =
     ((case jlookup j ''rate_limit'' of Some (JInt n) \<Rightarrow> Some n | _ \<Rightarrow> None),
      (case jlookup j ''anomaly_sensitivity'' of Some (JStr s) \<Rightarrow> Some s | Some _ \<Rightarrow> None | None \<Rightarrow> Some ''normal''))"

definition limits_enc :: "limits option \<Rightarrow> cval" where
  "limits_enc l = (case l of None \<Rightarrow> CText (CHR 0x00 # ''none'') | Some l \<Rightarrow> CJson (limits_json l))"

definition limits_rows :: "db \<Rightarrow> string \<Rightarrow> limits option" where
  "limits_rows d client_id =
     map_option (\<lambda>r. (li_rate r, li_sensitivity r)) (find (\<lambda>r. li_client r = client_id) (client_limits d))"

definition read_limits_row :: "world \<Rightarrow> db \<Rightarrow> redis \<Rightarrow> string \<Rightarrow> (exn + limits option) \<times> redis" where
  "read_limits_row w d r client_id =
     (if \<not> r_init r then (Inl (RuntimeError ''Redis pool not initialized''), r)
      else if \<not> redis_ok w (RGet (limits_key client_id)) then (Inl (RuntimeError ''redis''), r)
      else case redis_get r (now w) (limits_key client_id) of
        Some (CText t) \<Rightarrow>
          if CText t = limits_enc None then (Inr None, r) else (Inl (ValueError ''json''), r)
      | Some (CJson j) \<Rightarrow> (Inr (Some (limits_of_json j)), r)
      | None \<Rightarrow>
          if \<not> db_ok w QLimits then (Inl (RuntimeError ''db pool unavailable''), r)
          else if \<not> redis_ok w (RSetex (limits_key client_id)) then (Inl (RuntimeError ''redis''), r)
          else (Inr (limits_rows d client_id),
                redis_setex r (now w) (limits_key client_id) 60 (limits_enc (limits_rows d client_id))))"

definition invalidate :: "world \<Rightarrow> redis \<Rightarrow> string \<Rightarrow> redis" where
  "invalidate w r client_id =
     (if r_init r \<and> redis_ok w (RDelete (limits_key client_id)) then redis_delete r (limits_key client_id) else r)"

definition get_rate_limit :: "world \<Rightarrow> db \<Rightarrow> redis \<Rightarrow> string \<Rightarrow> int \<Rightarrow> int \<times> redis" where
  "get_rate_limit w d r client_id role_default =
     (case read_limits_row w d r client_id of
        (Inr (Some (Some n, _)), r') \<Rightarrow> (n, r')
      | (_, r') \<Rightarrow> (role_default, r'))"

definition get_anomaly_cutoff :: "world \<Rightarrow> db \<Rightarrow> redis \<Rightarrow> string \<Rightarrow> rat \<times> redis" where
  "get_anomaly_cutoff w d r client_id =
     (case read_limits_row w d r client_id of
        (Inr (Some (_, s)), r') \<Rightarrow> (cutoff_for_sensitivity s, r')
      | (_, r') \<Rightarrow> (DEFAULT_CUTOFF, r'))"

definition limits_score_window :: "world \<Rightarrow> redis \<Rightarrow> string \<Rightarrow> (exn + rat) \<times> redis" where
  "limits_score_window w r client_id =
     (case get_anomaly_window_with_timestamps w r client_id of
        (Inl e, r') \<Rightarrow> (Inl e, r')
      | (Inr window, r') \<Rightarrow> (Inr (fst (score_window (map fst window))), r'))"

subsection \<open>Facts on the score\<close>

definition exfil_score :: "string list \<Rightarrow> rat" where
  "exfil_score ws = (if 1 \<le> count_in ws EXFIL_SEARCH_TOOLS \<and> 3 \<le> count_in ws EXFIL_FILE_TOOLS
     then 0.7 + min (of_int (count_in ws EXFIL_FILE_TOOLS) * 0.05) 0.25 else 0)"

definition export_score :: "string list \<Rightarrow> rat" where
  "export_score ws = (if 1 \<le> count_in ws EXFIL_AUTH_TOOLS \<and> 1 \<le> count_in ws EXFIL_EXPORT_TOOLS then 0.8 else 0)"

definition rapid_score :: "string list \<Rightarrow> rat" where
  "rapid_score ws = (if 10 < int (length ws) then min (0.5 + of_int (int (length ws) - 10) * 0.035) 0.9 else 0)"

lemma count_in_nonneg [simp]: "0 \<le> count_in ws ts"
  by (simp add: count_in_def)

lemma count_in_Nil [simp]: "count_in [] ts = 0"
  by (simp add: count_in_def)

lemma count_in_append [simp]: "count_in (xs @ ys) ts = count_in xs ts + count_in ys ts"
  by (simp add: count_in_def)

lemma exfil_score_nonneg: "0 \<le> exfil_score ws"
  by (simp add: exfil_score_def min_def)

lemma score_window_max:
  "fst (score_window ws) = max (exfil_score ws) (max (export_score ws) (rapid_score ws))"
proof (cases ws)
  case Nil
  then show ?thesis by (simp add: score_window_def exfil_score_def export_score_def rapid_score_def)
next
  case (Cons x xs)
  have 1: "fst (score_exfil ws (0, None)) = exfil_score ws"
    by (simp add: score_exfil_def exfil_score_def Let_def min_def)
  have 2: "fst (score_export ws b) = max (fst b) (export_score ws)" if "0 \<le> fst b" for b
    using that by (simp add: score_export_def export_score_def)
  have 3: "fst (score_rapid ws b) = max (fst b) (rapid_score ws)" if "0 \<le> fst b" for b
    using that unfolding score_rapid_def rapid_score_def Let_def by (auto simp only: max_def fst_conv split: if_splits)
  have "fst (score_window ws) = max (max (exfil_score ws) (export_score ws)) (rapid_score ws)"
    using Cons 1 2[of "score_exfil ws (0, None)"] 3[of "score_export ws (score_exfil ws (0, None))"]
      exfil_score_nonneg[of ws] by (simp add: score_window_def)
  then show ?thesis by (simp add: max.assoc)
qed

lemma exfil_score_bounds: "0 \<le> exfil_score ws \<and> exfil_score ws \<le> 0.95"
proof -
  have "min (of_int (count_in ws EXFIL_FILE_TOOLS) * 0.05) 0.25 \<le> (0.25 :: rat)" by (rule min.cobounded2)
  then have "0.7 + min (of_int (count_in ws EXFIL_FILE_TOOLS) * 0.05) 0.25 \<le> (0.95 :: rat)" by simp
  then show ?thesis using exfil_score_nonneg[of ws] by (simp add: exfil_score_def)
qed

lemma export_score_bounds: "0 \<le> export_score ws \<and> export_score ws \<le> 0.95"
  by (simp add: export_score_def)

lemma rapid_score_bounds: "0 \<le> rapid_score ws \<and> rapid_score ws \<le> 0.95"
proof (cases "10 < int (length ws)")
  case True
  define m where "m = min (0.5 + of_int (int (length ws) - 10) * 0.035) (0.9 :: rat)"
  have "m \<le> 0.9" unfolding m_def by (rule min.cobounded2)
  moreover have "0 \<le> m" unfolding m_def using True by simp
  moreover have "rapid_score ws = m" using True by (simp only: rapid_score_def if_True m_def)
  ultimately show ?thesis by simp
next
  case False
  then show ?thesis by (simp add: rapid_score_def)
qed

lemma exfil_score_mono: "exfil_score ws \<le> exfil_score (ws @ vs)"
proof (cases "1 \<le> count_in ws EXFIL_SEARCH_TOOLS \<and> 3 \<le> count_in ws EXFIL_FILE_TOOLS")
  case True
  have le: "count_in ws ts \<le> count_in (ws @ vs) ts" for ts by simp
  with True have "1 \<le> count_in (ws @ vs) EXFIL_SEARCH_TOOLS \<and> 3 \<le> count_in (ws @ vs) EXFIL_FILE_TOOLS"
    by (meson order_trans)
  moreover have "min (of_int (count_in ws EXFIL_FILE_TOOLS) * 0.05 :: rat) 0.25
      \<le> min (of_int (count_in (ws @ vs) EXFIL_FILE_TOOLS) * 0.05) 0.25"
    using le by (intro min.mono mult_right_mono) (simp_all only: of_int_le_iff, simp_all)
  ultimately show ?thesis using True by (simp only: exfil_score_def if_True simp_thms add_left_mono)
next
  case False
  then show ?thesis using exfil_score_nonneg[of "ws @ vs"] by (simp only: exfil_score_def if_False)
qed

lemma export_score_mono: "export_score ws \<le> export_score (ws @ vs)"
proof -
  have "count_in ws ts \<le> count_in (ws @ vs) ts" for ts by simp
  then have "1 \<le> count_in ws ts \<Longrightarrow> 1 \<le> count_in (ws @ vs) ts" for ts by (meson order_trans)
  then show ?thesis by (simp add: export_score_def del: count_in_append)
qed

lemma rapid_score_mono: "rapid_score ws \<le> rapid_score (ws @ vs)"
proof (cases "10 < int (length ws)")
  case True
  then have "min (0.5 + of_int (int (length ws) - 10) * 0.035 :: rat) 0.9
      \<le> min (0.5 + of_int (int (length (ws @ vs)) - 10) * 0.035) 0.9"
    by (intro min.mono add_left_mono mult_right_mono) simp_all
  with True show ?thesis by (simp add: rapid_score_def)
next
  case False
  then show ?thesis by (simp add: rapid_score_def)
qed


lemma mset_swap_witness: "mset [a, b, c, d] = mset [b, a, c, d]"
  by simp


text \<open>
  An alert is raised exactly when the window holds a search call and three file reads,
  or twenty calls in all.
\<close>

theorem alert_exact:
  "ANOMALY_ALERT_THRESHOLD \<le> fst (score_window ws) \<longleftrightarrow>
     1 \<le> count_in ws EXFIL_SEARCH_TOOLS \<and> 3 \<le> count_in ws EXFIL_FILE_TOOLS \<or> 20 \<le> length ws"
proof -
  have f: "0.85 \<le> exfil_score ws \<longleftrightarrow> 1 \<le> count_in ws EXFIL_SEARCH_TOOLS \<and> 3 \<le> count_in ws EXFIL_FILE_TOOLS"
  proof (cases "1 \<le> count_in ws EXFIL_SEARCH_TOOLS \<and> 3 \<le> count_in ws EXFIL_FILE_TOOLS")
    case True
    then have "(3 :: rat) \<le> of_int (count_in ws EXFIL_FILE_TOOLS)" by simp
    then have "(0.15 :: rat) \<le> min (of_int (count_in ws EXFIL_FILE_TOOLS) * 0.05) 0.25" by simp
    moreover have "exfil_score ws = 0.7 + min (of_int (count_in ws EXFIL_FILE_TOOLS) * 0.05) 0.25"
      using True by (simp only: exfil_score_def simp_thms if_True)
    ultimately have "0.85 \<le> exfil_score ws" by simp
    with True show ?thesis by blast
  next
    case False
    then have "exfil_score ws = 0" by (simp only: exfil_score_def if_False)
    with False show ?thesis by simp
  qed
  have r: "0.85 \<le> rapid_score ws \<longleftrightarrow> 20 \<le> length ws"
  proof (cases "10 < int (length ws)")
    case True
    have "(0.85 :: rat) \<le> 0.5 + of_int (int (length ws) - 10) * 0.035 \<longleftrightarrow> (20 :: rat) \<le> of_nat (length ws)"
      by simp
    then show ?thesis using True by (simp add: rapid_score_def)
  next
    case False
    then show ?thesis by (simp add: rapid_score_def)
  qed
  have "\<not> (0.85 :: rat) \<le> export_score ws" by (simp add: export_score_def)
  with f r show ?thesis
    unfolding score_window_max ANOMALY_ALERT_THRESHOLD_def le_max_iff_disj by blast
qed

text \<open>
  The sensitivity \<open>lenient\<close> denies nothing: its cutoff is the highest score a window can
  reach, and the policy denies only above the cutoff, so \<open>lenient\<close> acts as \<open>off\<close>.
\<close>

theorem lenient_acts_as_off:
  "\<not> cutoff_for_sensitivity (Some ''lenient'') < fst (score_window ws)
   \<and> \<not> cutoff_for_sensitivity (Some ''off'') < fst (score_window ws)"
proof -
  have "fst (score_window ws) \<le> 0.95"
    using exfil_score_bounds[of ws] export_score_bounds[of ws] rapid_score_bounds[of ws]
    unfolding score_window_max max_def by auto
  then show ?thesis by (simp add: cutoff_for_sensitivity_def SENSITIVITY_CUTOFF_def)
qed

subsection \<open>Facts on the window\<close>

lemma split_on_no_sep: "c \<notin> set s \<Longrightarrow> split_on c (s @ c # t) = s # split_on c t"
  by (induction s) auto

lemma tool_of_member_push: "CHR '':'' \<notin> set tool \<Longrightarrow> tool_of_member (tool @ '':'' @ rest) = tool"
  by (simp add: tool_of_member_def split_on_no_sep)

lemma zrem_idem: "zremrangebyscore_upto c (zremrangebyscore_upto c z) = zremrangebyscore_upto c z"
  by (simp add: zremrangebyscore_upto_def)

lemma push_Inr:
  assumes "push_anomaly_invocation w r c tool = (Inr names, r')"
  defines "z \<equiv> zremrangebyscore_upto (now w - ANOMALY_WINDOW_SECONDS)
      (zadd (tool @ '':'' @ now_repr w) (now w) (r_zs r (window_key c)))"
  shows "r_init r" and "names = map (tool_of_member \<circ> fst) z"
    and "r' = r\<lparr>r_zs := (r_zs r)(window_key c := z)\<rparr>"
  using assms by (auto simp: push_anomaly_invocation_def Let_def split: if_splits)

text \<open>
  The scorer and the policy see the same window: read back at the same time, the window
  that \<open>_get_recent_calls_for_opa\<close> sends to the policy lists the calls the score was computed on, the
  current call included; it holds nothing older than 300 seconds, keeps the sorted set well
  formed, and leaves every other client's window alone.
\<close>

theorem scorer_and_policy_share_window:
  assumes "push_anomaly_invocation w r c tool = (Inr names, r')"
    and "zset_ok (r_zs r (window_key c))" and "redis_ok w (RWindow c)"
    and "CHR '':'' \<notin> set tool"
  shows "\<exists>es. get_anomaly_window_with_timestamps w r' c = (Inr es, r') \<and> map fst es = names
      \<and> tool \<in> set names \<and> (\<forall>e \<in> set es. now w - 300 < snd e)
      \<and> zset_ok (r_zs r' (window_key c))
      \<and> (\<forall>c'. c' \<noteq> c \<longrightarrow> r_zs r' (window_key c') = r_zs r (window_key c'))"
proof -
  define z where "z = zremrangebyscore_upto (now w - ANOMALY_WINDOW_SECONDS)
      (zadd (tool @ '':'' @ now_repr w) (now w) (r_zs r (window_key c)))"
  note push = push_Inr[OF assms(1), folded z_def]
  let ?es = "map (\<lambda>e. (tool_of_member (fst e), snd e)) z"
  have zz: "zremrangebyscore_upto (now w - ANOMALY_WINDOW_SECONDS) z = z"
    by (simp add: z_def zrem_idem)
  have "get_anomaly_window_with_timestamps w r' c = (Inr ?es, r')"
    using push assms(3) zz by (simp add: get_anomaly_window_with_timestamps_def Let_def)
  moreover have "map fst ?es = names" using push(2) by (simp add: comp_def)
  moreover have "(tool @ '':'' @ now_repr w, now w) \<in> set z"
    by (simp add: z_def zremrangebyscore_upto_def set_zadd ANOMALY_WINDOW_SECONDS_def)
  then have "(tool_of_member \<circ> fst) (tool @ '':'' @ now_repr w, now w) \<in> (tool_of_member \<circ> fst) ` set z"
    by (rule imageI)
  then have "tool \<in> set names"
    using push(2) tool_of_member_push[OF assms(4), of "now_repr w"] by simp
  moreover have "\<forall>e \<in> set ?es. now w - 300 < snd e"
    by (auto simp: z_def zremrangebyscore_upto_def ANOMALY_WINDOW_SECONDS_def)
  moreover have "zset_ok z" unfolding z_def by (intro zset_ok_zrem zset_ok_zadd assms(2))
  moreover have "\<forall>c'. c' \<noteq> c \<longrightarrow> r_zs r' (window_key c') = r_zs r (window_key c')"
    using push(3) by (simp add: window_key_def)
  ultimately show ?thesis using push(3) by (intro exI[of _ ?es]) simp
qed

theorem scorer_and_policy_share_window_witness:
  "\<exists>es. get_anomaly_window_with_timestamps (calm_world 1000)
      (empty_redis\<lparr>r_zs := (\<lambda>_. [])(window_key ''alice'' := [(''web_search:0.0'', 1000)])\<rparr>) ''alice''
      = (Inr es, empty_redis\<lparr>r_zs := (\<lambda>_. [])(window_key ''alice'' := [(''web_search:0.0'', 1000)])\<rparr>)
    \<and> map fst es = [''web_search'']"
proof -
  let ?r' = "empty_redis\<lparr>r_zs := (\<lambda>_. [])(window_key ''alice'' := [(''web_search:0.0'', 1000)])\<rparr>"
  have 1: "push_anomaly_invocation (calm_world 1000) empty_redis ''alice'' ''web_search'' = (Inr [''web_search''], ?r')"
    by (simp add: push_anomaly_invocation_def Let_def zadd_def zremrangebyscore_upto_def
        ANOMALY_WINDOW_SECONDS_def tool_of_member_def)
  have 2: "zset_ok (r_zs empty_redis (window_key ''alice''))" by (simp add: zset_ok_def)
  show ?thesis using scorer_and_policy_share_window[OF 1 2] by auto
qed

subsection \<open>The limits cache\<close>

lemma limits_of_json_json [simp]: "limits_of_json (limits_json l) = l"
  by (cases l) (auto simp: limits_of_json_def limits_json_def split: option.splits)

interpretation limits_cache: cached_lookup read_limits_row limits_rows limits_key limits_enc 60
    "\<lambda>_. Inl (RuntimeError ''db pool unavailable'')" UNIV
proof
  fix r k w d res r'
  assume c: "\<forall>c e. r_kv r (limits_key k) = Some (c, e) \<longrightarrow> c \<in> range limits_enc"
    and l: "read_limits_row w d r k = (res, r')"
  show "(\<exists>v e. res = Inr v \<and> r_kv r (limits_key k) = Some (limits_enc v, e) \<and> now w < e \<and> r' = r)
       \<or> (res = Inr (limits_rows d k) \<and>
          (r' = r \<or> r' = redis_setex r (now w) (limits_key k) 60 (limits_enc (limits_rows d k))))
       \<or> ((res = Inl (RuntimeError ''db pool unavailable'') \<or> (\<exists>e. res = Inl e)) \<and> r' = r)"
  proof (cases "redis_get r (now w) (limits_key k)")
    case None
    with l show ?thesis by (auto simp: read_limits_row_def split: if_splits)
  next
    case (Some cv)
    then obtain e where e: "r_kv r (limits_key k) = Some (cv, e)" "now w < e"
      by (auto simp: redis_get_def split: option.splits if_splits)
    with c obtain v where v: "cv = limits_enc v" by blast
    with Some e l show ?thesis
      by (cases v) (auto simp: read_limits_row_def limits_enc_def split: if_splits)
  qed
next
  fix v v' assume "limits_enc v = limits_enc v'"
  then show "v = v'"
    by (cases v; cases v') (auto simp: limits_enc_def dest: arg_cong[of _ _ limits_of_json])
qed (simp_all add: limits_key_def inj_on_def)

text \<open>
  The anomaly cutoff fails closed: anything but the strict default of 0.85 was read from
  the client's own row in a database state at most 60 seconds old; every fault gives the default.
\<close>

theorem cutoff_fails_closed:
  assumes "limits_cache.coherent hist r" and "get_anomaly_cutoff w d r c = (x, r')" and "x \<noteq> DEFAULT_CUTOFF"
  shows "\<exists>t d' n s. (t, d') \<in> insert (now w, d) hist \<and> now w < t + 60 \<and> limits_rows d' c = Some (n, Some s)
     \<and> map_of SENSITIVITY_CUTOFF s = Some x"
proof -
  from assms(2,3) obtain n s where rd: "read_limits_row w d r c = (Inr (Some (n, s)), r')"
    and x: "x = cutoff_for_sensitivity s"
    by (auto simp: get_anomaly_cutoff_def split: prod.splits sum.splits option.splits)
  from x assms(3) obtain s' where s': "s = Some s'" "map_of SENSITIVITY_CUTOFF s' = Some x"
    by (auto simp: cutoff_for_sensitivity_def split: option.splits)
  from limits_cache.bounded_staleness[OF assms(1) UNIV_I rd] obtain t d'
    where "(t, d') \<in> insert (now w, d) hist" "now w < t + 60" "Some (n, s) = limits_rows d' c" by auto
  with s' show ?thesis by metis
qed

theorem cutoff_fails_closed_witness:
  "\<exists>t d' n s. (t, d') \<in> {(5, (undefined :: db)\<lparr>client_limits := [\<lparr>li_client = ''ci'', li_rate = None, li_sensitivity = Some ''off''\<rparr>]\<rparr>)}
     \<and> (5 :: rat) < t + 60 \<and> limits_rows d' ''ci'' = Some (n, Some s) \<and> map_of SENSITIVITY_CUTOFF s = Some 2"
proof -
  let ?d = "(undefined :: db)\<lparr>client_limits := [\<lparr>li_client = ''ci'', li_rate = None, li_sensitivity = Some ''off''\<rparr>]\<rparr>"
  let ?o = "get_anomaly_cutoff (calm_world 5) ?d empty_redis ''ci''"
  have "fst ?o = 2"
    by (simp add: get_anomaly_cutoff_def read_limits_row_def redis_get_def limits_rows_def
        cutoff_for_sensitivity_def SENSITIVITY_CUTOFF_def)
  then have o: "?o = (2, snd ?o)" by (metis prod.collapse)
  have "limits_cache.coherent {} empty_redis" by (simp add: limits_cache.coherent_def)
  from cutoff_fails_closed[OF this o] show ?thesis by (simp add: DEFAULT_CUTOFF_def)
qed

end
