(* ===== verification/Profile.thy ===== *)
theory Profile
  imports Cache
begin

section \<open>Profiles: per-identity and named restrictions\<close>

text \<open>
  The profile part of \<^verbatim>\<open>proxy/app/services/invocation.py\<close>: \<open>merge_profile_deny_dominant\<close>,
  \<open>_lookup_profile_source\<close>, \<open>_lookup_profile_with_cache\<close> and \<open>_named_profile_has_any_binding\<close>, and the tool
  name check of \<^verbatim>\<open>proxy/app/models/tool.py\<close> that keeps cache keys apart. A profile row is what both
  tables hold: enabled, and an optional list of allowed functions.
\<close>

subsection \<open>Operations\<close>

record profile =
  pf_enabled :: bool
  pf_functions :: "string list option"

definition functions_of :: "profile \<Rightarrow> string list" where
  "functions_of p = (case pf_functions p of None \<Rightarrow> [] | Some fs \<Rightarrow> fs)"

definition merge_profile_deny_dominant :: "profile option \<Rightarrow> profile option \<Rightarrow> profile option" where
  "merge_profile_deny_dominant legacy named =
     (case legacy of
        None \<Rightarrow> named
      | Some l \<Rightarrow>
          (case named of
             None \<Rightarrow> legacy
           | Some n \<Rightarrow>
               let enabled = (pf_enabled l \<and> pf_enabled n);
                   fl = functions_of l; fn = functions_of n
               in if fl \<noteq> [] \<and> fn \<noteq> []
                  then let merged = filter (\<lambda>f. f \<in> set fn) fl in
                       if merged = [] then Some \<lparr>pf_enabled = False, pf_functions = Some []\<rparr>
                       else Some \<lparr>pf_enabled = enabled, pf_functions = Some merged\<rparr>
                  else let merged = (if fl \<noteq> [] then fl else fn) in
                       Some \<lparr>pf_enabled = enabled, pf_functions = (if merged = [] then None else Some merged)\<rparr>))"

text \<open>The two sources: \<open>mcp_profiles\<close> by identity, \<open>profile_mcp_bindings\<close> by profile.\<close>

datatype profile_source = Legacy | Named

definition profile_table :: "profile_source \<Rightarrow> db \<Rightarrow> profile_row list" where
  "profile_table src d = (case src of Legacy \<Rightarrow> mcp_profiles d | Named \<Rightarrow> profile_mcp_bindings d)"

definition profile_query :: "profile_source \<Rightarrow> query" where
  "profile_query src = QProfile (case src of Legacy \<Rightarrow> ''mcp_profiles'' | Named \<Rightarrow> ''profile_mcp_bindings'')"

definition profile_key :: "profile_source \<times> string \<times> string \<Rightarrow> string" where
  "profile_key k = (case k of (src, key_value, tool_name) \<Rightarrow>
     (case src of Legacy \<Rightarrow> ''mcp_profile:v2:id:'' | Named \<Rightarrow> ''mcp_profile:v2:uuid:'')
     @ key_value @ '':'' @ tool_name)"

definition profile_json :: "profile \<Rightarrow> json" where
  "profile_json p = JObj [(''enabled'', JBool (pf_enabled p)),
     (''allowed_functions'', case pf_functions p of None \<Rightarrow> JNull | Some fs \<Rightarrow> JArr (map JStr fs))]"

text \<open>The text cached for a source: the row, or the sentinel of no row.\<close>

definition profile_enc :: "profile option \<Rightarrow> cval" where
  "profile_enc p = (case p of None \<Rightarrow> CText ''__NO_PROFILE_ROW__'' | Some p \<Rightarrow> CJson (profile_json p))"

fun jstr :: "json \<Rightarrow> string option" where
  "jstr (JStr s) = Some s"
| "jstr _ = None"

fun jfunctions :: "json option \<Rightarrow> string list option" where
  "jfunctions (Some (JArr xs)) = Some (List.map_filter jstr xs)"
| "jfunctions _ = None"

definition profile_of_json :: "json \<Rightarrow> profile" where
  "profile_of_json j =
     \<lparr>pf_enabled = (case jlookup j ''enabled'' of Some v \<Rightarrow> truthy v | None \<Rightarrow> True),
      pf_functions = jfunctions (jlookup j ''allowed_functions'')\<rparr>"

definition profile_rows :: "db \<Rightarrow> profile_source \<times> string \<times> string \<Rightarrow> profile option" where
  "profile_rows d k = (case k of (src, key_value, tool_name) \<Rightarrow>
     map_option (\<lambda>r. \<lparr>pf_enabled = pr_enabled r, pf_functions = pr_functions r\<rparr>)
       (find (\<lambda>r. pr_profile_id r = key_value \<and> pr_mcp_name r = tool_name) (profile_table src d)))"

text \<open>A Redis read and write inside \<open>try\<close>: a fault, or an uninitialised pool, is a miss.\<close>

definition try_get :: "world \<Rightarrow> redis \<Rightarrow> string \<Rightarrow> cval option" where
  "try_get w r k = (if r_init r \<and> redis_ok w (RGet k) then redis_get r (now w) k else None)"

definition try_setex :: "world \<Rightarrow> redis \<Rightarrow> string \<Rightarrow> rat \<Rightarrow> cval \<Rightarrow> redis" where
  "try_setex w r k ttl v = (if r_init r \<and> redis_ok w (RSetex k) then redis_setex r (now w) k ttl v else r)"

definition PROFILE_CACHE_TTL_SECONDS :: rat where "PROFILE_CACHE_TTL_SECONDS = 300"

definition lookup_profile_db ::
    "world \<Rightarrow> db \<Rightarrow> redis \<Rightarrow> profile_source \<times> string \<times> string \<Rightarrow> (exn + profile option) \<times> redis" where
  "lookup_profile_db w d r k =
     (if db_ok w (profile_query (fst k))
      then (Inr (profile_rows d k), try_setex w r (profile_key k) PROFILE_CACHE_TTL_SECONDS (profile_enc (profile_rows d k)))
      else (Inl (ProfileLookupError ''DB unreachable and no cached profile''), r))"

definition lookup_profile_source ::
    "world \<Rightarrow> db \<Rightarrow> redis \<Rightarrow> profile_source \<times> string \<times> string \<Rightarrow> (exn + profile option) \<times> redis" where
  "lookup_profile_source w d r k =
     (case try_get w r (profile_key k) of
        Some (CText t) \<Rightarrow> if CText t = profile_enc None then (Inr None, r) else lookup_profile_db w d r k
      | Some (CJson j) \<Rightarrow> (Inr (Some (profile_of_json j)), r)
      | None \<Rightarrow> lookup_profile_db w d r k)"

definition bindings_key :: "string \<Rightarrow> string" where
  "bindings_key profile_uuid = ''mcp_profile:v2:uuid:'' @ profile_uuid @ '':__has_bindings__''"

definition has_binding_row :: "db \<Rightarrow> string \<Rightarrow> bool" where
  "has_binding_row d uuid = (\<exists>r \<in> set (profile_mcp_bindings d). pr_profile_id r = uuid)"

definition named_profile_has_any_binding :: "world \<Rightarrow> db \<Rightarrow> redis \<Rightarrow> string \<Rightarrow> (exn + bool) \<times> redis" where
  "named_profile_has_any_binding w d r uuid =
     (case try_get w r (bindings_key uuid) of
        Some (CJson j) \<Rightarrow> (Inr (j = JBool True), r)
      | _ \<Rightarrow>
          if db_ok w QBindingCount
          then (Inr (has_binding_row d uuid),
                try_setex w r (bindings_key uuid) PROFILE_CACHE_TTL_SECONDS (CJson (JBool (has_binding_row d uuid))))
          else (Inl (ProfileLookupError ''DB unreachable and no cached binding-count''), r))"

definition disabled_profile :: profile where
  "disabled_profile = \<lparr>pf_enabled = False, pf_functions = Some []\<rparr>"

definition lookup_profile_with_cache ::
    "world \<Rightarrow> db \<Rightarrow> redis \<Rightarrow> string \<Rightarrow> string \<Rightarrow> string option \<Rightarrow> (exn + profile option) \<times> redis" where
  "lookup_profile_with_cache w d r client_id tool_name profile_uuid =
     (case lookup_profile_source w d r (Legacy, client_id, tool_name) of
        (Inl e, r1) \<Rightarrow> (Inl e, r1)
      | (Inr legacy, r1) \<Rightarrow>
          if \<not> str_true profile_uuid then (Inr legacy, r1)
          else case lookup_profile_source w d r1 (Named, the profile_uuid, tool_name) of
            (Inl e, r2) \<Rightarrow> (Inl e, r2)
          | (Inr (Some n), r2) \<Rightarrow> (Inr (merge_profile_deny_dominant legacy (Some n)), r2)
          | (Inr None, r2) \<Rightarrow>
              (case named_profile_has_any_binding w d r2 (the profile_uuid) of
                 (Inl e, r3) \<Rightarrow> (Inl e, r3)
               | (Inr b, r3) \<Rightarrow>
                   (Inr (merge_profile_deny_dominant legacy (if b then Some disabled_profile else None)), r3)))"

text \<open>\<open>_TOOL_NAME_PATTERN\<close>.\<close>

definition name_edge :: "char \<Rightarrow> bool" where "name_edge c = (is_lower c \<or> is_digit c)"

definition valid_tool_name :: "string \<Rightarrow> bool" where
  "valid_tool_name s = (s \<noteq> [] \<and> length s \<le> 64 \<and> name_edge (hd s) \<and> name_edge (last s)
     \<and> (\<forall>c \<in> set s. name_edge c \<or> c = CHR ''_'' \<or> c = CHR ''-''))"

subsection \<open>The merge\<close>

text \<open>What a profile permits, as the policy reads it: enabled, and a function of the list if there is one.\<close>

definition permits :: "profile option \<Rightarrow> string \<Rightarrow> bool" where
  "permits p f = (case p of None \<Rightarrow> True
     | Some p \<Rightarrow> pf_enabled p \<and> (functions_of p = [] \<or> f \<noteq> [] \<and> f \<in> set (functions_of p)))"

lemma permits_None [simp]: "permits None f"
  by (simp add: permits_def)

lemma permits_disabled [simp]: "\<not> permits (Some disabled_profile) f"
  by (simp add: permits_def disabled_profile_def)

lemma merge_permits:
  "permits (merge_profile_deny_dominant l n) f \<longleftrightarrow> permits l f \<and> permits n f"
proof (cases l; cases n)
  fix a b assume l: "l = Some a" and n: "n = Some b"
  show ?thesis
  proof (cases "functions_of a \<noteq> [] \<and> functions_of b \<noteq> []")
    case True
    show ?thesis
    proof (cases "filter (\<lambda>f. f \<in> set (functions_of b)) (functions_of a) = []")
      case empty: True
      then have "f \<notin> set (functions_of a) \<or> f \<notin> set (functions_of b)"
        by (auto simp: filter_empty_conv)
      with True empty l n show ?thesis
        by (auto simp: permits_def merge_profile_deny_dominant_def Let_def)
    next
      case False
      with True l n show ?thesis
        by (auto simp: permits_def merge_profile_deny_dominant_def Let_def functions_of_def[of "\<lparr>pf_enabled = _, pf_functions = _\<rparr>"])
    qed
  next
    case False
    with l n show ?thesis
      by (auto simp: permits_def merge_profile_deny_dominant_def Let_def functions_of_def[of "\<lparr>pf_enabled = _, pf_functions = _\<rparr>"])
  qed
qed (auto simp: permits_def merge_profile_deny_dominant_def)

subsection \<open>The caches\<close>

lemma jstr_map_filter [simp]: "List.map_filter jstr (map JStr xs) = xs"
  by (induction xs) (auto simp: List.map_filter_def)

lemma profile_of_json_json [simp]: "profile_of_json (profile_json p) = p"
  by (cases p) (auto simp: profile_of_json_def profile_json_def split: option.splits)

lemma profile_enc_inj: "profile_enc v = profile_enc v' \<Longrightarrow> v = v'"
  by (cases v; cases v') (auto simp: profile_enc_def dest: arg_cong[of _ _ profile_of_json])

lemma valid_tool_name_chars:
  "valid_tool_name s \<Longrightarrow> CHR '':'' \<notin> set s \<and> s \<noteq> ''__has_bindings__''"
  by (auto simp: valid_tool_name_def name_edge_def is_lower_def is_digit_def)

lemma append_sep_inj:
  "a @ c # x = b @ c # y \<Longrightarrow> c \<notin> set x \<Longrightarrow> c \<notin> set y \<Longrightarrow> a = b \<and> x = y"
proof (induction a arbitrary: b)
  case Nil
  then show ?case by (cases b) auto
next
  case (Cons z a)
  then show ?case by (cases b) auto
qed

lemma profile_key_inj: "inj_on profile_key {k. valid_tool_name (snd (snd k))}"
proof (rule inj_onI)
  fix k k' assume v: "k \<in> {k. valid_tool_name (snd (snd k))}" "k' \<in> {k. valid_tool_name (snd (snd k))}"
    and eq: "profile_key k = profile_key k'"
  obtain s a x s' b y where k: "k = (s, a, x)" "k' = (s', b, y)" by (metis surj_pair)
  from v k have "CHR '':'' \<notin> set x" "CHR '':'' \<notin> set y" using valid_tool_name_chars by auto
  moreover from eq k have "s = s' \<and> a @ '':'' @ x = b @ '':'' @ y"
    by (auto simp: profile_key_def split: profile_source.splits)
  ultimately show "k = k'" using k append_sep_inj[of a "CHR '':''" x b y] by simp
qed

lemma bindings_not_profile_key:
  assumes "valid_tool_name tool"
  shows "bindings_key u \<noteq> profile_key (src, kv, tool)"
proof
  assume "bindings_key u = profile_key (src, kv, tool)"
  then have "u @ CHR '':'' # ''__has_bindings__'' = kv @ CHR '':'' # tool"
    by (auto simp: bindings_key_def profile_key_def split: profile_source.splits)
  with valid_tool_name_chars[OF assms] show False
    using append_sep_inj[of u "CHR '':''" "''__has_bindings__''" kv tool] by simp
qed

lemma try_get_Some: "try_get w r k = Some c \<Longrightarrow> \<exists>e. r_kv r k = Some (c, e) \<and> now w < e"
  by (auto simp: try_get_def redis_get_def split: if_splits option.splits)

lemma try_setex_cases: "try_setex w r k ttl v = r \<or> try_setex w r k ttl v = redis_setex r (now w) k ttl v"
  by (simp add: try_setex_def)

abbreviation profile_keys :: "(profile_source \<times> string \<times> string) set" where
  "profile_keys \<equiv> {k. valid_tool_name (snd (snd k))}"

interpretation prof: cached_lookup lookup_profile_source profile_rows profile_key profile_enc
    PROFILE_CACHE_TTL_SECONDS "\<lambda>_. Inl (ProfileLookupError ''DB unreachable and no cached profile'')" profile_keys
proof
  fix r k w d res r'
  assume c: "\<forall>c e. r_kv r (profile_key k) = Some (c, e) \<longrightarrow> c \<in> range profile_enc"
    and l: "lookup_profile_source w d r k = (res, r')"
  let ?goal = "(\<exists>v e. res = Inr v \<and> r_kv r (profile_key k) = Some (profile_enc v, e) \<and> now w < e \<and> r' = r)
       \<or> (res = Inr (profile_rows d k) \<and> (r' = r \<or>
            r' = redis_setex r (now w) (profile_key k) PROFILE_CACHE_TTL_SECONDS (profile_enc (profile_rows d k))))
       \<or> ((res = Inl (ProfileLookupError ''DB unreachable and no cached profile'') \<or> (\<exists>e. res = Inl e)) \<and> r' = r)"
  have db: ?goal if "lookup_profile_db w d r k = (res, r')"
    using that try_setex_cases by (fastforce simp: lookup_profile_db_def split: if_splits)
  show ?goal
  proof (cases "try_get w r (profile_key k)")
    case None
    with l db show ?thesis by (simp add: lookup_profile_source_def)
  next
    case (Some cv)
    with try_get_Some obtain e where e: "r_kv r (profile_key k) = Some (cv, e)" "now w < e" by blast
    with c obtain v where "cv = profile_enc v" by blast
    with Some e l show ?thesis
      by (cases v) (auto simp: lookup_profile_source_def profile_enc_def)
  qed
qed (auto simp: profile_key_inj PROFILE_CACHE_TTL_SECONDS_def dest: profile_enc_inj)

interpretation binds: cached_lookup named_profile_has_any_binding has_binding_row bindings_key
    "\<lambda>b. CJson (JBool b)" PROFILE_CACHE_TTL_SECONDS
    "\<lambda>_. Inl (ProfileLookupError ''DB unreachable and no cached binding-count'')" UNIV
proof
  fix r k w d res r'
  assume c: "\<forall>c e. r_kv r (bindings_key k) = Some (c, e) \<longrightarrow> c \<in> range (\<lambda>b. CJson (JBool b))"
    and l: "named_profile_has_any_binding w d r k = (res, r')"
  show "(\<exists>v e. res = Inr v \<and> r_kv r (bindings_key k) = Some (CJson (JBool v), e) \<and> now w < e \<and> r' = r)
       \<or> (res = Inr (has_binding_row d k) \<and> (r' = r \<or>
            r' = redis_setex r (now w) (bindings_key k) PROFILE_CACHE_TTL_SECONDS (CJson (JBool (has_binding_row d k)))))
       \<or> ((res = Inl (ProfileLookupError ''DB unreachable and no cached binding-count'') \<or> (\<exists>e. res = Inl e)) \<and> r' = r)"
  proof (cases "try_get w r (bindings_key k)")
    case None
    with l try_setex_cases show ?thesis by (fastforce simp: named_profile_has_any_binding_def split: if_splits)
  next
    case (Some cv)
    with try_get_Some obtain e where e: "r_kv r (bindings_key k) = Some (cv, e)" "now w < e" by blast
    with c obtain b where "cv = CJson (JBool b)" by blast
    with Some e l show ?thesis by (auto simp: named_profile_has_any_binding_def)
  qed
qed (auto simp: bindings_key_def inj_on_def PROFILE_CACHE_TTL_SECONDS_def)

text \<open>Both caches are coherent with one history, and every lookup keeps that.\<close>

definition caches_ok :: "(rat \<times> db) set \<Rightarrow> redis \<Rightarrow> bool" where
  "caches_ok hist r \<longleftrightarrow> prof.coherent hist r \<and> binds.coherent hist r"

lemma caches_ok_profile:
  assumes "caches_ok hist r" and "k \<in> profile_keys" and "lookup_profile_source w d r k = (res, r')"
  shows "caches_ok (insert (now w, d) hist) r'"
proof -
  have "r_kv r' (bindings_key u) = r_kv r (bindings_key u)" for u
    using prof.frame[OF assms(3) prof.coherent_range] assms(1,2) bindings_not_profile_key
    by (metis (no_types, lifting) caches_ok_def mem_Collect_eq prod.collapse)
  moreover have "binds.coherent (insert (now w, d) hist) r"
    using assms(1) binds.coherent_mono[of hist r "insert (now w, d) hist"] by (auto simp: caches_ok_def)
  ultimately have "binds.coherent (insert (now w, d) hist) r'"
    by (simp add: binds.coherent_def)
  with prof.coherent_lookup[OF _ assms(2,3)] assms(1) show ?thesis by (simp add: caches_ok_def)
qed

text \<open>A database state that a lookup at this time may answer from.\<close>

definition recent :: "(rat \<times> db) set \<Rightarrow> world \<Rightarrow> db \<Rightarrow> db \<Rightarrow> bool" where
  "recent hist w d d' \<longleftrightarrow> (\<exists>t. (t, d') \<in> insert (now w, d) hist \<and> now w < t + PROFILE_CACHE_TTL_SECONDS)"

lemma recent_insert: "recent (insert (now w, d) hist) w d d' = recent hist w d d'"
  by (simp add: recent_def)

lemma profile_recent:
  assumes "caches_ok hist r" and "k \<in> profile_keys" and "lookup_profile_source w d r k = (Inr v, r')"
  shows "\<exists>d'. recent hist w d d' \<and> v = profile_rows d' k"
  using prof.bounded_staleness[OF _ assms(2,3), of hist] assms(1) unfolding caches_ok_def recent_def by blast

lemma bindings_recent:
  assumes "caches_ok hist r" and "named_profile_has_any_binding w d r u = (Inr b, r')"
  shows "\<exists>d'. recent hist w d d' \<and> b = has_binding_row d' u"
  using binds.bounded_staleness[OF _ UNIV_I assms(2), of hist] assms(1) unfolding caches_ok_def recent_def by blast

subsection \<open>Properties\<close>

text \<open>
  Property C32. Merging a per-identity profile with a named one is the meet of the two: the result
  permits a function exactly when both sides do. A named profile never widens access, and two
  disjoint function lists permit nothing.
\<close>

theorem merge_is_meet:
  "permits (merge_profile_deny_dominant legacy named) f \<longleftrightarrow> permits legacy f \<and> permits named f"
  by (rule merge_permits)

text \<open>
  A profile restriction takes effect within 300 seconds and faults never lift it: if the
  lookup answers with a profile that permits a function, then in a database state no older than
  the cache's time to live the identity's row permits it, and under a named profile so does the profile's row,
  or there was no row for the tool and the profile had no binding at all. A lookup that cannot be
  answered raises.
\<close>

theorem profile_lookup_sound:
  assumes "caches_ok hist r" and "valid_tool_name tool"
    and "lookup_profile_with_cache w d r client tool uuid = (Inr p, r')" and "permits p f"
  shows "(\<exists>d1. recent hist w d d1 \<and> permits (profile_rows d1 (Legacy, client, tool)) f)
    \<and> (str_true uuid \<longrightarrow> (\<exists>d2. recent hist w d d2 \<and> permits (profile_rows d2 (Named, the uuid, tool)) f
          \<and> (profile_rows d2 (Named, the uuid, tool) = None \<longrightarrow>
               (\<exists>d3. recent hist w d d3 \<and> \<not> has_binding_row d3 (the uuid)))))"
proof -
  let ?h = "insert (now w, d) hist"
  from assms(3) obtain legacy r1 where l: "lookup_profile_source w d r (Legacy, client, tool) = (Inr legacy, r1)"
    by (auto simp: lookup_profile_with_cache_def split: prod.splits sum.splits)
  have ok1: "caches_ok ?h r1" using caches_ok_profile[OF assms(1) _ l] assms(2) by simp
  obtain d1 where d1: "recent hist w d d1" "legacy = profile_rows d1 (Legacy, client, tool)"
    using profile_recent[OF assms(1) _ l] assms(2) by auto
  show ?thesis
  proof (cases "str_true uuid")
    case False
    with assms(3) l have "p = legacy" by (simp add: lookup_profile_with_cache_def)
    with False d1 assms(4) show ?thesis by blast
  next
    case True
    with assms(3) l obtain named r2
      where n: "lookup_profile_source w d r1 (Named, the uuid, tool) = (Inr named, r2)"
      by (auto simp: lookup_profile_with_cache_def split: prod.splits sum.splits)
    obtain d2 where d2: "recent hist w d d2" "named = profile_rows d2 (Named, the uuid, tool)"
      using profile_recent[OF ok1 _ n] assms(2) by (auto simp: recent_insert)
    have ok2: "caches_ok (insert (now w, d) ?h) r2" using caches_ok_profile[OF ok1 _ n] assms(2) by simp
    show ?thesis
    proof (cases named)
      case (Some q)
      with True assms(3) l n have "p = merge_profile_deny_dominant legacy named"
        by (simp add: lookup_profile_with_cache_def)
      with assms(4) have "permits legacy f" "permits named f" by (simp_all add: merge_permits)
      with True d1 d2 Some show ?thesis by (metis option.distinct(1))
    next
      case None
      with True assms(3) l n obtain b r3 where b: "named_profile_has_any_binding w d r2 (the uuid) = (Inr b, r3)"
        and p: "p = merge_profile_deny_dominant legacy (if b then Some disabled_profile else None)"
        by (auto simp: lookup_profile_with_cache_def split: prod.splits sum.splits)
      from p assms(4) have leg: "permits legacy f" and nb: "\<not> b"
        by (auto simp: merge_permits split: if_splits)
      obtain d3 where "recent hist w d d3" "b = has_binding_row d3 (the uuid)"
        using bindings_recent[OF ok2 b] by (auto simp: recent_insert)
      with d1 d2 leg nb None True show ?thesis by (metis permits_None)
    qed
  qed
qed

definition profile_example :: db where
  "profile_example = \<lparr>server_registry = [], entitlement = [], server_role_grant = [],
     mcp_profiles = [\<lparr>pr_profile_id = ''alice'', pr_mcp_name = ''notes'', pr_enabled = True, pr_functions = Some [''read'']\<rparr>],
     profile_mcp_bindings = [\<lparr>pr_profile_id = ''u1'', pr_mcp_name = ''notes'', pr_enabled = True, pr_functions = None\<rparr>],
     client_limits = []\<rparr>"

theorem profile_lookup_sound_witness:
  "(\<exists>d1. recent {} (calm_world 9) profile_example d1 \<and> permits (profile_rows d1 (Legacy, ''alice'', ''notes'')) ''read'')
   \<and> (\<exists>d2. recent {} (calm_world 9) profile_example d2 \<and> permits (profile_rows d2 (Named, ''u1'', ''notes'')) ''read'')"
proof -
  let ?o = "lookup_profile_with_cache (calm_world 9) profile_example empty_redis ''alice'' ''notes'' (Some ''u1'')"
  have v: "valid_tool_name ''notes''" by code_simp
  have "fst ?o = Inr (Some \<lparr>pf_enabled = True, pf_functions = Some [''read'']\<rparr>)" by code_simp
  then have o: "?o = (Inr (Some \<lparr>pf_enabled = True, pf_functions = Some [''read'']\<rparr>), snd ?o)"
    by (metis prod.collapse)
  have c: "caches_ok {} empty_redis" by (simp add: caches_ok_def prof.coherent_def binds.coherent_def)
  have p: "permits (Some \<lparr>pf_enabled = True, pf_functions = Some [''read'']\<rparr>) ''read''" by code_simp
  have "str_true (Some ''u1'')" by simp
  with profile_lookup_sound[OF c v o p] show ?thesis by auto
qed

text \<open>
  A tool with no row under a configured named profile is denied: with a database that
  answers and empty caches, the resolved profile permits no function of an unbound tool once the
  profile has a binding for any tool, and an unconfigured profile leaves the identity's own row as it is.
\<close>

theorem named_profile_default_deny:
  assumes "\<And>k. r_kv r k = None" and "\<And>q. db_ok w q" and "uuid \<noteq> []"
    and "profile_rows d (Named, uuid, tool) = None"
  shows "\<exists>p r'. lookup_profile_with_cache w d r client tool (Some uuid) = (Inr p, r')
    \<and> (if has_binding_row d uuid then \<not> permits p f
        else permits p f = permits (profile_rows d (Legacy, client, tool)) f)"
proof -
  have miss: "try_get w r k = None" for k
    using assms(1) by (simp add: try_get_def redis_get_def)
  have g: "r_kv (try_setex w q k ttl v) k' = r_kv q k'" if "k' \<noteq> k" for q k k' ttl v
    using that by (simp add: try_setex_def redis_setex_def)
  let ?kl = "profile_key (Legacy, client, tool)" and ?kn = "profile_key (Named, uuid, tool)"
  have diff: "?kn \<noteq> ?kl" "bindings_key uuid \<noteq> ?kl" by (auto simp: profile_key_def bindings_key_def)
  obtain r1 where r1: "lookup_profile_source w d r (Legacy, client, tool) = (Inr (profile_rows d (Legacy, client, tool)), r1)"
    and r1': "r1 = try_setex w r ?kl PROFILE_CACHE_TTL_SECONDS (profile_enc (profile_rows d (Legacy, client, tool)))"
    using miss assms(2) by (simp add: lookup_profile_source_def lookup_profile_db_def)
  have miss1: "try_get w r1 ?kn = None"
    using g[OF diff(1)] r1' assms(1) by (simp add: try_get_def redis_get_def)
  obtain r2 where r2: "lookup_profile_source w d r1 (Named, uuid, tool) = (Inr None, r2)"
    and r2': "r2 = try_setex w r1 ?kn PROFILE_CACHE_TTL_SECONDS (profile_enc None)"
    using miss1 assms(2,4) by (simp add: lookup_profile_source_def lookup_profile_db_def)
  have "try_get w r2 (bindings_key uuid) = None \<or> (\<exists>t. try_get w r2 (bindings_key uuid) = Some (CText t))"
  proof (cases "bindings_key uuid = ?kn")
    case True
    then show ?thesis using r2' r1' diff assms(1) g
      by (auto simp: try_setex_def try_get_def redis_get_def redis_setex_def profile_enc_def)
  next
    case False
    then show ?thesis using g r2' r1' diff assms(1) by (simp add: try_get_def redis_get_def)
  qed
  then have "fst (named_profile_has_any_binding w d r2 uuid) = Inr (has_binding_row d uuid)"
    using assms(2) by (auto simp: named_profile_has_any_binding_def)
  then obtain r3 where r3: "named_profile_has_any_binding w d r2 uuid = (Inr (has_binding_row d uuid), r3)"
    by (metis prod.collapse)
  have "lookup_profile_with_cache w d r client tool (Some uuid) = (Inr (merge_profile_deny_dominant
      (profile_rows d (Legacy, client, tool)) (if has_binding_row d uuid then Some disabled_profile else None)), r3)"
    using r1 r2 r3 assms(3) by (simp add: lookup_profile_with_cache_def)
  then show ?thesis
    by (simp add: merge_permits)
qed

theorem named_profile_default_deny_witness:
  "\<exists>p r'. lookup_profile_with_cache (calm_world 9) profile_example empty_redis ''alice'' ''wiki'' (Some ''u1'') = (Inr p, r')
    \<and> \<not> permits p ''read''"
proof -
  have "profile_rows profile_example (Named, ''u1'', ''wiki'') = None" and "has_binding_row profile_example ''u1''"
    by code_simp+
  then show ?thesis
    using named_profile_default_deny[of empty_redis "calm_world 9" "''u1''" profile_example "''wiki''" "''alice''" "''read''"]
    by simp
qed

end
