(* ===== verification/Authz.thy ===== *)
theory Authz
  imports Profile
begin

section \<open>The authorization policy\<close>

text \<open>
  \<^verbatim>\<open>policies/rego/authz.rego\<close> and \<^verbatim>\<open>policies/rego/anomaly.rego\<close>, rule by rule. A rule with several
  bodies is their disjunction; a reference to an absent field is undefined, so the body that reads
  it fails and its negation holds. The fields a caller may leave out are options. The set of deny
  reasons is a list here, in the order of the rules.
\<close>

subsection \<open>Input and data documents\<close>

record opa_input =
  in_client_id :: string
  in_client_roles :: "string list"
  in_tool_name :: string
  in_tool_status :: string
  in_tool_risk_level :: string
  in_tool_server_id :: "string option"
  in_owned_server_ids :: "string list option"
  in_owner_max_risk_level :: "string option"
  in_params :: json
  in_anomaly_score :: "rat option"
  in_anomaly_cutoff :: "rat option"
  in_is_testing :: "bool option"
  in_profile :: "profile option"
  in_tool_function_name :: "string option"
  in_recent_calls :: "string list option"   \<comment> \<open>the tool names; the rules do not read the timestamps\<close>
  in_is_platform_meta :: "bool option"

record opa_grant =
  gr_allowed_tools :: "string list option"
  gr_allowed_tags :: "string list option"
  gr_max_risk_level :: "string option"

record opa_data =
  od_grants :: "string \<Rightarrow> opa_grant option"   \<comment> \<open>\<open>data.mcp_grants\<close>\<close>
  od_tool_tags :: "string \<Rightarrow> string list option"   \<comment> \<open>\<open>data.mcp.tools[name].tags\<close>\<close>
  od_phrases :: "string list"   \<comment> \<open>\<open>data.mcp.injection_phrases\<close>\<close>

definition opt_mem :: "'a \<Rightarrow> 'a list option \<Rightarrow> bool" where
  "opt_mem x xs = (case xs of None \<Rightarrow> False | Some ys \<Rightarrow> x \<in> set ys)"

subsection \<open>Helper rules\<close>

definition has_role :: "opa_input \<Rightarrow> string list \<Rightarrow> bool" where
  "has_role i rs = (\<exists>role \<in> set (in_client_roles i). role \<in> set rs)"

definition tool_is_active :: "opa_input \<Rightarrow> bool" where
  "tool_is_active i = (in_tool_status i = ''active'')"

definition tool_allowed_for_client :: "opa_data \<Rightarrow> string \<Rightarrow> string \<Rightarrow> bool" where
  "tool_allowed_for_client d client_id tool_name =
     (case od_grants d client_id of None \<Rightarrow> False | Some g \<Rightarrow> opt_mem tool_name (gr_allowed_tools g))"

definition tag_allowed_for_client :: "opa_data \<Rightarrow> string \<Rightarrow> string \<Rightarrow> bool" where
  "tag_allowed_for_client d client_id tool_name =
     (case od_grants d client_id of
        None \<Rightarrow> False
      | Some g \<Rightarrow>
          (case gr_allowed_tags g of
             None \<Rightarrow> False
           | Some tags \<Rightarrow> \<exists>tag \<in> set tags. opt_mem tag (od_tool_tags d tool_name)))"

definition platform_meta_tool_roles :: "(string \<times> string list) list" where
  "platform_meta_tool_roles =
     [(''platform_info'', [''admin'', ''analyst'', ''viewer'']),
      (''security_pulse_summary'', [''admin'', ''analyst'']),
      (''list_registered_tools'', [''admin'', ''analyst'']),
      (''enrollment_status'', [''admin'', ''analyst'', ''viewer'']),
      (''list_available_mcps'', [''admin'', ''analyst'', ''viewer'', ''editor'', ''platform_admin'', ''agent'']),
      (''get_my_profile'', [''admin'', ''analyst'', ''viewer'', ''editor'', ''platform_admin'', ''agent'']),
      (''enable_mcp_server'', [''admin'', ''analyst'', ''editor'', ''platform_admin'', ''agent'']),
      (''disable_mcp_server'', [''admin'', ''analyst'', ''editor'', ''platform_admin'', ''agent''])]"

definition is_platform_meta_tool :: "opa_input \<Rightarrow> bool" where
  "is_platform_meta_tool i =
     (in_is_platform_meta i = Some True \<and> map_of platform_meta_tool_roles (in_tool_name i) \<noteq> None)"

definition caller_may_use_meta_tool :: "opa_input \<Rightarrow> bool" where
  "caller_may_use_meta_tool i =
     (case map_of platform_meta_tool_roles (in_tool_name i) of None \<Rightarrow> False | Some rs \<Rightarrow> has_role i rs)"

definition owns_tool_server :: "opa_input \<Rightarrow> bool" where
  "owns_tool_server i =
     (case in_tool_server_id i of None \<Rightarrow> False | Some sid \<Rightarrow> sid \<noteq> [] \<and> opt_mem sid (in_owned_server_ids i))"

definition client_has_invoke_permission :: "opa_data \<Rightarrow> opa_input \<Rightarrow> bool" where
  "client_has_invoke_permission d i =
     (has_role i [''agent'', ''user''] \<and> tool_allowed_for_client d (in_client_id i) (in_tool_name i)
      \<or> has_role i [''agent'', ''user''] \<and> tag_allowed_for_client d (in_client_id i) (in_tool_name i)
      \<or> has_role i [''admin'', ''platform_admin''] \<and> in_tool_status i = ''active''
      \<or> has_role i [''analyst''] \<and> tool_allowed_for_client d (in_client_id i) (in_tool_name i)
      \<or> in_client_id i = ''platform_internal'' \<and> tool_allowed_for_client d ''platform_internal'' (in_tool_name i)
      \<or> has_role i [''server_owner'', ''manager''] \<and> owns_tool_server i
      \<or> caller_may_use_meta_tool i)"

definition admin_has_test_permission :: "opa_data \<Rightarrow> opa_input \<Rightarrow> bool" where
  "admin_has_test_permission d i =
     (tool_allowed_for_client d (in_client_id i) (in_tool_name i)
      \<or> tag_allowed_for_client d (in_client_id i) (in_tool_name i))"

definition risk_level_value :: "(string \<times> int) list" where
  "risk_level_value = [(''low'', 1), (''medium'', 2), (''high'', 3), (''critical'', 4)]"

definition risk_le :: "string \<Rightarrow> string option \<Rightarrow> bool" where
  "risk_le a b = (case b of None \<Rightarrow> False
     | Some b \<Rightarrow> (case (map_of risk_level_value a, map_of risk_level_value b) of
                    (Some x, Some y) \<Rightarrow> x \<le> y | _ \<Rightarrow> False))"

definition client_max_risk :: "opa_data \<Rightarrow> string \<Rightarrow> string option" where
  "client_max_risk d client_id =
     (case od_grants d client_id of None \<Rightarrow> None | Some g \<Rightarrow> gr_max_risk_level g)"

definition risk_level_within_threshold :: "opa_data \<Rightarrow> opa_input \<Rightarrow> bool" where
  "risk_level_within_threshold d i =
     (risk_le (in_tool_risk_level i) (client_max_risk d (in_client_id i))
      \<or> is_platform_meta_tool i
      \<or> owns_tool_server i \<and> risk_le (in_tool_risk_level i) (in_owner_max_risk_level i))"

definition anomaly_cutoff :: "opa_input \<Rightarrow> rat" where
  "anomaly_cutoff i = (case in_anomaly_cutoff i of Some c \<Rightarrow> c | None \<Rightarrow> 0.85)"

definition anomaly_threshold_exceeded :: "opa_input \<Rightarrow> bool" where
  "anomaly_threshold_exceeded i = (case in_anomaly_score i of None \<Rightarrow> False | Some s \<Rightarrow> anomaly_cutoff i < s)"

definition is_liveness_probe :: "opa_input \<Rightarrow> bool" where
  "is_liveness_probe i = (in_tool_name i = ''ping'')"

text \<open>The string leaves that \<open>walk\<close> yields; object keys are not among them.\<close>

fun all_string_values :: "json \<Rightarrow> string list" where
  "all_string_values (JStr s) = [s]"
| "all_string_values (JArr xs) = concat (map all_string_values xs)"
| "all_string_values (JObj kvs) = concat (map (\<lambda>kv. all_string_values (snd kv)) kvs)"
| "all_string_values JNull = []"
| "all_string_values (JBool b) = []"
| "all_string_values (JInt n) = []"
| "all_string_values (JFloat s) = []"

definition sensitive_path_patterns :: "string list" where
  "sensitive_path_patterns =
     [''../../../'', ''..'' @ [CHR 0x5C], ''~/.ssh'', ''~/.gnupg'', ''~/.aws'', ''/etc/passwd'', ''/etc/shadow'',
      ''/etc/sudoers'', ''/proc/'', ''/sys/'', ''/dev/'']"

definition matches_sensitive_path :: "string \<Rightarrow> bool" where
  "matches_sensitive_path s = (\<exists>p \<in> set sensitive_path_patterns. contains_sub p (lower s))"

definition dangerous_schemes :: "string list" where
  "dangerous_schemes = [''file://'', ''javascript:'', ''data:'', ''vbscript:'', ''gopher://'']"

definition matches_dangerous_scheme :: "string \<Rightarrow> bool" where
  "matches_dangerous_scheme s = (\<exists>p \<in> set dangerous_schemes. startswith (lower s) p)"

definition matches_prompt_injection :: "opa_data \<Rightarrow> string \<Rightarrow> bool" where
  "matches_prompt_injection d s = (\<exists>p \<in> set (od_phrases d). contains_sub p (lower s))"

subsection \<open>Structural anomaly rules\<close>

definition count_calls :: "(string \<Rightarrow> bool) \<Rightarrow> string list \<Rightarrow> int" where
  "count_calls P calls = int (length (filter P calls))"

definition web_search_then_bulk_read :: "string list \<Rightarrow> bool" where
  "web_search_then_bulk_read calls =
     (2 \<le> count_calls (\<lambda>t. t = ''web_search'') calls \<and> 5 \<le> count_calls (contains_sub ''file_read'') calls)"

definition bulk_read_spike :: "string list \<Rightarrow> bool" where
  "bulk_read_spike calls = (10 < count_calls (contains_sub ''file'') calls)"

definition is_cred_tool :: "string \<Rightarrow> bool" where
  "is_cred_tool name = (\<exists>p \<in> set [''secret'', ''credential'', ''vault'', ''env'']. contains_sub p name)"

definition is_exec_tool :: "string \<Rightarrow> bool" where
  "is_exec_tool name = (\<exists>p \<in> set [''exec'', ''shell'', ''run'', ''command'']. contains_sub p name)"

definition credential_then_exec :: "string list \<Rightarrow> bool" where
  "credential_then_exec calls = (1 \<le> count_calls is_cred_tool calls \<and> 1 \<le> count_calls is_exec_tool calls)"

definition structural_deny_reasons :: "string list \<Rightarrow> string list" where
  "structural_deny_reasons calls =
     (if web_search_then_bulk_read calls then [''exfiltration_chain_detected''] else [])
     @ (if bulk_read_spike calls then [''bulk_file_read_spike''] else [])
     @ (if credential_then_exec calls then [''credential_access_then_exec''] else [])"

definition anomaly_structural_deny_reasons :: "opa_input \<Rightarrow> string list" where
  "anomaly_structural_deny_reasons i =
     (case in_recent_calls i of None \<Rightarrow> [] | Some calls \<Rightarrow> structural_deny_reasons calls)"

subsection \<open>Profile rules\<close>

definition mcp_disabled_for_profile :: "opa_input \<Rightarrow> bool" where
  "mcp_disabled_for_profile i = (case in_profile i of None \<Rightarrow> False | Some p \<Rightarrow> \<not> pf_enabled p)"

definition function_not_allowed_for_profile :: "opa_input \<Rightarrow> bool" where
  "function_not_allowed_for_profile i =
     (case in_profile i of None \<Rightarrow> False
      | Some p \<Rightarrow>
          (case pf_functions p of None \<Rightarrow> False
           | Some fs \<Rightarrow> fs \<noteq> [] \<and>
               (case in_tool_function_name i of None \<Rightarrow> False | Some f \<Rightarrow> f = [] \<or> f \<notin> set fs)))"

subsection \<open>Decision\<close>

definition deny_rules :: "opa_data \<Rightarrow> opa_input \<Rightarrow> (string \<times> bool) list" where
  "deny_rules d i =
     (let strings = all_string_values (in_params i) in
     [(''tool_quarantined'', in_tool_status i = ''quarantined''),
      (''tool_deprecated'', in_tool_status i = ''deprecated''),
      (''client_not_authorized_for_tool'', \<not> client_has_invoke_permission d i),
      (''risk_level_exceeds_threshold'', \<not> risk_level_within_threshold d i),
      (''anomaly_threshold_exceeded'',
         anomaly_threshold_exceeded i \<and> in_is_testing i \<noteq> Some True \<and> \<not> is_liveness_probe i),
      (''suspicious_parameter_pattern'', \<exists>s \<in> set strings. matches_prompt_injection d s),
      (''suspicious_path_argument'', \<exists>s \<in> set strings. matches_sensitive_path s),
      (''suspicious_url_scheme'', \<exists>s \<in> set strings. matches_dangerous_scheme s),
      (''meta_tool_role_not_authorized'', is_platform_meta_tool i \<and> \<not> caller_may_use_meta_tool i),
      (''mcp_disabled_for_profile'', mcp_disabled_for_profile i),
      (''function_not_allowed_for_profile'', function_not_allowed_for_profile i)])"

definition deny :: "opa_data \<Rightarrow> opa_input \<Rightarrow> string list" where
  "deny d i = map fst (filter snd (deny_rules d i)) @ anomaly_structural_deny_reasons i"

definition allow :: "opa_data \<Rightarrow> opa_input \<Rightarrow> bool" where
  "allow d i =
     (deny d i = [] \<and> tool_is_active i \<and> client_has_invoke_permission d i
        \<and> risk_level_within_threshold d i \<and> \<not> anomaly_threshold_exceeded i
      \<or> in_is_testing i = Some True \<and> has_role i [''admin'', ''platform_admin''] \<and> tool_is_active i
        \<and> admin_has_test_permission d i \<and> risk_level_within_threshold d i \<and> deny d i = [])"

subsection \<open>Facts on the decision\<close>

lemma deny_Nil:
  "deny d i = [] \<longleftrightarrow> (\<forall>r \<in> set (deny_rules d i). \<not> snd r) \<and> anomaly_structural_deny_reasons i = []"
  by (auto simp: deny_def filter_empty_conv)

lemma allow_deny: "allow d i \<Longrightarrow> deny d i = []"
  by (auto simp: allow_def)

lemma deny_Nil_facts:
  assumes "deny d i = []"
  shows "in_tool_status i \<noteq> ''quarantined''" "in_tool_status i \<noteq> ''deprecated''"
    "client_has_invoke_permission d i" "risk_level_within_threshold d i"
    "anomaly_threshold_exceeded i \<Longrightarrow> in_is_testing i \<noteq> Some True \<Longrightarrow> is_liveness_probe i"
    "s \<in> set (all_string_values (in_params i)) \<Longrightarrow>
       \<not> matches_prompt_injection d s \<and> \<not> matches_sensitive_path s \<and> \<not> matches_dangerous_scheme s"
    "is_platform_meta_tool i \<Longrightarrow> caller_may_use_meta_tool i"
    "\<not> mcp_disabled_for_profile i" "\<not> function_not_allowed_for_profile i"
    "anomaly_structural_deny_reasons i = []"
  using assms unfolding deny_Nil deny_rules_def Let_def by auto

lemma profile_rules_permit:
  assumes "in_tool_function_name i = Some f"
  shows "\<not> mcp_disabled_for_profile i \<and> \<not> function_not_allowed_for_profile i \<longleftrightarrow> permits (in_profile i) f"
  using assms
  by (auto simp: mcp_disabled_for_profile_def function_not_allowed_for_profile_def permits_def functions_of_def
      split: option.splits)

lemma risk_le_trans:
  "map_of risk_level_value a = Some x \<Longrightarrow> map_of risk_level_value b = Some y \<Longrightarrow> x \<le> y \<Longrightarrow>
     risk_le b m \<Longrightarrow> risk_le a m"
  by (auto simp: risk_le_def split: option.splits)

lemma risk_within_mono:
  assumes "risk_level_within_threshold d i" and "map_of risk_level_value lo = Some x"
    and "map_of risk_level_value (in_tool_risk_level i) = Some y" and "x \<le> y"
  shows "risk_level_within_threshold d (i\<lparr>in_tool_risk_level := lo\<rparr>)"
  using assms risk_le_trans[OF assms(2,3,4)]
  by (auto simp: risk_level_within_threshold_def is_platform_meta_tool_def owns_tool_server_def cong: option.case_cong)

lemmas permission_defs = client_has_invoke_permission_def has_role_def tool_is_active_def owns_tool_server_def
  caller_may_use_meta_tool_def admin_has_test_permission_def anomaly_threshold_exceeded_def anomaly_cutoff_def
  is_liveness_probe_def is_platform_meta_tool_def mcp_disabled_for_profile_def
  function_not_allowed_for_profile_def anomaly_structural_deny_reasons_def

lemma allow_lower_risk:
  assumes "allow d i" and "map_of risk_level_value lo = Some x"
    and "map_of risk_level_value (in_tool_risk_level i) = Some y" and "x \<le> y"
  shows "allow d (i\<lparr>in_tool_risk_level := lo\<rparr>)"
proof -
  let ?j = "i\<lparr>in_tool_risk_level := lo\<rparr>"
  have same: "client_has_invoke_permission d ?j = client_has_invoke_permission d i"
    "anomaly_threshold_exceeded ?j = anomaly_threshold_exceeded i" "tool_is_active ?j = tool_is_active i"
    "has_role ?j rs = has_role i rs" "admin_has_test_permission d ?j = admin_has_test_permission d i"
    "is_liveness_probe ?j = is_liveness_probe i" "is_platform_meta_tool ?j = is_platform_meta_tool i"
    "caller_may_use_meta_tool ?j = caller_may_use_meta_tool i"
    "mcp_disabled_for_profile ?j = mcp_disabled_for_profile i"
    "function_not_allowed_for_profile ?j = function_not_allowed_for_profile i"
    "anomaly_structural_deny_reasons ?j = anomaly_structural_deny_reasons i" for rs
    by (simp_all add: permission_defs cong: option.case_cong)
  have r: "risk_level_within_threshold d ?j"
    using deny_Nil_facts(4)[OF allow_deny[OF assms(1)]] risk_within_mono assms(2-4) by blast
  have "deny d ?j = []"
    using allow_deny[OF assms(1)] r unfolding deny_Nil deny_rules_def Let_def by (auto simp: same)
  with assms(1) r show ?thesis unfolding allow_def same by auto
qed

subsection \<open>Properties\<close>


definition authz_example_data :: opa_data where
  "authz_example_data =
     \<lparr>od_grants = (\<lambda>_. None)(''alice'' := Some \<lparr>gr_allowed_tools = Some [''notes''], gr_allowed_tags = None,
        gr_max_risk_level = Some ''medium''\<rparr>),
      od_tool_tags = (\<lambda>_. None), od_phrases = [''ignore previous'', ''system:'']\<rparr>"

definition authz_example_input :: opa_input where
  "authz_example_input =
     \<lparr>in_client_id = ''alice'', in_client_roles = [''agent''], in_tool_name = ''notes'', in_tool_status = ''active'',
      in_tool_risk_level = ''medium'', in_tool_server_id = Some [], in_owned_server_ids = Some [],
      in_owner_max_risk_level = Some ''medium'',
      in_params = JObj [(''q'', JArr [JStr ''meeting notes''])], in_anomaly_score = Some 0, in_anomaly_cutoff = Some 0.85,
      in_is_testing = Some False, in_profile = Some \<lparr>pf_enabled = True, pf_functions = Some [''read'']\<rparr>,
      in_tool_function_name = Some ''read'', in_recent_calls = Some [''notes''], in_is_platform_meta = None\<rparr>"


text \<open>
  Lowering the risk level of a tool never turns an allowed call into a denied one.
\<close>

theorem allow_antimono_in_risk:
  assumes "allow d i" and "risk_le lo (Some (in_tool_risk_level i))"
  shows "allow d (i\<lparr>in_tool_risk_level := lo\<rparr>)"
proof -
  from assms(2) obtain x y where "map_of risk_level_value lo = Some x"
    "map_of risk_level_value (in_tool_risk_level i) = Some y" "x \<le> y"
    by (auto simp: risk_le_def split: option.splits)
  with assms(1) show ?thesis by (rule allow_lower_risk)
qed

theorem allow_antimono_in_risk_witness:
  "allow authz_example_data (authz_example_input\<lparr>in_tool_risk_level := ''low''\<rparr>)"
proof -
  have "allow authz_example_data authz_example_input" by code_simp
  moreover have "risk_le ''low'' (Some (in_tool_risk_level authz_example_input))" by code_simp
  ultimately show ?thesis by (rule allow_antimono_in_risk)
qed

text \<open>
  The liveness exemption of \<open>ping\<close> has no effect: above the anomaly cutoff a \<open>ping\<close> that
  passes every deny rule is still not allowed, and the caller gets no reason.
\<close>

theorem ping_not_exempt:
  "deny (authz_example_data\<lparr>od_grants := (\<lambda>_. Some \<lparr>gr_allowed_tools = Some [''ping''], gr_allowed_tags = None,
      gr_max_risk_level = Some ''low''\<rparr>)\<rparr>)
     (authz_example_input\<lparr>in_tool_name := ''ping'', in_tool_risk_level := ''low'', in_anomaly_score := Some 0.9\<rparr>) = []
   \<and> \<not> allow (authz_example_data\<lparr>od_grants := (\<lambda>_. Some \<lparr>gr_allowed_tools = Some [''ping''], gr_allowed_tags = None,
      gr_max_risk_level = Some ''low''\<rparr>)\<rparr>)
     (authz_example_input\<lparr>in_tool_name := ''ping'', in_tool_risk_level := ''low'', in_anomaly_score := Some 0.9\<rparr>)"
  by code_simp


end
