(* ===== verification/Policy.thy ===== *)
theory Policy
  imports Authz
begin

section \<open>The policy client and the deny table\<close>

text \<open>
  \<^verbatim>\<open>proxy/app/services/policy.py\<close>: \<open>evaluate_policy\<close> on every answer the OPA sidecar may give, and
  \<open>deny_remediation\<close>; \<^verbatim>\<open>proxy/app/services/deny_map.py\<close>: \<open>classify_deny\<close>, the client-facing error of
  every pipeline exception. OPA itself is a service: its reply is an argument.
\<close>

subsection \<open>\<open>evaluate_policy\<close>\<close>

text \<open>What the HTTP call gives: no response, or a status and a body that may not be JSON.\<close>

datatype opa_reply = OpaNoResponse string | OpaResponse int "json option"

record opa_decision =
  dec_allow :: bool
  dec_reasons :: "string list"
  dec_id :: "string option"

text \<open>\<open>list(x)\<close> of a JSON value whose elements are strings.\<close>

definition py_list :: "json \<Rightarrow> exn + string list" where
  "py_list j = (case j of
       JArr xs \<Rightarrow> Inr (List.map_filter jstr xs)
     | JStr s \<Rightarrow> Inr (map (\<lambda>c. [c]) s)
     | JObj kvs \<Rightarrow> Inr (map fst kvs)
     | _ \<Rightarrow> Inl (TypeError ''object is not iterable''))"

definition evaluate_policy :: "opa_reply \<Rightarrow> exn + opa_decision" where
  "evaluate_policy reply =
     (case reply of
        OpaNoResponse e \<Rightarrow> Inl (OPAUnavailableError e)
      | OpaResponse status body \<Rightarrow>
          if status \<noteq> 200 then Inl (OPAUnavailableError ''OPA HTTP status'')
          else case body of
            None \<Rightarrow> Inl (OPAUnavailableError ''OPA returned invalid JSON'')
          | Some b \<Rightarrow>
              if \<not> is_obj b then Inl (AttributeError ''get'')
              else let raw = jlookup b ''result'';
                       result = (case raw of Some r \<Rightarrow> if is_obj r then r else JObj [] | None \<Rightarrow> JObj []);
                       allowed = (case jlookup result ''allow'' of Some a \<Rightarrow> truthy a | None \<Rightarrow> False)
                   in case py_list (case jlookup result ''reasons'' of Some rs \<Rightarrow> rs | None \<Rightarrow> JArr []) of
                        Inl e \<Rightarrow> Inl e
                      | Inr reasons \<Rightarrow>
                          Inr \<lparr>dec_allow = allowed, dec_reasons = reasons,
                               dec_id = (case jlookup b ''decision_id'' of Some (JStr s) \<Rightarrow> Some s | _ \<Rightarrow> None)\<rparr>)"

text \<open>What OPA answers when it evaluates the policy on an input: the documents \<open>allow\<close> and \<open>reasons\<close>.\<close>

definition opa_answer :: "opa_data \<Rightarrow> opa_input \<Rightarrow> json" where
  "opa_answer d i = JObj [(''result'', JObj [(''allow'', JBool (allow d i)), (''reasons'', JArr (map JStr (deny d i)))])]"

subsection \<open>\<open>deny_remediation\<close>\<close>

definition DENY_REMEDIATION :: "(string \<times> string) list" where
  "DENY_REMEDIATION =
     [(''mcp_disabled_for_profile'',
       ''This tool is disabled in your profile. Call get_my_profile to see what is disabled, then enable_mcp_server to re-enable it. If you are using a named profile (X-MCP-Profile / ?profile=), that profile also restricts you and only an administrator can change it.''),
      (''function_not_allowed_for_profile'',
       ''This specific function is not in your profile's allowed-function list for this tool. Call get_my_profile to see the allowed functions, then enable_function to add one back.''),
      (''anomaly_threshold_exceeded'',
       ''Your recent call pattern crossed the anomaly cutoff for this client. Wait for the window to roll off, or ask an administrator to review the threshold.''),
      (''not_entitled_to_server'',
       ''You are not entitled to the MCP server backing this tool. Request access from the server's owner; being able to see a tool never implies permission to call it.'')]"

definition remediation_of :: "string \<Rightarrow> string option" where
  "remediation_of reason =
     (case map_of DENY_REMEDIATION reason of
        Some h \<Rightarrow> Some h
      | None \<Rightarrow> map_of DENY_REMEDIATION (fst (partition_on CHR '':'' reason)))"

fun deny_remediation :: "string list \<Rightarrow> string option" where
  "deny_remediation [] = None"
| "deny_remediation (reason # reasons) =
     (case remediation_of reason of Some h \<Rightarrow> Some h | None \<Rightarrow> deny_remediation reasons)"

subsection \<open>\<open>classify_deny\<close>\<close>

text \<open>A dash in a message is written as a hyphen.\<close>

record deny_info =
  di_reason :: string
  di_message :: string
  di_http_status :: int
  di_jsonrpc_code :: int
  di_reasons :: "string list option"   \<comment> \<open>\<open>data["reasons"]\<close>\<close>
  di_remediation :: "string option"   \<comment> \<open>\<open>data["remediation"]\<close>\<close>

definition DENIED :: int where "DENIED = -32003"

definition plain_deny :: "string \<Rightarrow> string \<Rightarrow> int \<Rightarrow> deny_info" where
  "plain_deny reason message status =
     \<lparr>di_reason = reason, di_message = message, di_http_status = status, di_jsonrpc_code = DENIED,
      di_reasons = None, di_remediation = None\<rparr>"

fun classify_deny :: "exn \<Rightarrow> deny_info option" where
  "classify_deny (NotEntitledError sid reason) = Some (plain_deny ''not_entitled''
     ''Access denied: not entitled to this tool's server. Being able to see a tool never implies permission to call it - request access from the server's owner.'' 403)"
| "classify_deny (ScanFreshnessError last_scan) = Some (plain_deny ''scan_stale''
     ''Access denied: this server's supply-chain scan is stale. It must be re-scanned before its tools can be called again.'' 403)"
| "classify_deny (ServerInMaintenanceError sid) = Some (plain_deny ''server_in_maintenance''
     ''This MCP server is in maintenance. Only its owner and maintainers can call it right now - there is deliberately no admin override.'' 403)"
| "classify_deny (TaintFloorDenyError n) = Some (plain_deny ''taint_floor''
     ''Access denied: this session is restricted by trust policy. A result derived from an untrusted or not-yet-reviewed source cannot flow into this tool.'' 403)"
| "classify_deny ToolQuarantinedError = Some (plain_deny ''tool_quarantined''
     ''This tool is quarantined pending review and cannot be called.'' 403)"
| "classify_deny ToolDisabledError = Some (plain_deny ''tool_disabled''
     ''This tool is disabled and cannot be called.'' 403)"
| "classify_deny ToolDeprecatedError = Some (plain_deny ''tool_deprecated''
     ''This tool is deprecated and no longer callable. Check the catalog for a replacement.'' 410)"
| "classify_deny (OPADenyError reasons) =
     (let help = deny_remediation reasons in
      Some \<lparr>di_reason = ''opa_deny'',
        di_message = ''Access denied by policy'' @ (case help of None \<Rightarrow> [] | Some h \<Rightarrow> ''. '' @ h),
        di_http_status = 403, di_jsonrpc_code = DENIED, di_reasons = Some reasons, di_remediation = help\<rparr>)"
| "classify_deny (OPAUnavailableError m) = Some (plain_deny ''opa_unavailable''
     ''Authorization is temporarily unavailable, so the call was denied. This is fail-closed behaviour - retry shortly.'' 503)"
| "classify_deny _ = None"

subsection \<open>Properties\<close>

lemma deny_remediation_first:
  "deny_remediation rs = (case find (\<lambda>r. remediation_of r \<noteq> None) rs of None \<Rightarrow> None | Some r \<Rightarrow> remediation_of r)"
  by (induction rs) (auto split: option.splits)

text \<open>
  Property C35. The policy client allows only on an explicit truthy \<open>allow\<close> in a JSON object of a 200
  answer; on an answer of OPA evaluating the policy it returns exactly the policy's decision and
  reasons; with no answer, another status or a body that is not JSON it raises \<open>OPAUnavailableError\<close>.
\<close>

theorem evaluate_policy_fails_closed:
  "(evaluate_policy reply = Inr dec \<and> dec_allow dec \<longrightarrow>
      (\<exists>b r a. reply = OpaResponse 200 (Some b) \<and> jlookup b ''result'' = Some r \<and> jlookup r ''allow'' = Some a \<and> truthy a))
   \<and> evaluate_policy (OpaResponse 200 (Some (opa_answer d i)))
      = Inr \<lparr>dec_allow = allow d i, dec_reasons = deny d i, dec_id = None\<rparr>
   \<and> (case reply of OpaNoResponse e \<Rightarrow> True | OpaResponse st b \<Rightarrow> st \<noteq> 200 \<or> b = None) =
      (\<exists>m. evaluate_policy reply = Inl (OPAUnavailableError m))"
proof (intro conjI)
  show "evaluate_policy reply = Inr dec \<and> dec_allow dec \<longrightarrow>
      (\<exists>b r a. reply = OpaResponse 200 (Some b) \<and> jlookup b ''result'' = Some r \<and> jlookup r ''allow'' = Some a \<and> truthy a)"
    by (auto simp: evaluate_policy_def Let_def split: opa_reply.splits option.splits sum.splits if_splits)
  show "evaluate_policy (OpaResponse 200 (Some (opa_answer d i)))
      = Inr \<lparr>dec_allow = allow d i, dec_reasons = deny d i, dec_id = None\<rparr>"
    by (simp add: evaluate_policy_def opa_answer_def py_list_def)
  show "(case reply of OpaNoResponse e \<Rightarrow> True | OpaResponse st b \<Rightarrow> st \<noteq> 200 \<or> b = None) =
      (\<exists>m. evaluate_policy reply = Inl (OPAUnavailableError m))"
    by (auto simp: evaluate_policy_def Let_def py_list_def
        split: opa_reply.splits option.splits sum.splits if_splits json.splits)
qed

theorem evaluate_policy_fails_closed_witness:
  "evaluate_policy (OpaResponse 200 (Some (opa_answer authz_example_data authz_example_input)))
     = Inr \<lparr>dec_allow = allow authz_example_data authz_example_input,
            dec_reasons = deny authz_example_data authz_example_input, dec_id = None\<rparr>"
  using evaluate_policy_fails_closed by blast

text \<open>
  Every deny of the pipeline has a client-facing row, with a client error status or 503
  and the deny code, and an error that is not a deny has none; the remediation of a policy deny is that of the first
  reason that has one.
\<close>

theorem classify_deny_exact:
  "(classify_deny e \<noteq> None \<longleftrightarrow>
      (case e of ToolDisabledError \<Rightarrow> True | ToolQuarantinedError \<Rightarrow> True | ToolDeprecatedError \<Rightarrow> True
        | ServerInMaintenanceError _ \<Rightarrow> True | ScanFreshnessError _ \<Rightarrow> True | NotEntitledError _ _ \<Rightarrow> True
        | TaintFloorDenyError _ \<Rightarrow> True | OPADenyError _ \<Rightarrow> True | OPAUnavailableError _ \<Rightarrow> True | _ \<Rightarrow> False))
   \<and> (classify_deny e = Some info \<longrightarrow> di_http_status info \<in> {403, 410, 503} \<and> di_jsonrpc_code info = -32003
        \<and> (di_http_status info = 503 \<longleftrightarrow> (\<exists>m. e = OPAUnavailableError m)))
   \<and> di_remediation (the (classify_deny (OPADenyError rs))) =
        (case find (\<lambda>r. remediation_of r \<noteq> None) rs of None \<Rightarrow> None | Some r \<Rightarrow> remediation_of r)"
  by (cases e) (auto simp: plain_deny_def DENIED_def Let_def deny_remediation_first)

theorem classify_deny_exact_witness:
  "di_jsonrpc_code (plain_deny ''tool_deprecated''
     ''This tool is deprecated and no longer callable. Check the catalog for a replacement.'' 410) = -32003"
  using classify_deny_exact[of ToolDeprecatedError] by simp

text \<open>
  The remediation written for a missing entitlement is unreachable: the reason the
  entitlement gate records starts with \<open>not_entitled:\<close>, for which there is no remediation.
\<close>

theorem entitlement_remediation_unreachable:
  "deny_remediation [''not_entitled:'' @ why] = None"
  by (simp add: remediation_of_def DENY_REMEDIATION_def partition_on_def)

end
