(* ===== verification/JsonText.thy ===== *)
theory JsonText
  imports PyStd "HOL-Library.Char_ord" "HOL-Library.List_Lexorder"
begin

section \<open>JSON text\<close>

text \<open>
  \<open>json.dumps\<close>: the default form, with \<open>", "\<close> and \<open>": "\<close>, that the response filter screens, and the canonical
  form (sorted keys, no blanks) that audit hashes are computed on. Characters outside the printable
  ASCII range are escaped. The canonical text determines the value of a string field: encoded
  strings cannot run into each other.
\<close>

definition hex_char :: "int \<Rightarrow> char" where
  "hex_char d = (if d < 10 then char_of (48 + d) else char_of (87 + d))"

definition hex4 :: "int \<Rightarrow> string" where
  "hex4 n = [hex_char (n div 4096 mod 16), hex_char (n div 256 mod 16), hex_char (n div 16 mod 16), hex_char (n mod 16)]"

text \<open>The characters with a two-character escape, and the second character.\<close>

definition short_escapes :: "(char \<times> char) list" where
  "short_escapes = [(CHR 0x22, CHR 0x22), (CHR 0x5C, CHR 0x5C), (CHR 0x0A, CHR ''n''), (CHR 0x0D, CHR ''r''),
     (CHR 0x09, CHR ''t''), (CHR 0x0C, CHR ''f''), (CHR 0x08, CHR ''b'')]"

definition json_escape_char :: "char \<Rightarrow> string" where
  "json_escape_char c =
     (case map_of short_escapes c of
        Some l \<Rightarrow> [CHR 0x5C, l]
      | None \<Rightarrow>
          if (of_char c :: int) < 32 \<or> 126 < (of_char c :: int)
          then [CHR 0x5C, CHR ''u''] @ hex4 (of_char c) else [c])"

definition json_string :: "string \<Rightarrow> string" where
  "json_string s = [CHR 0x22] @ concat (map json_escape_char s) @ [CHR 0x22]"

function nat_digits :: "int \<Rightarrow> string" where
  "nat_digits n = (if n < 10 then [char_of (48 + n)] else nat_digits (n div 10) @ [char_of (48 + n mod 10)])"
  by pat_completeness auto
termination
  by (relation "measure nat") (auto simp: nat_less_iff)

declare nat_digits.simps [simp del]

definition int_text :: "int \<Rightarrow> string" where
  "int_text n = (if n < 0 then CHR ''-'' # nat_digits (- n) else nat_digits n)"

fun join :: "string \<Rightarrow> string list \<Rightarrow> string" where
  "join sep [] = []"
| "join sep [x] = x"
| "join sep (x # xs) = x @ sep @ join sep xs"

text \<open>\<open>json.dumps\<close> with the two separators; \<open>sk\<close> is \<open>sort_keys\<close>.\<close>

fun dumps :: "bool \<Rightarrow> string \<Rightarrow> string \<Rightarrow> json \<Rightarrow> string" where
  "dumps sk isep ksep JNull = ''null''"
| "dumps sk isep ksep (JBool b) = (if b then ''true'' else ''false'')"
| "dumps sk isep ksep (JInt n) = int_text n"
| "dumps sk isep ksep (JFloat s) = s"
| "dumps sk isep ksep (JStr s) = json_string s"
| "dumps sk isep ksep (JArr xs) = ''['' @ join isep (map (dumps sk isep ksep) xs) @ '']''"
| "dumps sk isep ksep (JObj kvs) =
     (let texts = map (\<lambda>kv. (fst kv, json_string (fst kv) @ ksep @ dumps sk isep ksep (snd kv))) kvs in
      ''{'' @ join isep (map snd (if sk then sort_key fst texts else texts)) @ ''}'')"

definition json_dumps :: "json \<Rightarrow> string" where
  "json_dumps j = dumps False '', '' '': '' j"

definition canonical_json :: "json \<Rightarrow> string" where
  "canonical_json j = dumps True '','' '':'' j"

subsection \<open>Encoded strings are uniquely readable\<close>

lemma hex_char_inj:
  assumes "0 \<le> d" "d < 16" "0 \<le> e" "e < 16" and "hex_char d = hex_char e"
  shows "d = e"
proof -
  have "(of_char (hex_char x) :: int) = (if x < 10 then 48 + x else 87 + x)" if "0 \<le> x" "x < 16" for x
    using that by (simp add: hex_char_def of_char_of)
  from this[OF assms(1,2)] this[OF assms(3,4)] assms(5)
  have "(if d < 10 then 48 + d else 87 + d) = (if e < 10 then 48 + e else 87 + e)" by simp
  with assms(1-4) show ?thesis by (auto split: if_splits)
qed

lemma hex4_value:
  fixes n :: int
  assumes "0 \<le> n" "n < 65536"
  shows "n = 4096 * (n div 4096 mod 16) + 256 * (n div 256 mod 16) + 16 * (n div 16 mod 16) + n mod 16"
proof -
  define a b c where "a = n div 16" and "b = a div 16" and "c = b div 16"
  have "n = 16 * a + n mod 16" "a = 16 * b + a mod 16" "b = 16 * c + b mod 16"
    unfolding a_def b_def c_def by simp_all
  then have "n = 4096 * c + 256 * (b mod 16) + 16 * (a mod 16) + n mod 16" by linarith
  moreover have b: "b = n div 256" and c: "c = n div 4096" by (simp_all add: a_def b_def c_def)
  moreover have "c mod 16 = c" using assms c by simp
  ultimately show ?thesis by (simp only: a_def)
qed

lemma hex4_inj:
  assumes "0 \<le> n" "n < 65536" "0 \<le> m" "m < 65536" and "hex4 n = hex4 m"
  shows "n = m"
proof -
  have eq: "x mod 16 = y mod 16" if "hex_char (x mod 16) = hex_char (y mod 16)" for x y
    by (rule hex_char_inj[OF _ _ _ _ that]) simp_all
  from assms(5) have "n mod 16 = m mod 16" "n div 16 mod 16 = m div 16 mod 16"
    "n div 256 mod 16 = m div 256 mod 16" "n div 4096 mod 16 = m div 4096 mod 16"
    using eq by (simp_all add: hex4_def)
  with hex4_value[OF assms(1,2)] hex4_value[OF assms(3,4)] show ?thesis by linarith
qed

lemma length_hex4 [simp]: "length (hex4 n) = 4"
  by (simp add: hex4_def)

lemma of_char_range: "0 \<le> (of_char c :: int) \<and> (of_char c :: int) < 65536"
proof -
  have "(of_char c :: int) = of_char c mod 256" by simp
  moreover note pos_mod_bound[of "256::int" "of_char c"] pos_mod_sign[of "256::int" "of_char c"]
  ultimately show ?thesis by linarith
qed

lemma short_escape_letter: "map_of short_escapes c = Some l \<Longrightarrow> l \<noteq> CHR ''u''"
  by (auto simp: short_escapes_def split: if_splits)

lemma short_escape_inj: "map_of short_escapes c = Some l \<Longrightarrow> map_of short_escapes d = Some l \<Longrightarrow> c = d"
  by (auto simp: short_escapes_def split: if_splits)

lemma short_escape_None: "map_of short_escapes c = None \<Longrightarrow> c \<noteq> CHR 0x5C \<and> c \<noteq> CHR 0x22"
  by (auto simp: short_escapes_def split: if_splits)

lemma json_escape_char_ne [simp]: "json_escape_char c \<noteq> []"
  by (simp add: json_escape_char_def split: option.split)

lemma json_escape_char_quote: "json_escape_char c @ x \<noteq> CHR 0x22 # y"
  by (auto simp: json_escape_char_def dest: short_escape_None split: option.split)

lemma json_escape_char_cases:
  obtains (plain) "json_escape_char c = [c]" "c \<noteq> CHR 0x5C"
  | (short) l where "json_escape_char c = [CHR 0x5C, l]" "map_of short_escapes c = Some l"
  | (uni) "json_escape_char c = CHR 0x5C # CHR ''u'' # hex4 (of_char c)"
proof (cases "map_of short_escapes c")
  case None
  show ?thesis
  proof (cases "(of_char c :: int) < 32 \<or> 126 < (of_char c :: int)")
    case True
    with None show ?thesis by (intro uni) (simp add: json_escape_char_def)
  next
    case False
    with None short_escape_None[OF None] show ?thesis by (intro plain) (simp_all add: json_escape_char_def)
  qed
next
  case (Some l)
  then show ?thesis by (intro short) (simp_all add: json_escape_char_def)
qed

lemma json_escape_char_unique:
  assumes "json_escape_char c @ x = json_escape_char d @ y"
  shows "c = d \<and> x = y"
proof (cases c rule: json_escape_char_cases)
  case plain
  with assms show ?thesis by (cases d rule: json_escape_char_cases) auto
next
  case (short l)
  with assms show ?thesis
    by (cases d rule: json_escape_char_cases) (auto dest: short_escape_inj short_escape_letter)
next
  case uni
  show ?thesis
  proof (cases d rule: json_escape_char_cases)
    case uni': uni
    with uni assms have "hex4 (of_char c) @ x = hex4 (of_char d) @ y" by simp
    then have "hex4 (of_char c) = hex4 (of_char d)" "x = y" by (simp_all add: append_eq_append_conv)
    moreover from this(1) have "(of_char c :: int) = of_char d"
      using of_char_range hex4_inj by blast
    ultimately show ?thesis by simp
  next
    case (short l)
    with uni assms short_escape_letter[OF short(2)] show ?thesis by simp
  next
    case plain
    with uni assms show ?thesis by simp
  qed
qed

lemma json_chars_unique:
  "concat (map json_escape_char s) @ CHR 0x22 # x = concat (map json_escape_char t) @ CHR 0x22 # y \<Longrightarrow> s = t \<and> x = y"
proof (induction s arbitrary: t)
  case Nil
  show ?case
  proof (cases t)
    case (Cons d t')
    with Nil.prems have "json_escape_char d @ (concat (map json_escape_char t') @ CHR 0x22 # y) = CHR 0x22 # x" by simp
    with json_escape_char_quote show ?thesis by blast
  qed (use Nil.prems in simp)
next
  case (Cons c s)
  show ?case
  proof (cases t)
    case Nil
    with Cons.prems have "json_escape_char c @ (concat (map json_escape_char s) @ CHR 0x22 # x) = CHR 0x22 # y" by simp
    with json_escape_char_quote show ?thesis by blast
  next
    case (Cons d t')
    with Cons.prems have "json_escape_char c @ (concat (map json_escape_char s) @ CHR 0x22 # x)
        = json_escape_char d @ (concat (map json_escape_char t') @ CHR 0x22 # y)" by simp
    from json_escape_char_unique[OF this] Cons.IH[of t'] Cons show ?thesis by simp
  qed
qed

lemma json_string_unique:
  assumes "json_string s @ x = json_string t @ y"
  shows "s = t \<and> x = y"
  using assms json_chars_unique[of s x t y] by (simp add: json_string_def)

end
