(* ===== verification/PyRegex.thy ===== *)
theory PyRegex
  imports PyStd
begin

section \<open>Python regular expressions\<close>

text \<open>
  The part of \<^verbatim>\<open>re\<close> the sources use, with the engine's backtracking order: the results of a match are
  listed in the order in which the engine tries them, so the head is the match Python reports.
  A position is the character before it, if any, and the text from it on. Texts are ASCII.
\<close>

datatype rx =
    Eps
  | Cls "char \<Rightarrow> bool"   \<comment> \<open>a character class\<close>
  | Seq rx rx
  | Alt rx rx   \<comment> \<open>\<open>|\<close>, left first\<close>
  | Star rx   \<comment> \<open>greedy\<close>
  | NotBehind "char \<Rightarrow> bool"   \<comment> \<open>\<open>(?<![...])\<close>\<close>
  | NotAhead "char \<Rightarrow> bool"   \<comment> \<open>\<open>(?![...])\<close>\<close>
  | WordBoundary   \<comment> \<open>\<open>\b\<close>\<close>

type_synonym pos = "char option \<times> string"

definition opt_sat :: "(char \<Rightarrow> bool) \<Rightarrow> char option \<Rightarrow> bool" where
  "opt_sat P c = (case c of None \<Rightarrow> False | Some c \<Rightarrow> P c)"

definition head_sat :: "(char \<Rightarrow> bool) \<Rightarrow> string \<Rightarrow> bool" where
  "head_sat P s = (case s of [] \<Rightarrow> False | c # _ \<Rightarrow> P c)"

definition is_word :: "char \<Rightarrow> bool" where
  "is_word c = (is_alpha c \<or> is_digit c \<or> c = CHR ''_'')"

definition is_space :: "char \<Rightarrow> bool" where
  "is_space c = (let n = (of_char c :: int) in (9 \<le> n \<and> n \<le> 13) \<or> (28 \<le> n \<and> n \<le> 32))"

text \<open>Greedy iteration: a round that consumes nothing is not repeated.\<close>

primrec star_n :: "nat \<Rightarrow> (pos \<Rightarrow> pos list) \<Rightarrow> pos \<Rightarrow> pos list" where
  "star_n 0 f p = [p]"
| "star_n (Suc n) f p =
     concat (map (\<lambda>q. if length (snd q) < length (snd p) then star_n n f q else []) (f p)) @ [p]"

primrec rmatch :: "rx \<Rightarrow> pos \<Rightarrow> pos list" where
  "rmatch Eps p = [p]"
| "rmatch (Cls P) p = (case snd p of [] \<Rightarrow> [] | c # s \<Rightarrow> if P c then [(Some c, s)] else [])"
| "rmatch (Seq a b) p = concat (map (rmatch b) (rmatch a p))"
| "rmatch (Alt a b) p = rmatch a p @ rmatch b p"
| "rmatch (Star a) p = star_n (length (snd p)) (rmatch a) p"
| "rmatch (NotBehind P) p = (if opt_sat P (fst p) then [] else [p])"
| "rmatch (NotAhead P) p = (if head_sat P (snd p) then [] else [p])"
| "rmatch WordBoundary p = (if opt_sat is_word (fst p) \<noteq> head_sat is_word (snd p) then [p] else [])"

text \<open>\<open>pattern.search(s)\<close> and \<open>pattern.sub(repl, s)\<close>.\<close>

fun search_from :: "rx \<Rightarrow> char option \<Rightarrow> string \<Rightarrow> bool" where
  "search_from r c [] = (rmatch r (c, []) \<noteq> [])"
| "search_from r c (x # s) = (rmatch r (c, x # s) \<noteq> [] \<or> search_from r (Some x) s)"

definition search :: "rx \<Rightarrow> string \<Rightarrow> bool" where
  "search r s = search_from r None s"

function sub_from :: "rx \<Rightarrow> string \<Rightarrow> char option \<Rightarrow> string \<Rightarrow> string" where
  "sub_from r repl c s =
     (case rmatch r (c, s) of
        q # _ \<Rightarrow>
          if length (snd q) < length s then repl @ sub_from r repl (fst q) (snd q)
          else (case s of [] \<Rightarrow> repl | x # s' \<Rightarrow> repl @ x # sub_from r repl (Some x) s')
      | [] \<Rightarrow> (case s of [] \<Rightarrow> [] | x # s' \<Rightarrow> x # sub_from r repl (Some x) s'))"
  by pat_completeness auto
termination
  by (relation "measure (\<lambda>(r, repl, c, s). length s)") auto

declare sub_from.simps [simp del]

definition sub :: "rx \<Rightarrow> string \<Rightarrow> string \<Rightarrow> string" where
  "sub r repl s = sub_from r repl None s"

subsection \<open>Derived forms\<close>

primrec lit :: "string \<Rightarrow> rx" where
  "lit [] = Eps"
| "lit (c # s) = Seq (Cls (\<lambda>x. x = c)) (lit s)"

primrec ilit :: "string \<Rightarrow> rx" where
  "ilit [] = Eps"
| "ilit (c # s) = Seq (Cls (\<lambda>x. lower_char x = lower_char c)) (ilit s)"

definition plus :: "rx \<Rightarrow> rx" where "plus r = Seq r (Star r)"

definition opt :: "rx \<Rightarrow> rx" where "opt r = Alt r Eps"

primrec rep :: "nat \<Rightarrow> rx \<Rightarrow> rx" where
  "rep 0 r = Eps"
| "rep (Suc n) r = Seq r (rep n r)"

text \<open>\<open>r{0,n}\<close>, greedy.\<close>

primrec upto :: "nat \<Rightarrow> rx \<Rightarrow> rx" where
  "upto 0 r = Eps"
| "upto (Suc n) r = opt (Seq r (upto n r))"

fun alts :: "rx list \<Rightarrow> rx" where
  "alts [] = Cls (\<lambda>_. False)"
| "alts [r] = r"
| "alts (r # rs) = Alt r (alts rs)"

fun seqs :: "rx list \<Rightarrow> rx" where
  "seqs [] = Eps"
| "seqs [r] = r"
| "seqs (r # rs) = Seq r (seqs rs)"

definition is_alnum :: "char \<Rightarrow> bool" where "is_alnum c = (is_alpha c \<or> is_digit c)"

definition in_str :: "string \<Rightarrow> char \<Rightarrow> bool" where "in_str s c = (c \<in> set s)"

subsection \<open>Facts\<close>

text \<open>A match consumes a prefix: every result is a later position of the same text.\<close>

definition later :: "pos \<Rightarrow> pos \<Rightarrow> bool" where
  "later p q \<longleftrightarrow> (\<exists>m. snd p = m @ snd q \<and> fst q = (if m = [] then fst p else Some (last m)))"

lemma later_refl [simp]: "later p p"
  by (simp add: later_def)

lemma later_trans:
  assumes "later p q" and "later q r"
  shows "later p r"
proof -
  from assms obtain m n where m: "snd p = m @ snd q" "fst q = (if m = [] then fst p else Some (last m))"
    and n: "snd q = n @ snd r" "fst r = (if n = [] then fst q else Some (last n))"
    by (auto simp: later_def)
  then have "snd p = (m @ n) @ snd r" "fst r = (if m @ n = [] then fst p else Some (last (m @ n)))"
    by simp_all
  then show ?thesis unfolding later_def by blast
qed

lemma later_one: "later (c, x # s) (Some x, s)"
  by (auto simp: later_def intro!: exI[of _ "[x]"])

lemma star_n_later: "(\<And>p q. q \<in> set (f p) \<Longrightarrow> later p q) \<Longrightarrow> q \<in> set (star_n n f p) \<Longrightarrow> later p q"
proof (induction n arbitrary: p)
  case (Suc n)
  from Suc.prems(2) consider "q = p" | u where "u \<in> set (f p)" "q \<in> set (star_n n f u)"
    by (auto split: if_splits)
  then show ?case
  proof cases
    case 2
    then show ?thesis using Suc.IH[OF Suc.prems(1)] Suc.prems(1) later_trans by blast
  qed simp
qed simp

lemma rmatch_later: "q \<in> set (rmatch r p) \<Longrightarrow> later p q"
proof (induction r arbitrary: p q)
  case (Cls P)
  then show ?case by (cases p; cases "snd p") (auto simp: later_one split: if_splits)
next
  case (Seq a b)
  then obtain u where "u \<in> set (rmatch a p)" "q \<in> set (rmatch b u)" by auto
  with Seq.IH later_trans show ?case by blast
next
  case (Star a)
  then have "q \<in> set (star_n (length (snd p)) (rmatch a) p)" by simp
  with Star.IH show ?case by (rule star_n_later)
next
  case (Alt a b)
  from Alt.prems have "q \<in> set (rmatch a p) \<or> q \<in> set (rmatch b p)" by simp
  with Alt.IH show ?case by blast
qed (simp_all split: if_splits)

lemma rmatch_length:
  assumes "q \<in> set (rmatch r p)"
  shows "length (snd q) \<le> length (snd p)"
proof -
  from rmatch_later[OF assms] obtain m where "snd p = m @ snd q" by (auto simp: later_def)
  then show ?thesis by simp
qed

text \<open>A literal matches exactly where the text starts with it.\<close>

lemma rmatch_lit: "rmatch (lit l) (c, s) \<noteq> [] \<longleftrightarrow> startswith s l"
proof (induction l arbitrary: c s)
  case Nil
  then show ?case by (simp add: startswith_def)
next
  case (Cons x l)
  then show ?case by (cases s) (auto simp: startswith_def)
qed

lemma search_from_lit: "search_from (lit l) c s \<longleftrightarrow> contains_sub l s"
  by (induction s arbitrary: c) (auto simp: rmatch_lit startswith_def)

lemma search_lit: "search (lit l) s \<longleftrightarrow> contains_sub l s"
  by (simp add: search_def search_from_lit)

text \<open>The steps of a substitution.\<close>

lemma sub_from_skip:
  "rmatch r (c, []) = [] \<Longrightarrow> sub_from r repl c [] = []"
  "rmatch r (c, x # s) = [] \<Longrightarrow> sub_from r repl c (x # s) = x # sub_from r repl (Some x) s"
  by (simp_all add: sub_from.simps[of r repl c])

lemma sub_from_replace:
  "rmatch r (c, s) = q # qs \<Longrightarrow> length (snd q) < length s \<Longrightarrow> sub_from r repl c s = repl @ sub_from r repl (fst q) (snd q)"
  by (simp add: sub_from.simps[of r repl c s])

lemma sub_from_empty_match:
  "rmatch r (c, []) = q # qs \<Longrightarrow> sub_from r repl c [] = repl"
  "rmatch r (c, x # s) = q # qs \<Longrightarrow> \<not> length (snd q) < length (x # s) \<Longrightarrow>
     sub_from r repl c (x # s) = repl @ x # sub_from r repl (Some x) s"
  by (simp_all add: sub_from.simps[of r repl c])

end
