(* ===== verification/Redaction.thy ===== *)
theory Redaction
  imports PyRegex
begin

section \<open>Redaction of secrets\<close>

text \<open>
  \<^verbatim>\<open>observability/mcp-audit-logger/mcp_audit_logger/redaction.py\<close>: the ten patterns and their application to every string
  of a record. A secret of fixed shape (an AWS access key, a GitHub token) cannot survive: its own
  pattern removes it, and no other substitution can assemble one, because a mark is
  bracketed by characters that no such secret contains.
\<close>

subsection \<open>Patterns\<close>

definition b64_char :: "char \<Rightarrow> bool" where "b64_char c = (is_alnum c \<or> in_str ''/+='' c)"

definition up_or_digit :: "char \<Rightarrow> bool" where "up_or_digit c = (is_upper c \<or> is_digit c)"

definition spaces :: rx where "spaces = Star (Cls is_space)"

definition aws_access_key :: rx where
  "aws_access_key = Seq (lit ''AKIA'') (rep 16 (Cls up_or_digit))"

definition aws_secret_key :: rx where
  "aws_secret_key = Seq (NotBehind b64_char) (Seq (rep 40 (Cls b64_char)) (NotAhead b64_char))"

definition github_token :: rx where
  "github_token = Alt (Seq (lit ''ghp_'') (rep 36 (Cls is_alnum)))
                      (Seq (lit ''github_pat_'') (rep 82 (Cls is_word)))"

definition private_key :: rx where
  "private_key = seqs [lit ''-----BEGIN'', Cls is_space, plus (Cls (\<lambda>c. is_word c \<or> is_space c)), lit ''PRIVATE KEY-----'']"

text \<open>\<open>(?i)(name|...)\s*[=:]\s*\S+\<close>.\<close>

definition assigned :: "rx \<Rightarrow> rx" where
  "assigned name = seqs [name, spaces, Cls (in_str ''=:''), spaces, plus (Cls (\<lambda>c. \<not> is_space c))]"

definition url_password_rx :: rx where
  "url_password_rx = assigned (alts [ilit ''password'', ilit ''passwd'', ilit ''pwd''])"

definition jwt_char :: "char \<Rightarrow> bool" where "jwt_char c = (is_alnum c \<or> in_str ''-_='' c)"

definition jwt_token :: rx where
  "jwt_token = seqs [lit ''eyJ'', plus (Cls jwt_char), lit ''.'', plus (Cls jwt_char), opt (lit ''.''),
     Star (Cls (\<lambda>c. is_alnum c \<or> in_str ''-_.+/='' c))]"

definition db_connection_string :: rx where
  "db_connection_string = seqs
     [alts [Seq (ilit ''postgres'') (opt (ilit ''ql'')), ilit ''mysql'', ilit ''mongodb'', ilit ''redis''],
      lit ''://'', plus (Cls (\<lambda>c. c \<noteq> CHR '':'')), lit '':'', plus (Cls (\<lambda>c. c \<noteq> CHR ''@'')), lit ''@'']"

definition email_address :: rx where
  "email_address = seqs [plus (Cls (\<lambda>c. is_alnum c \<or> in_str ''._%+-'' c)), lit ''@'',
     plus (Cls (\<lambda>c. is_alnum c \<or> in_str ''.-'' c)), lit ''.'', rep 2 (Cls is_alpha), Star (Cls is_alpha)]"

definition one_to_three_digits :: rx where
  "one_to_three_digits = Seq (Cls is_digit) (upto 2 (Cls is_digit))"

definition ip_address_rx :: rx where
  "ip_address_rx = seqs [WordBoundary, rep 3 (Seq one_to_three_digits (lit ''.'')), one_to_three_digits, WordBoundary]"

definition api_key_rx :: rx where
  "api_key_rx = assigned (alts [seqs [ilit ''api'', opt (Cls (in_str ''_-'')), ilit ''key''], ilit ''apikey'', ilit ''x-api-key''])"

definition REDACTION_PATTERNS :: "(string \<times> rx) list" where
  "REDACTION_PATTERNS =
     [(''aws_access_key'', aws_access_key), (''aws_secret_key'', aws_secret_key), (''github_token'', github_token),
      (''private_key'', private_key), (''url_password'', url_password_rx), (''jwt_token'', jwt_token),
      (''db_connection_string'', db_connection_string), (''email_address'', email_address),
      (''ip_address'', ip_address_rx), (''api_key'', api_key_rx)]"

definition redaction_mark :: "string \<Rightarrow> string" where
  "redaction_mark category = ''[REDACTED:'' @ category @ '']''"

definition redact_string :: "string \<Rightarrow> string" where
  "redact_string value = foldl (\<lambda>v (category, pattern). sub pattern (redaction_mark category) v) value REDACTION_PATTERNS"

fun redact_value :: "json \<Rightarrow> json" where
  "redact_value (JStr s) = JStr (redact_string s)"
| "redact_value (JObj kvs) = JObj (map (\<lambda>kv. (fst kv, redact_value (snd kv))) kvs)"
| "redact_value (JArr xs) = JArr (map redact_value xs)"
| "redact_value v = v"

definition redact_dict :: "(string \<times> json) list \<Rightarrow> (string \<times> json) list" where
  "redact_dict d = map (\<lambda>kv. (fst kv, redact_value (snd kv))) d"

subsection \<open>Fixed-shape secrets\<close>

lemma rmatch_lit_eq:
  "rmatch (lit l) (c, s) = (if prefix l s then [(if l = [] then c else Some (last l), drop (length l) s)] else [])"
proof (induction l arbitrary: c s)
  case (Cons x l)
  then show ?case by (cases s) auto
qed simp

lemma rmatch_rep_eq:
  "rmatch (rep n (Cls P)) (c, s) =
     (if n \<le> length s \<and> list_all P (take n s) then [(if n = 0 then c else Some (s ! (n - 1)), drop n s)] else [])"
proof (induction n arbitrary: c s)
  case (Suc n)
  show ?case
  proof (cases s)
    case (Cons x t)
    then show ?thesis using Suc[of "Some x" t] by (cases n) (auto simp: nth_Cons')
  qed simp
qed simp

definition mark_ok :: "string \<Rightarrow> bool" where
  "mark_ok r \<longleftrightarrow> (\<exists>w. r = CHR ''['' # w @ [CHR '']''])"

lemma sublist_break:
  assumes "sublist m (x @ c # y)" and "c \<notin> set m"
  shows "sublist m x \<or> sublist m y"
proof -
  from assms(1) obtain a b where ab: "x @ c # y = a @ m @ b" by (auto simp: sublist_def)
  then consider d where "x = a @ m @ d" | d where "y = d @ m @ b"
    using assms(2) by (auto simp: append_eq_append_conv2 append_eq_Cons_conv Cons_eq_append_conv)
  then show ?thesis by cases (auto simp: sublist_def)
qed

definition occurs_in :: "(string \<Rightarrow> bool) \<Rightarrow> string \<Rightarrow> bool" where
  "occurs_in K s \<longleftrightarrow> (\<exists>m. K m \<and> sublist m s)"

text \<open>
  \<open>K\<close> are the secrets, \<open>p\<close> their pattern: it matches wherever a secret starts, always consumes something, and secrets
  contain no bracket.
\<close>

locale fixed_secret =
  fixes p :: rx and K :: "string \<Rightarrow> bool"
  assumes no_bracket: "K m \<Longrightarrow> m \<noteq> [] \<and> CHR ''['' \<notin> set m \<and> CHR '']'' \<notin> set m"
    and found: "K m \<Longrightarrow> rmatch p (c, m @ s) \<noteq> []"
    and consumes: "q \<in> set (rmatch p (c, s)) \<Longrightarrow> length (snd q) < length s"
begin

lemma across_mark:
  assumes "mark_ok r" and "occurs_in K (u @ r @ t)"
  shows "occurs_in K u \<or> occurs_in K r \<or> occurs_in K t"
proof -
  from assms obtain w m where w: "r = CHR ''['' # w @ [CHR '']'']" and m: "K m" "sublist m (u @ CHR ''['' # w @ CHR '']'' # t)"
    by (auto simp: mark_ok_def occurs_in_def)
  from sublist_break[OF m(2)] no_bracket[OF m(1)] consider "sublist m u" | "sublist m (w @ CHR '']'' # t)" by blast
  then show ?thesis
  proof cases
    case 2
    from sublist_break[OF this] no_bracket[OF m(1)] consider "sublist m w" | "sublist m t" by blast
    then show ?thesis
    proof cases
      case 1
      then have "sublist m r" unfolding w by (meson sublist_append_rightI sublist_Cons_right sublist_order.order_trans sublist_appendI)
      with m(1) show ?thesis by (auto simp: occurs_in_def)
    qed (use m(1) in \<open>auto simp: occurs_in_def\<close>)
  qed (use m(1) in \<open>auto simp: occurs_in_def\<close>)
qed

lemma occurs_in_mono: "occurs_in K s \<Longrightarrow> sublist s t \<Longrightarrow> occurs_in K t"
  by (auto simp: occurs_in_def intro: sublist_order.order_trans)

text \<open>A substitution by any pattern keeps a text free of secrets.\<close>

lemma after_mark:
  assumes "mark_ok r" and "\<not> occurs_in K r" and "\<not> occurs_in K u" and "\<not> occurs_in K t"
  shows "\<not> occurs_in K (u @ r @ t)"
  using across_mark[OF assms(1), of u t] assms(2-4) by blast

lemma sub_from_keeps:
  assumes "mark_ok r" and "\<not> occurs_in K r"
  shows "\<not> occurs_in K (u @ s) \<Longrightarrow> \<not> occurs_in K (u @ sub_from q r c s)"
proof (induction s arbitrary: c u rule: length_induct)
  case (1 s)
  note ih = 1(1)[rule_format]
  from 1(2) have u: "\<not> occurs_in K u" and s: "\<not> occurs_in K s"
    using occurs_in_mono[of u "u @ s"] occurs_in_mono[of s "u @ s"] by auto
  show ?case
  proof (cases "rmatch q (c, s)")
    case Nil
    then show ?thesis
      using u ih[of "tl s" "u @ [hd s]" "Some (hd s)"] 1(2) by (cases s) (simp_all add: sub_from_skip)
  next
    case (Cons v vs)
    then have "later (c, s) v" by (intro rmatch_later[of v q]) simp
    then have v: "\<not> occurs_in K (snd v)" using s occurs_in_mono[of "snd v" s] by (auto simp: later_def)
    show ?thesis
    proof (cases "length (snd v) < length s")
      case True
      with ih[of "snd v" "[]" "fst v"] v have "\<not> occurs_in K (sub_from q r (fst v) (snd v))" by simp
      with after_mark[OF assms u] True Cons show ?thesis by (simp add: sub_from_replace)
    next
      case False
      have "\<not> occurs_in K (x # sub_from q r (Some x) t)" if "s = x # t" for x t
        using ih[of t "[x]" "Some x"] s that by simp
      moreover have "\<not> occurs_in K (u @ r)" using after_mark[OF assms u, of "[]"] no_bracket by (auto simp: occurs_in_def)
      ultimately show ?thesis using after_mark[OF assms u] False Cons by (cases s) (simp_all add: sub_from_empty_match)
    qed
  qed
qed

text \<open>A substitution by the secrets' own pattern removes them: \<open>u\<close> is the text kept so far, in which no secret starts.\<close>

lemma sub_from_removes:
  assumes "mark_ok r" and "\<not> occurs_in K r"
  shows "(\<And>a m b. u @ s = a @ m @ b \<Longrightarrow> K m \<Longrightarrow> length u \<le> length a) \<Longrightarrow> \<not> occurs_in K (u @ sub_from p r c s)"
proof (induction s arbitrary: c u rule: length_induct)
  case (1 s)
  note ih = 1(1)[rule_format] and none = 1(2)
  have u: "\<not> occurs_in K u"
  proof
    assume "occurs_in K u"
    then obtain m a b where m: "K m" "u = a @ m @ b" by (auto simp: occurs_in_def sublist_def)
    then have "u @ s = a @ m @ (b @ s)" by simp
    from none[OF this m(1)] m no_bracket[OF m(1)] show False by simp
  qed
  show ?case
  proof (cases "rmatch p (c, s)")
    case Nil
    show ?thesis
    proof (cases s)
      case (Cons x t)
      have "\<not> occurs_in K ((u @ [x]) @ sub_from p r (Some x) t)"
      proof (rule ih)
        show "length t < length s" using Cons by simp
      next
        fix a m b
        assume eq: "(u @ [x]) @ t = a @ m @ b" and m: "K m"
        then have "length u \<le> length a" using none[of a m b] Cons by simp
        moreover have "length a \<noteq> length u"
        proof
          assume "length a = length u"
          with eq Cons have "s = m @ b" by simp
          with found[OF m, of c b] Nil show False by simp
        qed
        ultimately show "length (u @ [x]) \<le> length a" by simp
      qed
      with Nil Cons show ?thesis by (simp add: sub_from_skip)
    qed (use Nil u in \<open>simp add: sub_from_skip\<close>)
  next
    case (Cons v vs)
    then have shorter: "length (snd v) < length s" by (intro consumes[of v c]) simp
    then have "\<not> occurs_in K ([] @ sub_from p r (fst v) (snd v))" by (intro ih) simp_all
    with after_mark[OF assms u] shorter Cons show ?thesis by (simp add: sub_from_replace)
  qed
qed

lemma foldl_sub_keeps:
  "\<forall>(cat, q) \<in> set ps. mark_ok (redaction_mark cat) \<and> \<not> occurs_in K (redaction_mark cat) \<Longrightarrow> \<not> occurs_in K s \<Longrightarrow>
     \<not> occurs_in K (foldl (\<lambda>v (category, pattern). sub pattern (redaction_mark category) v) s ps)"
proof (induction ps arbitrary: s)
  case (Cons cp ps)
  obtain cat q where cp: "cp = (cat, q)" by fastforce
  with Cons.prems have "\<not> occurs_in K (sub q (redaction_mark cat) s)"
    using sub_from_keeps[of "redaction_mark cat" "[]" s q None] by (simp add: sub_def)
  with Cons.IH Cons.prems cp show ?case by simp
qed simp

theorem redact_string_removes:
  assumes "(cat, p) \<in> set REDACTION_PATTERNS"
    and marks: "\<forall>(cat, q) \<in> set REDACTION_PATTERNS. mark_ok (redaction_mark cat) \<and> \<not> occurs_in K (redaction_mark cat)"
  shows "\<not> occurs_in K (redact_string s)"
proof -
  from split_list[OF assms(1)] obtain pre post where split: "REDACTION_PATTERNS = pre @ (cat, p) # post" by blast
  let ?f = "\<lambda>v (category, pattern). sub pattern (redaction_mark category) v"
  have "\<not> occurs_in K (sub p (redaction_mark cat) t)" for t
    using sub_from_removes[of "redaction_mark cat" "[]" t None] marks assms(1) by (auto simp: sub_def)
  then have "\<not> occurs_in K (foldl ?f (sub p (redaction_mark cat) (foldl ?f s pre)) post)"
    using marks unfolding split by (intro foldl_sub_keeps) auto
  then show ?thesis by (simp add: redact_string_def split)
qed

end

text \<open>AWS access keys and GitHub tokens.\<close>

definition is_aws_access_key :: "string \<Rightarrow> bool" where
  "is_aws_access_key m \<longleftrightarrow> take 4 m = ''AKIA'' \<and> length m = 20 \<and> list_all up_or_digit (drop 4 m)"

definition is_github_token :: "string \<Rightarrow> bool" where
  "is_github_token m \<longleftrightarrow>
     take 4 m = ''ghp_'' \<and> length m = 40 \<and> list_all is_alnum (drop 4 m)
     \<or> take 11 m = ''github_pat_'' \<and> length m = 93 \<and> list_all is_word (drop 11 m)"

lemma lit_rep_found:
  assumes "length l = i" and "take i m = l" and "length m = i + n" and "list_all P (drop i m)"
  shows "rmatch (Seq (lit l) (rep n (Cls P))) (c, m @ s) \<noteq> []"
proof -
  define k where "k = drop i m"
  with assms have "m = l @ k" "length k = n" "list_all P k" by (metis append_take_drop_id, simp_all)
  then show ?thesis by (simp add: rmatch_lit_eq rmatch_rep_eq)
qed

lemma lit_rep_consumes:
  assumes "q \<in> set (rmatch (Seq (lit l) (rep n (Cls P))) (c, s))" and "l \<noteq> []"
  shows "length (snd q) < length s"
proof -
  from assms(1) obtain u where u: "u \<in> set (rmatch (lit l) (c, s))" "q \<in> set (rmatch (rep n (Cls P)) u)" by auto
  then have "length (snd u) < length s"
    using assms(2) prefix_length_le[of l s] by (cases l) (auto simp: rmatch_lit_eq split: if_splits)
  with rmatch_length[OF u(2)] show ?thesis by simp
qed

lemma classes_no_bracket:
  "\<not> up_or_digit CHR ''[''" "\<not> up_or_digit CHR '']''" "\<not> is_alnum CHR ''[''" "\<not> is_alnum CHR '']''"
  "\<not> is_word CHR ''[''" "\<not> is_word CHR '']''"
  by code_simp+

lemma bracket_free:
  assumes "take n m = l" and "CHR ''['' \<notin> set l" "CHR '']'' \<notin> set l" and "list_all P (drop n m)"
    and "\<not> P CHR ''[''" "\<not> P CHR '']''"
  shows "CHR ''['' \<notin> set m \<and> CHR '']'' \<notin> set m"
proof -
  have "set m = set (take n m) \<union> set (drop n m)" by (metis append_take_drop_id set_append)
  with assms show ?thesis by (auto simp: list_all_iff)
qed

interpretation aws: fixed_secret aws_access_key is_aws_access_key
proof
  fix m assume m: "is_aws_access_key m"
  then show "m \<noteq> [] \<and> CHR ''['' \<notin> set m \<and> CHR '']'' \<notin> set m"
    using bracket_free[of 4 m "''AKIA''" up_or_digit] classes_no_bracket by (auto simp: is_aws_access_key_def)
  show "rmatch aws_access_key (c, m @ s) \<noteq> []" for c s
    unfolding aws_access_key_def using m by (intro lit_rep_found[where i = 4]) (simp_all add: is_aws_access_key_def)
next
  fix q c s assume "q \<in> set (rmatch aws_access_key (c, s))"
  then show "length (snd q) < length s" unfolding aws_access_key_def by (rule lit_rep_consumes) simp
qed

interpretation github: fixed_secret github_token is_github_token
proof
  fix m assume m: "is_github_token m"
  then show "m \<noteq> [] \<and> CHR ''['' \<notin> set m \<and> CHR '']'' \<notin> set m"
    using bracket_free[of 4 m "''ghp_''" is_alnum] bracket_free[of 11 m "''github_pat_''" is_word] classes_no_bracket
    by (auto simp: is_github_token_def)
  from m consider (ghp) "take 4 m = ''ghp_''" "length m = 40" "list_all is_alnum (drop 4 m)"
    | (pat) "take 11 m = ''github_pat_''" "length m = 93" "list_all is_word (drop 11 m)"
    by (auto simp: is_github_token_def)
  then show "rmatch github_token (c, m @ s) \<noteq> []" for c s
  proof cases
    case ghp
    then have "rmatch (Seq (lit ''ghp_'') (rep 36 (Cls is_alnum))) (c, m @ s) \<noteq> []"
      by (intro lit_rep_found[where i = 4]) simp_all
    then show ?thesis unfolding github_token_def rmatch.simps(4) append_is_Nil_conv by blast
  next
    case pat
    then have "rmatch (Seq (lit ''github_pat_'') (rep 82 (Cls is_word))) (c, m @ s) \<noteq> []"
      by (intro lit_rep_found[where i = 11]) simp_all
    then show ?thesis unfolding github_token_def rmatch.simps(4) append_is_Nil_conv by blast
  qed
next
  fix q c s assume "q \<in> set (rmatch github_token (c, s))"
  then show "length (snd q) < length s"
    unfolding github_token_def rmatch.simps(4) set_append Un_iff
    using lit_rep_consumes[of q "''ghp_''" 36 is_alnum c s] lit_rep_consumes[of q "''github_pat_''" 82 is_word c s]
    by auto
qed

lemma marks_clean:
  "\<forall>(cat, q) \<in> set REDACTION_PATTERNS. mark_ok (redaction_mark cat) \<and> length (redaction_mark cat) < 40
     \<and> CHR ''K'' \<notin> set (redaction_mark cat)"
  by (auto simp: REDACTION_PATTERNS_def redaction_mark_def mark_ok_def)

lemma no_secret_in_mark:
  assumes "(cat, q) \<in> set REDACTION_PATTERNS"
  shows "\<not> occurs_in is_aws_access_key (redaction_mark cat) \<and> \<not> occurs_in is_github_token (redaction_mark cat)"
proof -
  from marks_clean assms have short: "length (redaction_mark cat) < 40" and K: "CHR ''K'' \<notin> set (redaction_mark cat)" by auto
  have "CHR ''K'' \<in> set m" if "is_aws_access_key m" for m
    using that set_take_subset[of 4 m] by (auto simp: is_aws_access_key_def)
  moreover have "40 \<le> length m" if "is_github_token m" for m
    using that by (auto simp: is_github_token_def)
  ultimately show ?thesis
    using short K unfolding occurs_in_def by (metis leD le_trans set_mono_sublist sublist_length_le subsetD)
qed

text \<open>Every string in a value, at any depth.\<close>

fun json_texts :: "json \<Rightarrow> string list" where
  "json_texts (JStr s) = [s]"
| "json_texts (JArr xs) = concat (map json_texts xs)"
| "json_texts (JObj kvs) = concat (map (\<lambda>kv. json_texts (snd kv)) kvs)"
| "json_texts _ = []"

lemma json_texts_redacted: "t \<in> set (json_texts (redact_value j)) \<Longrightarrow> \<exists>s. t = redact_string s"
proof (induction j rule: redact_value.induct)
  case (2 kvs)
  then show ?case by fastforce
qed auto

lemma redact_string_clean:
  "\<not> occurs_in is_aws_access_key (redact_string s) \<and> \<not> occurs_in is_github_token (redact_string s)"
proof -
  have "\<forall>(cat, q) \<in> set REDACTION_PATTERNS. mark_ok (redaction_mark cat) \<and> \<not> occurs_in is_aws_access_key (redaction_mark cat)"
    "\<forall>(cat, q) \<in> set REDACTION_PATTERNS. mark_ok (redaction_mark cat) \<and> \<not> occurs_in is_github_token (redaction_mark cat)"
    using marks_clean no_secret_in_mark by fast+
  moreover have "(''aws_access_key'', aws_access_key) \<in> set REDACTION_PATTERNS" "(''github_token'', github_token) \<in> set REDACTION_PATTERNS"
    by (simp_all add: REDACTION_PATTERNS_def)
  ultimately show ?thesis using aws.redact_string_removes github.redact_string_removes by blast
qed

end
