(* ===== verification/AuditLog.thy ===== *)
theory AuditLog
  imports JsonText Redaction Sha256 Store
begin

section \<open>The audit trail\<close>

text \<open>
  \<^verbatim>\<open>observability/mcp-audit-logger\<close>: the event schema, the canonical form that is hashed and the logger; and the emission of \<^verbatim>\<open>proxy/app/services/invocation.py\<close>, which writes the log line, the
  row of \<open>audit_events\<close> and the syslog datagram. The checks of the table are those of the migrations. A
  score is a rational, and the text of a float is a parameter of the environment of one emission,
  as are the fresh identifier and the clock reading.
\<close>

subsection \<open>Schema\<close>

datatype AuditOutcome = ALLOW | DENY | ERROR

fun outcome_text :: "AuditOutcome \<Rightarrow> string" where
  "outcome_text ALLOW = ''allow''"
| "outcome_text DENY = ''deny''"
| "outcome_text ERROR = ''error''"

datatype AuditEventType =
    TOOL_INVOCATION | TOOL_REGISTERED | TOOL_STATUS_CHANGED | TOOL_DELETED | TOOL_RELEASED
  | AUDIT_RERUN_TRIGGERED | COMPLIANCE_RUN_TRIGGERED | ANOMALY_ALERT_RESOLVED | POLICY_EVAL_MANUAL
  | INTERNAL_TOOL_INVOCATION | API_KEY_CREATED | API_KEY_REVOKED | CREDENTIAL_UPLOADED
  | CREDENTIAL_REVOKED | CREDENTIAL_MODE_CHANGED

fun event_type_text :: "AuditEventType \<Rightarrow> string" where
  "event_type_text TOOL_INVOCATION = ''TOOL_INVOCATION''"
| "event_type_text TOOL_REGISTERED = ''TOOL_REGISTERED''"
| "event_type_text TOOL_STATUS_CHANGED = ''TOOL_STATUS_CHANGED''"
| "event_type_text TOOL_DELETED = ''TOOL_DELETED''"
| "event_type_text TOOL_RELEASED = ''TOOL_RELEASED''"
| "event_type_text AUDIT_RERUN_TRIGGERED = ''AUDIT_RERUN_TRIGGERED''"
| "event_type_text COMPLIANCE_RUN_TRIGGERED = ''COMPLIANCE_RUN_TRIGGERED''"
| "event_type_text ANOMALY_ALERT_RESOLVED = ''ANOMALY_ALERT_RESOLVED''"
| "event_type_text POLICY_EVAL_MANUAL = ''POLICY_EVAL_MANUAL''"
| "event_type_text INTERNAL_TOOL_INVOCATION = ''INTERNAL_TOOL_INVOCATION''"
| "event_type_text API_KEY_CREATED = ''API_KEY_CREATED''"
| "event_type_text API_KEY_REVOKED = ''API_KEY_REVOKED''"
| "event_type_text CREDENTIAL_UPLOADED = ''CREDENTIAL_UPLOADED''"
| "event_type_text CREDENTIAL_REVOKED = ''CREDENTIAL_REVOKED''"
| "event_type_text CREDENTIAL_MODE_CHANGED = ''CREDENTIAL_MODE_CHANGED''"

record AuditEvent =
  ae_event_id :: string
  ae_event_type :: AuditEventType
  ae_timestamp :: string   \<comment> \<open>\<open>isoformat()\<close>\<close>
  ae_client_id :: string
  ae_platform_version :: string
  ae_tool_name :: string
  ae_tool_id :: "string option"
  ae_outcome :: "AuditOutcome option"
  ae_request_id :: string
  ae_tool_version :: "string option"
  ae_latency_ms :: "int option"
  ae_deny_reasons :: "string list"
  ae_anomaly_score :: "rat option"
  ae_opa_decision_id :: "string option"
  ae_is_testing :: bool
  ae_source_ip :: "string option"
  ae_principal_type :: "string option"
  ae_roles :: "string list option"
  ae_session_jti :: "string option"
  ae_tainted :: "bool option"
  ae_principal_id :: "string option"
  ae_principal_issuer :: "string option"
  ae_notices :: "string list"
  ae_sha256_hash :: string

subsection \<open>The canonical form\<close>

definition CANONICAL_FIELDS :: "string list" where
  "CANONICAL_FIELDS = [''event_id'', ''event_type'', ''timestamp'', ''client_id'', ''tool_name'', ''tool_id'',
     ''outcome'', ''request_id'', ''platform_version'']"

definition outcome_value :: "json \<Rightarrow> json" where
  "outcome_value d = (if truthy (jget d ''original_outcome'') then jget d ''original_outcome'' else jget d ''outcome'')"

definition canonical_audit_json :: "json \<Rightarrow> string" where
  "canonical_audit_json d = canonical_json (JObj
     [(''event_id'', jget d ''event_id''),
      (''event_type'', jget d ''event_type''),
      (''timestamp'', jget d ''timestamp''),
      (''client_id'', jget d ''client_id''),
      (''tool_name'', jget d ''tool_name''),
      (''tool_id'', jget d ''tool_id''),
      (''outcome'', outcome_value d),
      (''request_id'', jget d ''request_id''),
      (''platform_version'', jget d ''platform_version'')])"

definition sha256_hash :: "json \<Rightarrow> string" where
  "sha256_hash d = sha256 (canonical_json d)"

definition hash_audit_entry :: "json \<Rightarrow> string" where
  "hash_audit_entry d = sha256 (canonical_audit_json d)"

text \<open>The dictionary that \<open>_compute_hash\<close> and \<open>_compute_hmac_signature\<close> build from an event.\<close>

definition canonical_entry :: "AuditEvent \<Rightarrow> json" where
  "canonical_entry e = JObj
     [(''event_id'', JStr (ae_event_id e)),
      (''event_type'', JStr (event_type_text (ae_event_type e))),
      (''timestamp'', JStr (ae_timestamp e)),
      (''client_id'', JStr (ae_client_id e)),
      (''tool_name'', JStr (ae_tool_name e)),
      (''tool_id'', jopt JStr (ae_tool_id e)),
      (''outcome'', jopt (JStr \<circ> outcome_text) (ae_outcome e)),
      (''original_outcome'', jopt (JStr \<circ> outcome_text) (ae_outcome e)),
      (''request_id'', JStr (ae_request_id e)),
      (''platform_version'', JStr (ae_platform_version e))]"

definition compute_hash :: "AuditEvent \<Rightarrow> string" where
  "compute_hash e = sha256 (canonical_audit_json (canonical_entry e))"

definition validate_event :: "AuditEvent \<Rightarrow> exn option" where
  "validate_event e =
     (if ae_client_id e = [] then Some (ValueError ''AuditEvent.client_id is required'')
      else if ae_event_type e = TOOL_INVOCATION then
        (if ae_tool_name e = [] then Some (ValueError ''AuditEvent.tool_name is required for TOOL_INVOCATION'')
         else if \<not> str_true (ae_tool_id e) then Some (ValueError ''AuditEvent.tool_id is required for TOOL_INVOCATION'')
         else if ae_outcome e = None then Some (ValueError ''AuditEvent.outcome is required for TOOL_INVOCATION'')
         else None)
      else None)"

text \<open>\<open>__post_init__\<close>: the event as constructed, or the error.\<close>

definition post_init :: "AuditEvent \<Rightarrow> exn + AuditEvent" where
  "post_init e = (case validate_event e of Some x \<Rightarrow> Inl x | None \<Rightarrow> Inr (e\<lparr>ae_sha256_hash := compute_hash e\<rparr>))"

definition to_dict :: "(rat \<Rightarrow> string) \<Rightarrow> AuditEvent \<Rightarrow> (string \<times> json) list" where
  "to_dict float_repr e =
     [(''event_id'', JStr (ae_event_id e)),
      (''event_type'', JStr (event_type_text (ae_event_type e))),
      (''timestamp'', JStr (ae_timestamp e)),
      (''client_id'', JStr (ae_client_id e)),
      (''tool_name'', JStr (ae_tool_name e)),
      (''tool_id'', jopt JStr (ae_tool_id e)),
      (''tool_version'', jopt JStr (ae_tool_version e)),
      (''outcome'', jopt (JStr \<circ> outcome_text) (ae_outcome e)),
      (''request_id'', JStr (ae_request_id e)),
      (''latency_ms'', jopt JInt (ae_latency_ms e)),
      (''deny_reasons'', jstrs (ae_deny_reasons e)),
      (''anomaly_score'', jopt (JFloat \<circ> float_repr) (ae_anomaly_score e)),
      (''opa_decision_id'', jopt JStr (ae_opa_decision_id e)),
      (''is_testing'', JBool (ae_is_testing e)),
      (''platform_version'', JStr (ae_platform_version e)),
      (''sha256_hash'', JStr (ae_sha256_hash e)),
      (''source_ip'', jopt JStr (ae_source_ip e)),
      (''principal_type'', jopt JStr (ae_principal_type e)),
      (''roles'', jopt jstrs (ae_roles e)),
      (''session_jti'', jopt JStr (ae_session_jti e)),
      (''tainted'', jopt JBool (ae_tainted e)),
      (''principal_id'', jopt JStr (ae_principal_id e)),
      (''principal_issuer'', jopt JStr (ae_principal_issuer e)),
      (''notices'', jstrs (ae_notices e))]"

subsection \<open>The logger\<close>

text \<open>
  What one emission finds outside: the fresh identifier, the clock readings, the text of floats, the
  configuration, and which of its three writes succeed. A write to the log that fails is swallowed by
  the logging library.
\<close>

record audit_row =
  ar_event_id :: string
  ar_client_id :: string
  ar_tool_name :: string
  ar_tool_id :: "string option"
  ar_outcome :: string
  ar_latency_ms :: int
  ar_sha256_hash :: string
  ar_anomaly_score :: rat
  ar_opa_reasons :: string
  ar_request_id :: string
  ar_event_type :: "string option"
  ar_event_ts_iso :: "string option"
  ar_platform_version :: "string option"
  ar_original_outcome :: "string option"
  ar_hmac_signature :: "string option"
  ar_hmac_key_id :: "string option"
  ar_source_ip :: "string option"
  ar_principal_type :: "string option"
  ar_caller_roles :: "string list option"
  ar_session_jti :: "string option"
  ar_opa_decision_id :: "string option"
  ar_principal_id :: "string option"
  ar_notices :: string
  ar_event_ts :: rat
  ar_created_at :: rat

record audit_env =
  av_event_id :: string
  av_timestamp :: string
  av_time :: rat
  av_syslog_ts :: string
  av_float_repr :: "rat \<Rightarrow> string"
  av_stdout_ok :: bool
  av_insert_ok :: "audit_row \<Rightarrow> bool"
  av_sendto_ok :: bool
  av_hmac_key :: "string option"   \<comment> \<open>\<open>AUDIT_LOG_HMAC_KEY\<close>\<close>
  av_wazuh_host :: "string option"   \<comment> \<open>\<open>WAZUH_SYSLOG_HOST\<close>\<close>
  av_skip_db_write :: bool   \<comment> \<open>\<open>_SKIP_AUDIT_DB_WRITE\<close>\<close>

record audit_store =
  log_lines :: "string list"
  audit_events :: "audit_row list"
  syslog :: "string list"

definition log_record :: "(rat \<Rightarrow> string) \<Rightarrow> AuditEvent \<Rightarrow> (string \<times> json) list" where
  "log_record float_repr e =
     (let raw_dict = to_dict float_repr e in
      AList.update ''sha256_hash'' (JStr (hash_audit_entry (JObj raw_dict)))
        ((''log_type'', JStr ''mcp_audit_event'') # redact_dict raw_dict))"

definition write_line :: "audit_env \<Rightarrow> string \<Rightarrow> audit_store \<Rightarrow> audit_store" where
  "write_line v line st = (if av_stdout_ok v then st\<lparr>log_lines := log_lines st @ [line]\<rparr> else st)"

definition logger_emit :: "audit_env \<Rightarrow> AuditEvent \<Rightarrow> audit_store \<Rightarrow> string \<times> audit_store" where
  "logger_emit v e st =
     (let raw_dict = to_dict (av_float_repr v) e in
      (hash_audit_entry (JObj raw_dict), write_line v (json_dumps (JObj (log_record (av_float_repr v) e))) st))"

definition emit_admin_event ::
    "audit_env \<Rightarrow> AuditEvent \<Rightarrow> (string \<times> json) list \<Rightarrow> audit_store \<Rightarrow> string \<times> audit_store" where
  "emit_admin_event v e extra_fields st =
     (let raw_dict = to_dict (av_float_repr v) e;
          rec = foldl (\<lambda>d (k, x). AList.update k x d) (log_record (av_float_repr v) e) (redact_dict extra_fields)
      in (hash_audit_entry (JObj raw_dict), write_line v (json_dumps (JObj rec)) st))"

subsection \<open>Emission by the proxy\<close>

record audit_args =
  aa_tool_id :: "string option"
  aa_tool_name :: string
  aa_tool_version :: "string option"
  aa_client_id :: string
  aa_outcome :: string
  aa_deny_reasons :: "string list"
  aa_request_id :: string
  aa_latency_ms :: int
  aa_anomaly_score :: rat
  aa_opa_decision_id :: string
  aa_is_testing :: bool
  aa_source_ip :: "string option"
  aa_principal_type :: "string option"
  aa_roles :: "string list option"
  aa_session_jti :: "string option"
  aa_tainted :: "bool option"
  aa_principal_id :: "string option"
  aa_notices :: "string list option"

definition outcome_map :: "string \<Rightarrow> AuditOutcome" where
  "outcome_map s = (if s = ''allow'' then ALLOW else if s = ''error'' then ERROR else DENY)"

definition notices_of :: "audit_args \<Rightarrow> string list" where
  "notices_of a = (case aa_notices a of None \<Rightarrow> [] | Some ns \<Rightarrow> ns)"

definition event_of_args :: "audit_env \<Rightarrow> audit_args \<Rightarrow> AuditEvent" where
  "event_of_args v a = \<lparr>
     ae_event_id = av_event_id v,
     ae_event_type = (if aa_tool_id a = None then INTERNAL_TOOL_INVOCATION else TOOL_INVOCATION),
     ae_timestamp = av_timestamp v, ae_client_id = aa_client_id a, ae_platform_version = ''1.0.0'',
     ae_tool_name = aa_tool_name a, ae_tool_id = aa_tool_id a, ae_outcome = Some (outcome_map (aa_outcome a)),
     ae_request_id = aa_request_id a, ae_tool_version = aa_tool_version a,
     ae_latency_ms = Some (aa_latency_ms a), ae_deny_reasons = aa_deny_reasons a,
     ae_anomaly_score = Some (aa_anomaly_score a), ae_opa_decision_id = Some (aa_opa_decision_id a),
     ae_is_testing = aa_is_testing a, ae_source_ip = aa_source_ip a, ae_principal_type = aa_principal_type a,
     ae_roles = aa_roles a, ae_session_jti = aa_session_jti a, ae_tainted = aa_tainted a,
     ae_principal_id = aa_principal_id a, ae_principal_issuer = None, ae_notices = notices_of a,
     ae_sha256_hash = []\<rparr>"

definition compute_hmac_signature :: "string option \<Rightarrow> AuditEvent \<Rightarrow> string option" where
  "compute_hmac_signature key e =
     (let hmac_key = str_or key [] in
      if hmac_key = [] then None else Some (hmac_sha256 hmac_key (canonical_audit_json (canonical_entry e))))"

definition row_of_event :: "audit_env \<Rightarrow> audit_args \<Rightarrow> AuditEvent \<Rightarrow> string \<Rightarrow> audit_row" where
  "row_of_event v a e hash = \<lparr>
     ar_event_id = ae_event_id e, ar_client_id = aa_client_id a, ar_tool_name = aa_tool_name a,
     ar_tool_id = aa_tool_id a, ar_outcome = (if aa_outcome a = ''error'' then ''deny'' else aa_outcome a),
     ar_latency_ms = aa_latency_ms a, ar_sha256_hash = hash, ar_anomaly_score = aa_anomaly_score a,
     ar_opa_reasons = json_dumps (jstrs (aa_deny_reasons a)), ar_request_id = aa_request_id a,
     ar_event_type = Some (event_type_text (ae_event_type e)), ar_event_ts_iso = Some (ae_timestamp e),
     ar_platform_version = Some (ae_platform_version e), ar_original_outcome = Some (aa_outcome a),
     ar_hmac_signature = compute_hmac_signature (av_hmac_key v) e, ar_hmac_key_id = Some ''default'',
     ar_source_ip = aa_source_ip a, ar_principal_type = aa_principal_type a,
     ar_caller_roles = (case aa_roles a of None \<Rightarrow> None | Some rs \<Rightarrow> if rs = [] then None else Some rs),
     ar_session_jti = aa_session_jti a, ar_opa_decision_id = Some (aa_opa_decision_id a),
     ar_principal_id = aa_principal_id a, ar_notices = json_dumps (jstrs (notices_of a)),
     ar_event_ts = av_time v, ar_created_at = av_time v\<rparr>"

text \<open>The check constraints of \<open>audit_events\<close> in migrations V001, V028 and V029.\<close>

definition row_checks :: "audit_row \<Rightarrow> bool" where
  "row_checks r \<longleftrightarrow> ar_outcome r \<in> {''allow'', ''deny''}
     \<and> (case ar_original_outcome r of None \<Rightarrow> True | Some x \<Rightarrow> x \<in> {''allow'', ''deny'', ''error''})
     \<and> 0 \<le> ar_anomaly_score r \<and> ar_anomaly_score r \<le> 1
     \<and> (case ar_principal_type r of None \<Rightarrow> True | Some x \<Rightarrow> x \<in> {''human'', ''agent'', ''service''})"

text \<open>\<^verbatim>\<open>proxy/app/services/wazuh_syslog.py\<close>.\<close>

definition syslog_priority :: "string \<Rightarrow> rat \<Rightarrow> int" where
  "syslog_priority outcome score = (if outcome = ''deny'' then 11 else if 0.7 \<le> score then 12 else 14)"

definition syslog_payload :: "(rat \<Rightarrow> string) \<Rightarrow> audit_args \<Rightarrow> string \<Rightarrow> json" where
  "syslog_payload float_repr a risk_level = JObj
     ([(''client_id'', JStr (aa_client_id a)), (''tool_name'', JStr (aa_tool_name a)), (''outcome'', JStr (aa_outcome a)),
       (''anomaly_score'', JFloat (float_repr (of_int (round (aa_anomaly_score a * 10000)) / 10000))),
       (''risk_level'', JStr risk_level), (''request_id'', JStr (aa_request_id a))]
      @ (if str_true (aa_principal_type a) then [(''principal_type'', JStr (the (aa_principal_type a)))] else [])
      @ (if aa_deny_reasons a \<noteq> [] then [(''deny_reasons'', jstrs (aa_deny_reasons a))] else [])
      @ (if notices_of a \<noteq> [] then [(''notices'', jstrs (notices_of a))] else []))"

definition syslog_datagram :: "audit_env \<Rightarrow> audit_args \<Rightarrow> string" where
  "syslog_datagram v a = take 1024
     (''<'' @ int_text (syslog_priority (aa_outcome a) (aa_anomaly_score a)) @ ''>'' @ av_syslog_ts v
      @ '' MCP-PROXY mcp_audit: '' @ dumps False '','' '':'' (syslog_payload (av_float_repr v) a ''unknown''))"

definition syslog_emit :: "audit_env \<Rightarrow> audit_args \<Rightarrow> audit_store \<Rightarrow> audit_store" where
  "syslog_emit v a st = (if av_sendto_ok v then st\<lparr>syslog := syslog st @ [syslog_datagram v a]\<rparr> else st)"

definition emit_audit_event :: "audit_env \<Rightarrow> audit_args \<Rightarrow> audit_store \<Rightarrow> (exn + string) \<times> audit_store" where
  "emit_audit_event v a st =
     (case post_init (event_of_args v a) of
        Inl x \<Rightarrow> (Inl (AuditEmissionError ''Audit event emission failed''), st)
      | Inr e \<Rightarrow>
          let (hash, st1) = logger_emit v e st in
          if av_skip_db_write v then (Inr (ae_event_id e), st1)
          else
            let row = row_of_event v a e hash in
            if row_checks row \<and> av_insert_ok v row then
              let st2 = st1\<lparr>audit_events := audit_events st1 @ [row]\<rparr> in
              (Inr (ae_event_id e), if str_true (av_wazuh_host v) then syslog_emit v a st2 else st2)
            else (Inl (AuditEmissionError ''audit_events DB write failed''), st1))"

definition emit_internal_tool_event ::
    "audit_env \<Rightarrow> string \<Rightarrow> string \<Rightarrow> string \<Rightarrow> string list \<Rightarrow> string \<Rightarrow> int \<Rightarrow> string \<Rightarrow> audit_store
      \<Rightarrow> (exn + unit) \<times> audit_store" where
  "emit_internal_tool_event v tool_name client_id outcome deny_reasons request_id latency_ms opa_decision_id st =
     (case emit_audit_event v \<lparr>aa_tool_id = None, aa_tool_name = tool_name, aa_tool_version = None,
        aa_client_id = client_id, aa_outcome = outcome, aa_deny_reasons = deny_reasons, aa_request_id = request_id,
        aa_latency_ms = latency_ms, aa_anomaly_score = 0, aa_opa_decision_id = opa_decision_id, aa_is_testing = False,
        aa_source_ip = None, aa_principal_type = None, aa_roles = None, aa_session_jti = None, aa_tainted = None,
        aa_principal_id = None, aa_notices = None\<rparr> st of
        (Inl x, st') \<Rightarrow> (Inl x, st')
      | (Inr _, st') \<Rightarrow> (Inr (), st'))"

text \<open>\<^verbatim>\<open>proxy/app/services/admin_audit.py\<close>: a failed emission is logged and forgotten.\<close>

definition emit_admin_config_event ::
    "audit_env \<Rightarrow> string \<Rightarrow> string \<Rightarrow> string \<Rightarrow> string \<Rightarrow> string \<Rightarrow> (string \<times> json) list \<Rightarrow> string
      \<Rightarrow> audit_store \<Rightarrow> audit_store" where
  "emit_admin_config_event v request_id adm_hex actor action client_id details outcome st =
     snd (emit_audit_event v \<lparr>aa_tool_id = None, aa_tool_name = ''admin.'' @ action, aa_tool_version = None,
        aa_client_id = actor, aa_outcome = outcome,
        aa_deny_reasons = (''target_client='' @ client_id) # map (\<lambda>(k, x). k @ ''='' @ json_dumps x) details,
        aa_request_id = request_id, aa_latency_ms = 0, aa_anomaly_score = 0,
        aa_opa_decision_id = ''adm_'' @ take 16 adm_hex, aa_is_testing = False,
        aa_source_ip = None, aa_principal_type = None, aa_roles = None, aa_session_jti = None, aa_tainted = None,
        aa_principal_id = None, aa_notices = None\<rparr> st)"

subsection \<open>The canonical text determines the canonical fields\<close>

abbreviation ctext :: "json \<Rightarrow> string" where
  "ctext \<equiv> dumps True '','' '':''"

fun str_or_null :: "json \<Rightarrow> bool" where
  "str_or_null JNull = True"
| "str_or_null (JStr _) = True"
| "str_or_null _ = False"

text \<open>The value of each field of the canonical form, in the order of the sorted keys.\<close>

definition core_values :: "json \<Rightarrow> json list" where
  "core_values d = [jget d ''client_id'', jget d ''event_id'', jget d ''event_type'', outcome_value d,
     jget d ''platform_version'', jget d ''request_id'', jget d ''timestamp'', jget d ''tool_id'', jget d ''tool_name'']"

definition core_labels :: "string list" where
  "core_labels = map (\<lambda>k. [CHR 0x22] @ k @ [CHR 0x22] @ '':'') [''client_id'', ''event_id'', ''event_type'', ''outcome'', ''platform_version'',
     ''request_id'', ''timestamp'', ''tool_id'', ''tool_name'']"

lemma sorted_core_keys:
  "sort_key fst [(''event_id'', a1), (''event_type'', a2), (''timestamp'', a3), (''client_id'', a4), (''tool_name'', a5),
      (''tool_id'', a6), (''outcome'', a7), (''request_id'', a8), (''platform_version'', a9 :: string)]
   = [(''client_id'', a4), (''event_id'', a1), (''event_type'', a2), (''outcome'', a7), (''platform_version'', a9),
      (''request_id'', a8), (''timestamp'', a3), (''tool_id'', a6), (''tool_name'', a5)]"
  by (simp add: less_list_code less_eq_list_code less_char_def less_eq_char_def)

lemma canonical_audit_text:
  "canonical_audit_json d =
     ''{'' @ join '','' (map2 (\<lambda>l v. l @ ctext v) core_labels (core_values d)) @ ''}''"
  by (simp add: canonical_audit_json_def canonical_json_def sorted_core_keys Let_def core_labels_def core_values_def
      json_string_def json_escape_char_def short_escapes_def)

lemma ctext_unique:
  assumes "str_or_null v" and "str_or_null w" and "ctext v @ x = ctext w @ y"
  shows "v = w \<and> x = y"
  using assms by (cases v; cases w) (auto simp: json_string_def dest: json_chars_unique)

lemma join_labelled_unique:
  assumes "length vs = length ls" and "length ws = length ls" and "list_all str_or_null vs" and "list_all str_or_null ws"
    and "join '','' (map2 (\<lambda>l v. l @ ctext v) ls vs) @ x = join '','' (map2 (\<lambda>l v. l @ ctext v) ls ws) @ y"
  shows "vs = ws \<and> x = y"
  using assms
proof (induction ls arbitrary: vs ws)
  case (Cons l ls)
  then obtain v vs' w ws' where vw: "vs = v # vs'" "ws = w # ws'" by (auto simp: length_Suc_conv)
  show ?case
  proof (cases ls)
    case Nil
    with Cons.prems vw have "ctext v @ x = ctext w @ y" by simp
    with Cons.prems vw ctext_unique[of v w x y] Nil show ?thesis by simp
  next
    case (Cons l' ls')
    with Cons.prems vw obtain v2 vs2 w2 ws2 where vs2: "vs' = v2 # vs2" "ws' = w2 # ws2"
      by (auto simp: length_Suc_conv)
    let ?j = "\<lambda>us. join '','' (map2 (\<lambda>l v. l @ ctext v) ls us)"
    from Cons Cons.prems vw vs2 have "ctext v @ ('','' @ ?j vs' @ x) = ctext w @ ('','' @ ?j ws' @ y)" by simp
    moreover from Cons.prems vw have "str_or_null v" "str_or_null w" by simp_all
    ultimately have "v = w \<and> '','' @ ?j vs' @ x = '','' @ ?j ws' @ y" using ctext_unique by blast
    with Cons.IH[of vs' ws'] Cons.prems vw show ?thesis by simp
  qed
qed simp

lemma canonical_audit_json_inj:
  assumes "list_all str_or_null (core_values d)" and "list_all str_or_null (core_values d')"
  shows "canonical_audit_json d = canonical_audit_json d' \<longleftrightarrow> core_values d = core_values d'"
proof
  assume "canonical_audit_json d = canonical_audit_json d'"
  then have "join '','' (map2 (\<lambda>l v. l @ ctext v) core_labels (core_values d)) @ ''}''
    = join '','' (map2 (\<lambda>l v. l @ ctext v) core_labels (core_values d')) @ ''}''"
    by (simp add: canonical_audit_text)
  moreover have "length (core_values d) = length core_labels" "length (core_values d') = length core_labels"
    by (simp_all add: core_values_def core_labels_def)
  ultimately show "core_values d = core_values d'"
    using join_labelled_unique assms by blast
qed (simp add: canonical_audit_text)

subsection \<open>No key in a log line\<close>

lemma hex_digit_set: "0 \<le> d \<Longrightarrow> d < 16 \<Longrightarrow> hex_digit d \<in> set ''0123456789abcdef''"
proof -
  assume "0 \<le> d" "d < 16"
  then have "d \<in> set [0..15]" by simp
  moreover have "\<forall>d \<in> set [0..15]. hex_digit d \<in> set ''0123456789abcdef''" by code_simp
  ultimately show ?thesis by blast
qed

lemma set_sha256: "set (sha256 s) \<subseteq> set ''0123456789abcdef''"
proof -
  have "hex_digit (b div 16) \<in> set ''0123456789abcdef'' \<and> hex_digit (b mod 16) \<in> set ''0123456789abcdef''"
    if "b \<in> set (sha256_bytes bs)" for b bs
  proof -
    from that have "0 \<le> b" "b < 256" by (auto simp: sha256_bytes_def word_bytes_def)
    then show ?thesis by (intro conjI hex_digit_set) auto
  qed
  then show ?thesis unfolding sha256_def hex_of_bytes_def by fastforce
qed

lemma secret_letters:
  "is_aws_access_key m \<Longrightarrow> CHR ''K'' \<in> set m" "is_github_token m \<Longrightarrow> CHR ''g'' \<in> set m"
  using set_take_subset[of 4 m] set_take_subset[of 11 m] by (auto simp: is_aws_access_key_def is_github_token_def)

lemma no_secret_without_letters:
  assumes "CHR ''K'' \<notin> set t" and "CHR ''g'' \<notin> set t"
  shows "\<not> occurs_in is_aws_access_key t \<and> \<not> occurs_in is_github_token t"
  using assms secret_letters set_mono_sublist unfolding occurs_in_def by blast

lemma json_texts_update:
  "t \<in> set (json_texts (JObj (AList.update k v kvs))) \<Longrightarrow> t \<in> set (json_texts v) \<or> t \<in> set (json_texts (JObj kvs))"
  by (induction kvs) (auto split: if_splits)


end
