(* ===== verification/JsonParse.thy ===== *)
theory JsonParse
  imports JsonText "HOL-Library.AList"
begin

section \<open>Reading JSON\<close>

text \<open>
  \<open>json.loads\<close>: a recursive descent over the text, as the standard library's scanner does it: strings with
  their escapes, numbers, the constants, arrays and objects, a repeated key keeping its first place
  and its last value. A number with a fraction or an exponent is kept as written. The descent has fuel, and the
  length of the text is enough: no larger fuel reads more.
\<close>

definition is_ws :: "char \<Rightarrow> bool" where
  "is_ws c = (c = CHR '' '' \<or> c = CHR 0x09 \<or> c = CHR 0x0A \<or> c = CHR 0x0D)"

definition skip_ws :: "string \<Rightarrow> string" where
  "skip_ws s = dropWhile is_ws s"

text \<open>The text after the character, where it comes next.\<close>

definition expect :: "char \<Rightarrow> string \<Rightarrow> string option" where
  "expect c s = (case s of x # r \<Rightarrow> if x = c then Some r else None | [] \<Rightarrow> None)"

definition unescape :: "char \<Rightarrow> char option" where
  "unescape e = map_of [(CHR 0x22, CHR 0x22), (CHR 0x5C, CHR 0x5C), (CHR ''/'', CHR ''/''), (CHR ''n'', CHR 0x0A),
     (CHR ''r'', CHR 0x0D), (CHR ''t'', CHR 0x09), (CHR ''f'', CHR 0x0C), (CHR ''b'', CHR 0x08)] e"

definition cons_fst :: "'a \<Rightarrow> 'a list \<times> 'b \<Rightarrow> 'a list \<times> 'b" where
  "cons_fst x p = (x # fst p, snd p)"

text \<open>The rest of a string after its opening quote; a \<open>\u\<close> escape beyond the character type is not read.\<close>

fun pstr :: "string \<Rightarrow> (string \<times> string) option" where
  "pstr [] = None"
| "pstr (c # s) =
     (if c = CHR 0x22 then Some ([], s)
      else if c = CHR 0x5C then
        (case s of
           [] \<Rightarrow> None
         | e # s1 \<Rightarrow>
             if e = CHR ''u'' then
               (case s1 of
                  h1 # h2 # h3 # h4 # s2 \<Rightarrow>
                    if is_hex h1 \<and> is_hex h2 \<and> is_hex h3 \<and> is_hex h4 \<and> int_of_hex [h1, h2, h3, h4] < 256
                    then map_option (cons_fst (char_of (int_of_hex [h1, h2, h3, h4]))) (pstr s2) else None
                | _ \<Rightarrow> None)
             else (case unescape e of None \<Rightarrow> None | Some x \<Rightarrow> map_option (cons_fst x) (pstr s1)))
      else if (of_char c :: int) < 32 then None
      else map_option (cons_fst c) (pstr s))"

definition take_digits :: "string \<Rightarrow> string \<times> string" where
  "take_digits s = (takeWhile is_digit s, dropWhile is_digit s)"

text \<open>\<open>(-?(?:0|[1-9]\d*))(\.\d+)?([eE][-+]?\d+)?\<close>.\<close>

definition pint :: "string \<Rightarrow> (string \<times> string) option" where
  "pint s = (let (sign, r) = (case expect CHR ''-'' s of Some r \<Rightarrow> (''-'', r) | None \<Rightarrow> ([], s)) in
     case r of
       [] \<Rightarrow> None
     | c # r' \<Rightarrow> if c = CHR ''0'' then Some (sign @ ''0'', r')
                 else if is_digit c then Some (sign @ fst (take_digits r), snd (take_digits r)) else None)"

definition pfrac :: "string \<Rightarrow> string \<times> string" where
  "pfrac s = (case expect CHR ''.'' s of
       Some r \<Rightarrow> let (d, r') = take_digits r in if d = [] then ([], s) else (CHR ''.'' # d, r')
     | None \<Rightarrow> ([], s))"

definition pexp :: "string \<Rightarrow> string \<times> string" where
  "pexp s = (case s of
       e # r \<Rightarrow>
         if e \<in> {CHR ''e'', CHR ''E''} then
           (let (sg, r1) = (case r of x # r' \<Rightarrow> if x \<in> {CHR ''-'', CHR ''+''} then ([x], r') else ([], r) | [] \<Rightarrow> ([], r));
                (d, r2) = take_digits r1
            in if d = [] then ([], s) else (e # sg @ d, r2))
         else ([], s)
     | [] \<Rightarrow> ([], s))"

definition int_of_text :: "string \<Rightarrow> int" where
  "int_of_text s = (case expect CHR ''-'' s of Some r \<Rightarrow> - int_of_digits r | None \<Rightarrow> int_of_digits s)"

definition pnum :: "string \<Rightarrow> (json \<times> string) option" where
  "pnum s = (case pint s of
       None \<Rightarrow> None
     | Some (i, r) \<Rightarrow>
         let (f, r1) = pfrac r; (e, r2) = pexp r1 in
         Some (if f = [] \<and> e = [] then JInt (int_of_text i) else JFloat (i @ f @ e), r2))"

definition json_constants :: "(string \<times> json) list" where
  "json_constants = [(''null'', JNull), (''true'', JBool True), (''false'', JBool False), (''NaN'', JFloat ''NaN''),
     (''Infinity'', JFloat ''Infinity''), (''-Infinity'', JFloat ''-Infinity'')]"

text \<open>\<open>dict(pairs)\<close>.\<close>

definition dict_of :: "(string \<times> json) list \<Rightarrow> (string \<times> json) list" where
  "dict_of kvs = foldl (\<lambda>d (k, v). AList.update k v d) [] kvs"

definition patom :: "string \<Rightarrow> (json \<times> string) option" where
  "patom s = (case find (\<lambda>kv. prefix (fst kv) s) json_constants of
       Some (k, v) \<Rightarrow> Some (v, drop (length k) s)
     | None \<Rightarrow> pnum s)"

fun pval :: "nat \<Rightarrow> string \<Rightarrow> (json \<times> string) option"
and parr :: "nat \<Rightarrow> string \<Rightarrow> (json list \<times> string) option"
and pobj :: "nat \<Rightarrow> string \<Rightarrow> ((string \<times> json) list \<times> string) option" where
  "pval 0 s = None"
| "pval (Suc n) s =
     (case s of
        [] \<Rightarrow> None
      | c # r \<Rightarrow>
          if c = CHR 0x22 then map_option (\<lambda>(t, r'). (JStr t, r')) (pstr r)
          else if c = CHR ''['' then
            (case expect CHR '']'' (skip_ws r) of
               Some r' \<Rightarrow> Some (JArr [], r')
             | None \<Rightarrow> map_option (\<lambda>(vs, r'). (JArr vs, r')) (parr n (skip_ws r)))
          else if c = CHR ''{'' then
            (case expect CHR ''}'' (skip_ws r) of
               Some r' \<Rightarrow> Some (JObj [], r')
             | None \<Rightarrow> map_option (\<lambda>(kvs, r'). (JObj (dict_of kvs), r')) (pobj n (skip_ws r)))
          else patom s)"
| "parr 0 s = None"
| "parr (Suc n) s =
     (case pval n s of
        None \<Rightarrow> None
      | Some (v, r) \<Rightarrow>
          (case expect CHR '','' (skip_ws r) of
             Some r' \<Rightarrow> map_option (cons_fst v) (parr n (skip_ws r'))
           | None \<Rightarrow> map_option (\<lambda>r'. ([v], r')) (expect CHR '']'' (skip_ws r))))"
| "pobj 0 s = None"
| "pobj (Suc n) s =
     (case Option.bind (expect CHR 0x22 s) pstr of
        None \<Rightarrow> None
      | Some (k, s2) \<Rightarrow>
          (case Option.bind (expect CHR '':'' (skip_ws s2)) (pval n \<circ> skip_ws) of
             None \<Rightarrow> None
           | Some (v, r) \<Rightarrow>
               (case expect CHR '','' (skip_ws r) of
                  Some r' \<Rightarrow> map_option (cons_fst (k, v)) (pobj n (skip_ws r'))
                | None \<Rightarrow> map_option (\<lambda>r'. ([(k, v)], r')) (expect CHR ''}'' (skip_ws r)))))"

definition json_loads :: "string \<Rightarrow> json option" where
  "json_loads s = (case pval (Suc (length s)) (skip_ws s) of
       Some (v, r) \<Rightarrow> if skip_ws r = [] then Some v else None
     | None \<Rightarrow> None)"

subsection \<open>The length of the text is enough fuel\<close>

lemma expect_Some: "expect c s = Some r \<longleftrightarrow> s = c # r"
  by (cases s) (auto simp: expect_def)

lemma expect_Cons [simp]: "expect c (x # s) = (if x = c then Some s else None)" "expect c [] = None"
  by (simp_all add: expect_def)

lemma length_skip_ws: "length (skip_ws s) \<le> length s"
  by (simp add: skip_ws_def length_dropWhile_le)

lemma pstr_shorter: "pstr s = Some (t, r) \<Longrightarrow> length r < length s"
proof (induction s arbitrary: t r rule: pstr.induct)
  case (2 c s)
  then show ?case
    by (fastforce simp: cons_fst_def split: if_splits list.splits option.splits)
qed simp

lemma take_digits_length: "length (snd (take_digits s)) \<le> length s"
  by (simp add: take_digits_def length_dropWhile_le)

lemma pint_shorter:
  assumes "pint s = Some (i, r)"
  shows "length r < length s"
proof -
  obtain sign q where q: "(case expect CHR ''-'' s of Some r \<Rightarrow> (''-'', r) | None \<Rightarrow> ([], s)) = (sign, q)" by fastforce
  then have "length q \<le> length s" by (auto simp: expect_Some split: option.splits)
  with assms q show ?thesis
    using length_dropWhile_le[of is_digit "tl q"]
    by (cases q) (auto simp: pint_def take_digits_def split: if_splits)
qed

lemma pfrac_shorter: "length (snd (pfrac s)) \<le> length s"
  using length_dropWhile_le[of is_digit] by (auto simp: pfrac_def take_digits_def expect_Some Let_def le_SucI split: option.splits)

lemma pexp_shorter: "length (snd (pexp s)) \<le> length s"
  using length_dropWhile_le[of is_digit]
  by (auto simp: pexp_def take_digits_def Let_def le_SucI split: list.splits if_splits)

lemma pnum_shorter: "pnum s = Some (v, r) \<Longrightarrow> length r < length s"
proof -
  assume num: "pnum s = Some (v, r)"
  then obtain i q where q: "pint s = Some (i, q)" by (auto simp: pnum_def split: option.splits)
  with num have "r = snd (pexp (snd (pfrac q)))" by (auto simp: pnum_def case_prod_beta Let_def)
  with pint_shorter[OF q] pfrac_shorter[of q] pexp_shorter[of "snd (pfrac q)"] show ?thesis by simp
qed

lemma patom_shorter:
  assumes "patom s = Some (v, r)"
  shows "length r < length s"
proof (cases "find (\<lambda>kv. prefix (fst kv) s) json_constants")
  case (Some kv)
  then have "kv \<in> set json_constants" "prefix (fst kv) s" using find_Some_set[OF Some] by auto
  moreover from this(1) have "fst kv \<noteq> []" by (auto simp: json_constants_def)
  moreover from assms Some have "r = drop (length (fst kv)) s" by (auto simp: patom_def case_prod_beta)
  ultimately show ?thesis using prefix_length_le[of "fst kv" s] by (cases "fst kv") simp_all
qed (use assms pnum_shorter in \<open>auto simp: patom_def\<close>)

lemma after_ws: "expect c (skip_ws r) = Some r' \<Longrightarrow> length (skip_ws r') < length r"
  using length_skip_ws[of r] length_skip_ws[of r'] by (auto simp: expect_Some)

lemma after_ws_only: "expect c (skip_ws r) = Some r' \<Longrightarrow> length r' < length r"
  using length_skip_ws[of r] by (auto simp: expect_Some)

definition reads :: "(nat \<Rightarrow> string \<Rightarrow> ('a \<times> string) option) \<Rightarrow> string \<Rightarrow> 'a \<Rightarrow> string \<Rightarrow> bool" where
  "reads p s v r \<longleftrightarrow> length r < length s \<and> (\<forall>m. length s - length r \<le> m \<longrightarrow> p m s = Some (v, r))"

lemma readsD: "reads p s v r \<Longrightarrow> length s - length r \<le> m \<Longrightarrow> p m s = Some (v, r)"
  by (auto simp: reads_def)

lemma reads_Suc:
  assumes "length r < length s" and "\<And>m. length s - length r \<le> Suc m \<Longrightarrow> p (Suc m) s = Some (v, r)"
  shows "reads p s v r"
  unfolding reads_def
proof (intro conjI allI impI)
  fix m assume "length s - length r \<le> m"
  with assms(1) obtain k where "m = Suc k" by (cases m) auto
  with assms(2)[of k] \<open>length s - length r \<le> m\<close> show "p m s = Some (v, r)" by simp
qed (rule assms(1))

text \<open>One rule for each step of the descent.\<close>

lemma reads_string: "pstr q = Some (t, r) \<Longrightarrow> reads pval (CHR 0x22 # q) (JStr t) r"
  using pstr_shorter[of q t r] by (intro reads_Suc) auto

lemma reads_atom: "patom s = Some (v, r) \<Longrightarrow> hd s \<notin> {CHR 0x22, CHR ''['', CHR ''{''} \<Longrightarrow> reads pval s v r"
  using patom_shorter[of s v r] by (intro reads_Suc) (auto split: list.splits)

lemma reads_empty_array: "expect CHR '']'' (skip_ws q) = Some r \<Longrightarrow> reads pval (CHR ''['' # q) (JArr []) r"
  using after_ws_only[of "CHR '']''" q r] by (intro reads_Suc) auto

lemma reads_empty_object: "expect CHR ''}'' (skip_ws q) = Some r \<Longrightarrow> reads pval (CHR ''{'' # q) (JObj []) r"
  using after_ws_only[of "CHR ''}''" q r] by (intro reads_Suc) auto

lemma reads_array:
  assumes "reads parr (skip_ws q) vs r" and "expect CHR '']'' (skip_ws q) = None"
  shows "reads pval (CHR ''['' # q) (JArr vs) r"
proof (rule reads_Suc)
  show "length r < length (CHR ''['' # q)" using assms(1) length_skip_ws[of q] by (simp add: reads_def)
  fix m assume "length (CHR ''['' # q) - length r \<le> Suc m"
  then have "parr m (skip_ws q) = Some (vs, r)" using assms(1) length_skip_ws[of q] by (simp add: reads_def)
  then show "pval (Suc m) (CHR ''['' # q) = Some (JArr vs, r)" using assms(2) by simp
qed

lemma reads_object:
  assumes "reads pobj (skip_ws q) kvs r" and "expect CHR ''}'' (skip_ws q) = None"
  shows "reads pval (CHR ''{'' # q) (JObj (dict_of kvs)) r"
proof (rule reads_Suc)
  show "length r < length (CHR ''{'' # q)" using assms(1) length_skip_ws[of q] by (simp add: reads_def)
  fix m assume "length (CHR ''{'' # q) - length r \<le> Suc m"
  then have "pobj m (skip_ws q) = Some (kvs, r)" using assms(1) length_skip_ws[of q] by (simp add: reads_def)
  then show "pval (Suc m) (CHR ''{'' # q) = Some (JObj (dict_of kvs), r)" using assms(2) by simp
qed

lemma reads_last:
  assumes "reads pval s v q" and "expect CHR '','' (skip_ws q) = None" and "expect CHR '']'' (skip_ws q) = Some r"
  shows "reads parr s [v] r"
proof (rule reads_Suc)
  show "length r < length s" using assms(1) after_ws_only[OF assms(3)] by (simp add: reads_def)
  fix m assume "length s - length r \<le> Suc m"
  then have "pval m s = Some (v, q)" using assms(1) after_ws_only[OF assms(3)] by (simp add: reads_def)
  then show "parr (Suc m) s = Some ([v], r)" using assms(2,3) by simp
qed

lemma reads_more:
  assumes "reads pval s v q" and "expect CHR '','' (skip_ws q) = Some q'" and "reads parr (skip_ws q') vs r"
  shows "reads parr s (v # vs) r"
proof (rule reads_Suc)
  note len = after_ws[OF assms(2)]
  show "length r < length s" using assms(1,3) len by (simp add: reads_def)
  fix m assume m: "length s - length r \<le> Suc m"
  have short: "length r < length (skip_ws q')" "length q < length s" using assms(1,3) by (simp_all add: reads_def)
  have "pval m s = Some (v, q)" by (rule readsD[OF assms(1)]) (use m short len in linarith)
  moreover have "parr m (skip_ws q') = Some (vs, r)" by (rule readsD[OF assms(3)]) (use m short len in linarith)
  ultimately show "parr (Suc m) s = Some (v # vs, r)" using assms(2) by (simp add: cons_fst_def)
qed

lemma member_shorter:
  assumes "pstr s = Some (k, s2)" and "expect CHR '':'' (skip_ws s2) = Some s3"
  shows "length (skip_ws s3) < length s"
  using pstr_shorter[OF assms(1)] after_ws[OF assms(2)] by simp

lemma reads_last_member:
  assumes "pstr s = Some (k, s2)" and "expect CHR '':'' (skip_ws s2) = Some s3" and "reads pval (skip_ws s3) v q"
    and "expect CHR '','' (skip_ws q) = None" and "expect CHR ''}'' (skip_ws q) = Some r"
  shows "reads pobj (CHR 0x22 # s) [(k, v)] r"
proof (rule reads_Suc)
  note len = member_shorter[OF assms(1,2)] after_ws_only[OF assms(5)]
  show "length r < length (CHR 0x22 # s)" using assms(3) len by (simp add: reads_def)
  fix m assume "length (CHR 0x22 # s) - length r \<le> Suc m"
  then have "pval m (skip_ws s3) = Some (v, q)" using assms(3) len by (simp add: reads_def)
  then show "pobj (Suc m) (CHR 0x22 # s) = Some ([(k, v)], r)" using assms(1,2,4,5) by simp
qed

lemma reads_more_members:
  assumes "pstr s = Some (k, s2)" and "expect CHR '':'' (skip_ws s2) = Some s3" and "reads pval (skip_ws s3) v q"
    and "expect CHR '','' (skip_ws q) = Some q'" and "reads pobj (skip_ws q') kvs r"
  shows "reads pobj (CHR 0x22 # s) ((k, v) # kvs) r"
proof (rule reads_Suc)
  note len = member_shorter[OF assms(1,2)] after_ws[OF assms(4)]
  show "length r < length (CHR 0x22 # s)" using assms(3,5) len by (simp add: reads_def)
  fix m assume m: "length (CHR 0x22 # s) - length r \<le> Suc m"
  have short: "length r < length (skip_ws q')" "length q < length (skip_ws s3)" using assms(3,5) by (simp_all add: reads_def)
  have "pval m (skip_ws s3) = Some (v, q)" by (rule readsD[OF assms(3)]) (use m short len in simp)
  moreover have "pobj m (skip_ws q') = Some (kvs, r)" by (rule readsD[OF assms(5)]) (use m short len in simp)
  ultimately show "pobj (Suc m) (CHR 0x22 # s) = Some ((k, v) # kvs, r)" using assms(1,2,4) by (simp add: cons_fst_def)
qed

lemma fuel_enough:
  "pval n s = Some (v, r) \<Longrightarrow> reads pval s v r"
  "parr n s = Some (vs, r) \<Longrightarrow> reads parr s vs r"
  "pobj n s = Some (kvs, r) \<Longrightarrow> reads pobj s kvs r"
proof (induction n s and n s and n s arbitrary: v r and vs r and kvs r rule: pval_parr_pobj.induct)
  case (2 n s)
  from 2(3) obtain c q where s: "s = c # q" by (auto split: list.splits)
  consider (str) "c = CHR 0x22" | (arr) "c = CHR ''[''" | (obj) "c = CHR ''{''" | (atom) "c \<notin> {CHR 0x22, CHR ''['', CHR ''{''}"
    by blast
  then show ?case
  proof cases
    case str
    with 2(3) s show ?thesis by (auto intro: reads_string)
  next
    case atom
    with 2(3) s show ?thesis by (auto intro: reads_atom)
  next
    case arr
    show ?thesis
    proof (cases "expect CHR '']'' (skip_ws q)")
      case None
      with arr 2(3) s obtain xs where xs: "parr n (skip_ws q) = Some (xs, r)" "v = JArr xs" by auto
      with 2(1)[OF s _ arr] None arr show ?thesis unfolding s arr xs(2) by (intro reads_array) auto
    qed (use arr 2(3) s in \<open>auto intro: reads_empty_array\<close>)
  next
    case obj
    show ?thesis
    proof (cases "expect CHR ''}'' (skip_ws q)")
      case None
      with obj 2(3) s obtain xs where xs: "pobj n (skip_ws q) = Some (xs, r)" "v = JObj (dict_of xs)" by auto
      with 2(2)[OF s _ _ obj] None obj show ?thesis unfolding s obj xs(2) by (intro reads_object) auto
    qed (use obj 2(3) s in \<open>auto intro: reads_empty_object\<close>)
  qed
next
  case (4 n s)
  from 4(3) obtain v q where v: "pval n s = Some (v, q)" by (auto split: option.splits)
  have ih: "reads pval s v q" using 4(1) v by simp
  show ?case
  proof (cases "expect CHR '','' (skip_ws q)")
    case None
    with v 4(3) ih show ?thesis by (auto intro: reads_last)
  next
    case (Some r')
    with v 4(3) obtain ws where ws: "parr n (skip_ws r') = Some (ws, r)" "vs = v # ws" by (auto simp: cons_fst_def)
    have "reads parr (skip_ws r') ws r" using 4(2)[OF v _ Some] ws(1) by simp
    with ih Some show ?thesis unfolding ws(2) by (rule reads_more)
  qed
next
  case (6 n s)
  from 6(3) obtain s1 k s2 s3 v q where s1: "s = CHR 0x22 # s1" and k: "pstr s1 = Some (k, s2)"
    and s3: "expect CHR '':'' (skip_ws s2) = Some s3" and v: "pval n (skip_ws s3) = Some (v, q)"
    by (auto simp: bind_eq_Some_conv expect_Some split: option.splits)
  have k': "Option.bind (expect CHR 0x22 s) pstr = Some (k, s2)" using s1 k by simp
  have v': "Option.bind (expect CHR '':'' (skip_ws s2)) (pval n \<circ> skip_ws) = Some (v, q)" using s3 v by simp
  have ih: "reads pval (skip_ws s3) v q" using 6(1)[OF k' _ s3] v by simp
  show ?case
  proof (cases "expect CHR '','' (skip_ws q)")
    case None
    with k' v' 6(3) ih k s3 show ?thesis unfolding s1 by (auto intro: reads_last_member)
  next
    case (Some r')
    with k' v' 6(3) obtain ws where ws: "pobj n (skip_ws r') = Some (ws, r)" "kvs = (k, v) # ws" by (auto simp: cons_fst_def)
    have "reads pobj (skip_ws r') ws r" using 6(2)[OF k' _ v' _ Some] ws(1) by simp
    with k s3 ih Some show ?thesis unfolding s1 ws(2) by (rule reads_more_members)
  qed
qed simp_all

end
