(* ===== verification/Invocation.thy ===== *)
theory Invocation
  imports Ssrf Taint Entitlement Anomaly Profile Policy AuditLog ResponseFilter JsonParse
begin

section \<open>The invocation pipeline\<close>

text \<open>
  \<^verbatim>\<open>proxy/app/services/invocation.py\<close>: \<open>invoke_tool\<close> with its nine pre-dispatch gates, the policy query, the two checks of the
  upstream, credential injection, the MCP exchange with the upstream, and what happens to its answer.

  The state \<open>gw\<close> holds the database, Redis, the audit records and what was sent. Its field \<open>gw_trace\<close> records, in order,
  what one call does to the outside: audit calls, credentials fetched, requests sent, taint marks. A stage takes the state and
  gives a result or an exception with the new state. \<open>gw_env\<close> is the outside of one call: settings, the
  clock and the faults at each stage, OPA, the resolver at each of its two uses, the credential broker
  (\<^verbatim>\<open>credential_broker/dispatcher.py\<close>, which is not modelled), and the upstream server, whose answer may depend
  on every request it has seen. Message texts built by other modules are parameters.
\<close>

subsection \<open>State\<close>

record mcp_request = http_request +
  mr_url :: string
  mr_body :: json

record http_response =
  rs_status :: int
  rs_headers :: "(string \<times> string) list"   \<comment> \<open>names in lower case\<close>
  rs_content :: string

datatype action =
    Audited string "string list" bool   \<comment> \<open>outcome, reasons, and whether the record was written\<close>
  | FetchedCredential
  | Sent mcp_request
  | MarkedTaint

record gw =
  gw_db :: db
  gw_redis :: redis
  gw_audit :: audit_store
  gw_emits :: nat   \<comment> \<open>audit calls so far\<close>
  gw_alerts :: "(string \<times> string \<times> rat) list"
  gw_sent :: "mcp_request list"
  gw_trace :: "action list"

text \<open>A row of \<open>tool_registry\<close>, with the columns the pipeline reads.\<close>

record tool_record =
  t_tool_id :: "string option"
  t_name :: string
  t_status :: string
  t_version :: "string option"
  t_risk_level :: "string option"   \<comment> \<open>\<open>None\<close>: the record has no such key\<close>
  t_server_id :: "string option"
  t_upstream_url :: string
  t_required_integrity :: "int option"
  t_injection_mode :: string
  t_upstream_allowlist_entry :: "string option"
  t_sensitivity_label :: "string option"

text \<open>The arguments of \<open>invoke_tool\<close>.\<close>

record call =
  ca_tool_record :: tool_record
  ca_request :: json
  ca_client_id :: string
  ca_client_roles :: "string list"
  ca_is_testing :: bool
  ca_request_id :: string
  ca_inbound_auth :: "string option"
  ca_principal_id :: "string option"
  ca_principal_type :: "string option"
  ca_user_kc_token :: "string option"
  ca_source_ip :: "string option"
  ca_session_jti :: "string option"
  ca_profile_uuid :: "string option"
  ca_principal_issuer :: "string option"
  ca_principal_display_sub :: "string option"

text \<open>\<open>InvocationContext\<close>: the arguments, what is derived from them, and the outputs of the gates.\<close>

record ctx = call +
  cx_tool_server_id :: string
  cx_params :: json
  cx_function_name :: string
  cx_tainted :: "bool option"
  cx_taint_notice :: "string option"
  cx_taint_server_trust_tier :: "int option"
  cx_anomaly_score :: rat
  cx_recent_calls :: "(string \<times> rat) list"
  cx_profile_data :: "profile option"
  cx_owned_server_ids :: "string list"
  cx_owner_max_risk_level :: string

record gw_settings =
  SCAN_MAX_AGE_HOURS :: rat
  SCAN_FRESHNESS_ENFORCED :: bool
  TAINT_FLOOR_ENABLED :: bool
  TAINT_FLOOR_MODE :: string
  ENVIRONMENT :: string
  RESPONSE_FILTER_BLOCK :: "string option"   \<comment> \<open>the environment variable\<close>

datatype stage =
    AtMaintenance | AtFreshness | AtEntitlement | AtTaint | AtAnomaly | AtWindow | AtProfile | AtOwned | AtCutoff
  | AtAllowlist | AtSession | AtConnection | AtMark

text \<open>What \<open>dispatch_credential_injection\<close> may raise: a \<open>CredentialInjectionError\<close>, or anything else.\<close>

datatype dispatch_failure = CredentialFailure cred_error | OtherFailure string

record gw_env =
  ge_settings :: gw_settings
  ge_world :: "stage \<Rightarrow> world"
  ge_audit :: "nat \<Rightarrow> audit_env"
  ge_opa :: "opa_input \<Rightarrow> opa_reply"
  ge_decision_hex :: string   \<comment> \<open>\<open>uuid4().hex[:16]\<close>\<close>
  ge_dns_check :: "string \<Rightarrow> string list option"   \<comment> \<open>the resolver at the SSRF check\<close>
  ge_dns_pin :: "string \<Rightarrow> string list option"   \<comment> \<open>the resolver at the re-validation\<close>
  ge_ssrf_text :: "ssrf_error \<Rightarrow> string"
  ge_reval_text :: "revalidation_error \<Rightarrow> string"
  ge_dispatch :: "ctx \<Rightarrow> dispatch_failure + (string \<times> string) list"   \<comment> \<open>\<open>dispatch_credential_injection\<close>\<close>
  ge_upstream :: "mcp_request list \<Rightarrow> mcp_request \<Rightarrow> string + http_response"   \<comment> \<open>earlier requests, this one\<close>
  ge_latency_ms :: int

text \<open>A stage that may raise, and the next one.\<close>

definition andthen :: "('s \<Rightarrow> ('e + 'a) \<times> 's) \<Rightarrow> ('a \<Rightarrow> 's \<Rightarrow> ('e + 'b) \<times> 's) \<Rightarrow> 's \<Rightarrow> ('e + 'b) \<times> 's" where
  "andthen m f s = (case m s of (Inl e, s') \<Rightarrow> (Inl e, s') | (Inr x, s') \<Rightarrow> f x s')"

subsection \<open>Building the context\<close>

definition jget_or :: "json \<Rightarrow> string \<Rightarrow> json \<Rightarrow> json" where
  "jget_or d k v = (case jlookup d k of None \<Rightarrow> v | Some x \<Rightarrow> x)"

text \<open>
  A name that is not text is no member of a profile's list of functions; the policy refuses it exactly where it refuses the
  empty name.
\<close>

definition text_of :: "json \<Rightarrow> string" where
  "text_of j = (case j of JStr s \<Rightarrow> s | _ \<Rightarrow> [])"

definition build :: "call \<Rightarrow> exn + ctx" where
  "build c =
     (let params = jget_or (ca_request c) ''params'' (JObj []) in
      if \<not> is_obj (ca_request c) \<or> \<not> is_obj params then Inl (AttributeError ''get'')
      else Inr (call.extend c (ctx.fields
        (case t_server_id (ca_tool_record c) of Some s \<Rightarrow> s | None \<Rightarrow> [])
        (jget_or params ''arguments'' (JObj []))
        (text_of (jget_or params ''name'' (JStr [])))
        None None None 0 [] None [] ''medium'')))"

definition tool_risk_level :: "ctx \<Rightarrow> string" where
  "tool_risk_level c = (case t_risk_level (ca_tool_record c) of None \<Rightarrow> ''low'' | Some l \<Rightarrow> l)"

definition str_tool_id :: "ctx \<Rightarrow> string" where
  "str_tool_id c = (case t_tool_id (ca_tool_record c) of None \<Rightarrow> ''None'' | Some i \<Rightarrow> i)"

subsection \<open>Audit calls\<close>

definition audit :: "gw_env \<Rightarrow> audit_args \<Rightarrow> gw \<Rightarrow> (exn + string) \<times> gw" where
  "audit env a g =
     (let (r, st) = emit_audit_event (ge_audit env (gw_emits g)) a (gw_audit g) in
      (r, g\<lparr>gw_audit := st, gw_emits := Suc (gw_emits g),
            gw_trace := gw_trace g @ [Audited (aa_outcome a) (aa_deny_reasons a) (\<not> isl r)]\<rparr>))"

text \<open>The arguments a gate passes, and those of the stages after the policy query.\<close>

definition gate_audit_args :: "ctx \<Rightarrow> string \<Rightarrow> string list \<Rightarrow> audit_args" where
  "gate_audit_args c outcome reasons =
     \<lparr>aa_tool_id = t_tool_id (ca_tool_record c), aa_tool_name = t_name (ca_tool_record c),
      aa_tool_version = t_version (ca_tool_record c), aa_client_id = ca_client_id c, aa_outcome = outcome,
      aa_deny_reasons = reasons, aa_request_id = ca_request_id c, aa_latency_ms = 0, aa_anomaly_score = 0,
      aa_opa_decision_id = [], aa_is_testing = ca_is_testing c, aa_source_ip = ca_source_ip c,
      aa_principal_type = ca_principal_type c, aa_roles = Some (ca_client_roles c), aa_session_jti = ca_session_jti c,
      aa_tainted = None, aa_principal_id = ca_principal_id c, aa_notices = None\<rparr>"

definition late_audit_args :: "ctx \<Rightarrow> string \<Rightarrow> string \<Rightarrow> string list \<Rightarrow> audit_args" where
  "late_audit_args c opa_decision_id outcome reasons =
     (gate_audit_args c outcome reasons)\<lparr>aa_tool_id := Some (str_tool_id c), aa_anomaly_score := cx_anomaly_score c,
        aa_opa_decision_id := opa_decision_id\<rparr>"

text \<open>Audit, then raise: a failing audit call raises its own error.\<close>

definition audit_then_raise :: "gw_env \<Rightarrow> audit_args \<Rightarrow> exn \<Rightarrow> gw \<Rightarrow> (exn + 'a) \<times> gw" where
  "audit_then_raise env a e = andthen (audit env a) (\<lambda>_ g. (Inl e, g))"

subsection \<open>Gates\<close>

definition gate_tool_status :: "gw_env \<Rightarrow> ctx \<Rightarrow> gw \<Rightarrow> (exn + ctx) \<times> gw" where
  "gate_tool_status env c g =
     (let tool_status = t_status (ca_tool_record c) in
      if tool_status = ''disabled'' then (Inl ToolDisabledError, g)
      else if tool_status = ''quarantined'' then (Inl ToolQuarantinedError, g)
      else if tool_status = ''deprecated'' then (Inl ToolDeprecatedError, g)
      else (Inr c, g))"

definition gate_maintenance :: "gw_env \<Rightarrow> ctx \<Rightarrow> gw \<Rightarrow> (exn + ctx) \<times> gw" where
  "gate_maintenance env c g =
     (let sid = cx_tool_server_id c in
      if sid = [] then (Inr c, g)
      else if \<not> db_ok (ge_world env AtMaintenance) QMaintenance then (Inl (ServerInMaintenanceError sid), g)
      else case live_server (gw_db g) sid of
        None \<Rightarrow> (Inr c, g)
      | Some row \<Rightarrow>
          if sr_debug_mode row \<and> Some (ca_client_id c) \<noteq> sr_owner_sub row \<and> ca_client_id c \<notin> set (sr_maintainers row)
          then (Inl (ServerInMaintenanceError sid), g) else (Inr c, g))"

text \<open>What the \<open>except Exception\<close> of the freshness gate does; a failing audit call inside the \<open>try\<close> ends there too.\<close>

definition freshness_failed :: "gw_env \<Rightarrow> ctx \<Rightarrow> gw \<Rightarrow> (exn + ctx) \<times> gw" where
  "freshness_failed env c g =
     (if SCAN_FRESHNESS_ENFORCED (ge_settings env)
      then audit_then_raise env (gate_audit_args c ''deny'' [''scan_freshness_lookup_failed'']) (ScanFreshnessError None) g
      else (Inr c, g))"

definition gate_scan_freshness :: "gw_env \<Rightarrow> ctx \<Rightarrow> gw \<Rightarrow> (exn + ctx) \<times> gw" where
  "gate_scan_freshness env c g =
     (let sid = cx_tool_server_id c; w = ge_world env AtFreshness; st = ge_settings env in
      if sid = [] then (Inr c, g)
      else if \<not> db_ok w QScanFreshness then freshness_failed env c g
      else let last_scan = (case live_server (gw_db g) sid of None \<Rightarrow> None | Some row \<Rightarrow> sr_last_rescanned_at row);
               stale = (case last_scan of None \<Rightarrow> True | Some t \<Rightarrow> t < now w - SCAN_MAX_AGE_HOURS st * 3600) in
           if stale \<and> SCAN_FRESHNESS_ENFORCED st
           then (case audit env (gate_audit_args c ''deny'' [''scan_freshness_stale'']) g of
                   (Inr _, g1) \<Rightarrow> (Inl (ScanFreshnessError last_scan), g1)
                 | (Inl _, g1) \<Rightarrow> freshness_failed env c g1)
           else (Inr c, g))"

definition gate_entitlement :: "gw_env \<Rightarrow> ctx \<Rightarrow> gw \<Rightarrow> (exn + ctx) \<times> gw" where
  "gate_entitlement env c g =
     (case enforce_tool_entitlement (ge_world env AtEntitlement) (gw_db g) (t_server_id (ca_tool_record c))
             (ca_principal_id c) (ca_principal_type c) of
        Inr _ \<Rightarrow> (Inr c, g)
      | Inl (NotEntitledError s reason) \<Rightarrow>
          audit_then_raise env (gate_audit_args c ''deny'' [''not_entitled:'' @ reason]) (NotEntitledError s reason) g
      | Inl e \<Rightarrow> (Inl e, g))"

text \<open>\<open>_lookup_server_trust\<close>: nothing known on any fault.\<close>

definition lookup_server_trust :: "world \<Rightarrow> db \<Rightarrow> string \<Rightarrow> int option \<times> string option" where
  "lookup_server_trust w d sid =
     (if sid = [] \<or> \<not> db_ok w QServerTrust then (None, None)
      else case live_server d sid of
        None \<Rightarrow> (None, None)
      | Some row \<Rightarrow> (sr_trust_tier row, sr_default_injection_mode row))"

definition taint_notice_text :: "int \<Rightarrow> string" where
  "taint_notice_text required =
     ''This result may include data derived from an untrusted or not-yet-reviewed source (required_integrity=''
     @ int_text required @ ''); the platform's taint-floor block is currently in notify-only mode.''"

definition required_integrity_of :: "'a call_scheme \<Rightarrow> string option \<Rightarrow> int" where
  "required_integrity_of c server_default =
     effective_required_integrity (case t_required_integrity (ca_tool_record c) of None \<Rightarrow> 1 | Some n \<Rightarrow> n)
       (Some (effective_injection_mode (Some (t_injection_mode (ca_tool_record c))) server_default))"

definition gate_taint_floor :: "gw_env \<Rightarrow> ctx \<Rightarrow> gw \<Rightarrow> (exn + ctx) \<times> gw" where
  "gate_taint_floor env c g =
     (if \<not> TAINT_FLOOR_ENABLED (ge_settings env)
      then (Inr (c\<lparr>cx_tainted := None, cx_taint_notice := None, cx_taint_server_trust_tier := None\<rparr>), g)
      else
        let w = ge_world env AtTaint;
            (tier, server_default) = lookup_server_trust w (gw_db g) (cx_tool_server_id c);
            required = required_integrity_of c server_default;
            tainted = is_tainted_for_principal w (gw_redis g) (Some (ca_client_id c));
            act = resolve_taint_action (taint_floor_decision tainted required) (TAINT_FLOOR_MODE (ge_settings env));
            c' = c\<lparr>cx_tainted := Some tainted, cx_taint_notice := None, cx_taint_server_trust_tier := tier\<rparr> in
        if act = TAINT_ACTION_BLOCK
        then audit_then_raise env ((gate_audit_args c ''deny'' [''taint_floor:required_integrity='' @ int_text required])
               \<lparr>aa_notices := Some [], aa_tainted := Some tainted\<rparr>) (TaintFloorDenyError required) g
        else if act \<noteq> []
        then andthen (audit env ((gate_audit_args c ''allow'' [])
               \<lparr>aa_notices := Some [''taint_floor_notice:required_integrity='' @ int_text required], aa_tainted := Some tainted\<rparr>))
               (\<lambda>_ g. (Inr (c'\<lparr>cx_taint_notice := Some (taint_notice_text required)\<rparr>), g)) g
        else (Inr c', g))"

definition stage_anomaly :: "gw_env \<Rightarrow> ctx \<Rightarrow> gw \<Rightarrow> (exn + ctx) \<times> gw" where
  "stage_anomaly env c g =
     (if ca_is_testing c then (Inr (c\<lparr>cx_anomaly_score := 0\<rparr>), g)
      else let (res, r, alerts) = detect (ge_world env AtAnomaly) (gw_redis g) (ca_client_id c) (t_name (ca_tool_record c))
                 (case jlookup (ca_request c) ''method'' of Some (JStr m) \<Rightarrow> Some m | _ \<Rightarrow> None)
           in (Inr (c\<lparr>cx_anomaly_score := anomaly_score_of res\<rparr>), g\<lparr>gw_redis := r, gw_alerts := gw_alerts g @ alerts\<rparr>))"

definition stage_recent_calls :: "gw_env \<Rightarrow> ctx \<Rightarrow> gw \<Rightarrow> (exn + ctx) \<times> gw" where
  "stage_recent_calls env c g =
     (if ca_is_testing c then (Inr (c\<lparr>cx_recent_calls := []\<rparr>), g)
      else case get_anomaly_window_with_timestamps (ge_world env AtWindow) (gw_redis g) (ca_client_id c) of
        (Inl e, r) \<Rightarrow> (Inl (OPAUnavailableError ''Anomaly recent_calls fetch failed''), g\<lparr>gw_redis := r\<rparr>)
      | (Inr calls, r) \<Rightarrow> (Inr (c\<lparr>cx_recent_calls := calls\<rparr>), g\<lparr>gw_redis := r\<rparr>))"

definition stage_profile :: "gw_env \<Rightarrow> ctx \<Rightarrow> gw \<Rightarrow> (exn + ctx) \<times> gw" where
  "stage_profile env c g =
     (case lookup_profile_with_cache (ge_world env AtProfile) (gw_db g) (gw_redis g) (ca_client_id c)
             (t_name (ca_tool_record c)) (ca_profile_uuid c) of
        (Inl (ProfileLookupError m), r) \<Rightarrow>
          (Inl (OPAUnavailableError ''Profile lookup failed (DB unreachable, no cache)''), g\<lparr>gw_redis := r\<rparr>)
      | (Inl e, r) \<Rightarrow> (Inl e, g\<lparr>gw_redis := r\<rparr>)
      | (Inr p, r) \<Rightarrow> (Inr (c\<lparr>cx_profile_data := p\<rparr>), g\<lparr>gw_redis := r\<rparr>))"

definition stage_owned_servers :: "gw_env \<Rightarrow> ctx \<Rightarrow> gw \<Rightarrow> (exn + ctx) \<times> gw" where
  "stage_owned_servers env c g =
     (if \<not> (\<exists>r \<in> set (ca_client_roles c). r = ''server_owner'' \<or> r = ''manager'')
      then (Inr (c\<lparr>cx_owned_server_ids := [], cx_owner_max_risk_level := ''medium''\<rparr>), g)
      else case get_owned_server_ids (ge_world env AtOwned) (gw_db g) (gw_redis g) (ca_client_id c) of
        (Inl e, r) \<Rightarrow> (Inl e, g\<lparr>gw_redis := r\<rparr>)
      | (Inr ids, r) \<Rightarrow>
          (Inr (c\<lparr>cx_owned_server_ids := ids, cx_owner_max_risk_level := ''medium''\<rparr>), g\<lparr>gw_redis := r\<rparr>))"

text \<open>The order of the gates.\<close>

definition GATES :: "(gw_env \<Rightarrow> ctx \<Rightarrow> gw \<Rightarrow> (exn + ctx) \<times> gw) list" where
  "GATES = [gate_tool_status, gate_maintenance, gate_scan_freshness, gate_entitlement, gate_taint_floor, stage_anomaly,
     stage_recent_calls, stage_profile, stage_owned_servers]"

fun run_gates :: "gw_env \<Rightarrow> (gw_env \<Rightarrow> ctx \<Rightarrow> gw \<Rightarrow> (exn + ctx) \<times> gw) list \<Rightarrow> ctx \<Rightarrow> gw \<Rightarrow> (exn + ctx) \<times> gw" where
  "run_gates env [] c g = (Inr c, g)"
| "run_gates env (f # fs) c g = andthen (f env c) (run_gates env fs) g"

subsection \<open>The policy query\<close>

definition build_opa_input :: "ctx \<Rightarrow> rat \<Rightarrow> opa_input" where
  "build_opa_input c cutoff =
     \<lparr>in_client_id = ca_client_id c, in_client_roles = ca_client_roles c, in_tool_name = t_name (ca_tool_record c),
      in_tool_status = t_status (ca_tool_record c), in_tool_risk_level = tool_risk_level c,
      in_tool_server_id = Some (cx_tool_server_id c), in_owned_server_ids = Some (cx_owned_server_ids c),
      in_owner_max_risk_level = Some (cx_owner_max_risk_level c), in_params = cx_params c,
      in_anomaly_score = Some (cx_anomaly_score c), in_anomaly_cutoff = Some cutoff,
      in_is_testing = Some (ca_is_testing c), in_profile = cx_profile_data c,
      in_tool_function_name = Some (cx_function_name c), in_recent_calls = Some (map fst (cx_recent_calls c)),
      in_is_platform_meta = None\<rparr>"

text \<open>The decision, with the identifier that later audit records carry; a deny is audited first.\<close>

definition decide :: "gw_env \<Rightarrow> ctx \<Rightarrow> gw \<Rightarrow> (exn + string) \<times> gw" where
  "decide env c g =
     (let (cutoff, r) = get_anomaly_cutoff (ge_world env AtCutoff) (gw_db g) (gw_redis g) (ca_client_id c);
          g1 = g\<lparr>gw_redis := r\<rparr> in
      case evaluate_policy (ge_opa env (build_opa_input c cutoff)) of
        Inl e \<Rightarrow> (Inl e, g1)
      | Inr d \<Rightarrow>
          let opa_decision_id = str_or (dec_id d) (''dec_'' @ ge_decision_hex env) in
          if \<not> dec_allow d
          then audit_then_raise env (late_audit_args c opa_decision_id ''deny'' (dec_reasons d)) (OPADenyError (dec_reasons d)) g1
          else (Inr opa_decision_id, g1))"

subsection \<open>Connection health\<close>

definition CONNECTION_FAILURE_THRESHOLD :: int where "CONNECTION_FAILURE_THRESHOLD = 3"

definition connection_ok_row :: "server_row \<Rightarrow> server_row" where
  "connection_ok_row r = (if 0 < sr_failure_count r then r\<lparr>sr_failure_count := 0\<rparr> else r)"

definition connection_failed_row :: "string option \<Rightarrow> server_row \<Rightarrow> server_row" where
  "connection_failed_row err r =
     (let r1 = r\<lparr>sr_failure_count := sr_failure_count r + 1, sr_last_error := Some (take 500 (case err of None \<Rightarrow> [] | Some e \<Rightarrow> e))\<rparr> in
      if CONNECTION_FAILURE_THRESHOLD \<le> sr_failure_count r1 \<and> \<not> sr_debug_mode r1
      then r1\<lparr>sr_debug_mode := True, sr_debug_enabled_by := Some ''system:auto-health-check''\<rparr> else r1)"

definition record_connection_result :: "world \<Rightarrow> string \<Rightarrow> bool \<Rightarrow> string option \<Rightarrow> db \<Rightarrow> db" where
  "record_connection_result w server_id success err d =
     (if server_id = [] \<or> \<not> db_ok w QConnectionResult then d
      else d\<lparr>server_registry := map (\<lambda>r. if sr_server_id r = server_id
             then (if success then connection_ok_row r else connection_failed_row err r) else r) (server_registry d)\<rparr>)"

definition record_result :: "gw_env \<Rightarrow> ctx \<Rightarrow> bool \<Rightarrow> string option \<Rightarrow> gw \<Rightarrow> gw" where
  "record_result env c success err g =
     g\<lparr>gw_db := record_connection_result (ge_world env AtConnection) (cx_tool_server_id c) success err (gw_db g)\<rparr>"

subsection \<open>The upstream's registration and address\<close>

definition fetch_allowlist_entry :: "gw_env \<Rightarrow> ctx \<Rightarrow> string \<Rightarrow> gw \<Rightarrow> (exn + string option) \<times> gw" where
  "fetch_allowlist_entry env c opa_decision_id g =
     (case t_upstream_allowlist_entry (ca_tool_record c) of
        Some entry \<Rightarrow> (Inr (Some entry), g)
      | None \<Rightarrow>
          if cx_tool_server_id c = [] then (Inr None, g)
          else if \<not> db_ok (ge_world env AtAllowlist) QAllowlistEntry
          then audit_then_raise env
                 (late_audit_args c opa_decision_id ''deny'' [''upstream_revalidation_failed'', ''server_registry_lookup_error''])
                 (OPAUnavailableError ''upstream_revalidation_failed: cannot fetch server allowlist entry'') g
          else (Inr (case live_server (gw_db g) (cx_tool_server_id c) of None \<Rightarrow> None | Some row \<Rightarrow> sr_allowlist_entry row), g))"

definition check_upstream_url :: "gw_env \<Rightarrow> ctx \<Rightarrow> string option \<Rightarrow> gw \<Rightarrow> (exn + unit) \<times> gw" where
  "check_upstream_url env c entry g =
     (case validate_server_url (ge_dns_check env) (t_upstream_url (ca_tool_record c))
             (ENVIRONMENT (ge_settings env) = ''development'') entry of
        Inr _ \<Rightarrow> (Inr (), g)
      | Inl e \<Rightarrow> (Inl (ValueError (''SSRF blocked upstream URL at invoke time: '' @ ge_ssrf_text env e)),
                   record_result env c False (Some (ge_ssrf_text env e)) g))"

definition deny_primary :: "cred_error \<Rightarrow> string" where
  "deny_primary e = (case e of
       CrossTypePrincipalFallbackDenied _ \<Rightarrow> ''cross_type_principal_fallback_denied''
     | CredentialEnrollmentRequiredError _ \<Rightarrow> ''enrollment_required''
     | CredentialInjectionError _ \<Rightarrow> ''credential_injection_failed'')"

definition inject_credential :: "gw_env \<Rightarrow> ctx \<Rightarrow> string \<Rightarrow> gw \<Rightarrow> (exn + (string \<times> string) list) \<times> gw" where
  "inject_credential env c opa_decision_id g =
     (let injection_mode = t_injection_mode (ca_tool_record c) in
      if injection_mode = ''passthrough''
      then (Inr (if str_true (ca_inbound_auth c) then [(''Authorization'', the (ca_inbound_auth c))] else []), g)
      else if injection_mode \<noteq> ''none''
      then let g1 = g\<lparr>gw_trace := gw_trace g @ [FetchedCredential]\<rparr> in
           (case ge_dispatch env c of
              Inr extra_headers \<Rightarrow> (Inr extra_headers, g1)
            | Inl (CredentialFailure e) \<Rightarrow>
                audit_then_raise env (late_audit_args c opa_decision_id ''deny'' [deny_primary e, injection_mode]) (CredentialError e) g1
            | Inl (OtherFailure m) \<Rightarrow> (Inl (RuntimeError m), g1))
      else (Inr [], g))"

definition revalidate_upstream :: "gw_env \<Rightarrow> ctx \<Rightarrow> string \<Rightarrow> string option \<Rightarrow> gw \<Rightarrow> (exn + string list) \<times> gw" where
  "revalidate_upstream env c opa_decision_id entry g =
     (case revalidate_upstream_ip_at_invoke (ge_dns_pin env) (t_upstream_url (ca_tool_record c)) entry of
        Inr ips \<Rightarrow> (Inr ips, g)
      | Inl e \<Rightarrow>
          andthen (audit env (late_audit_args c opa_decision_id ''deny'' [''upstream_revalidation_failed'']))
            (\<lambda>_ g1. (Inl (ValueError (''Upstream revalidation failed (DNS-rebind protection): '' @ ge_reval_text env e)),
                     record_result env c False (Some (ge_reval_text env e)) g1)) g)"

subsection \<open>Headers and transport\<close>

text \<open>\<open>{**a, **b}\<close>.\<close>

definition dict_merge :: "(string \<times> 'a) list \<Rightarrow> (string \<times> 'a) list \<Rightarrow> (string \<times> 'a) list" where
  "dict_merge a b = foldl (\<lambda>d (k, v). AList.update k v d) a b"

definition handshake_headers :: "ctx \<Rightarrow> (string \<times> string) list" where
  "handshake_headers c =
     [(''Accept'', ''application/json, text/event-stream''), (''Content-Type'', ''application/json''), (''Host'', ''localhost'')]
     @ (if t_injection_mode (ca_tool_record c) = ''passthrough'' \<and> str_true (ca_inbound_auth c)
        then [(''Authorization'', the (ca_inbound_auth c))] else [])"

definition ROLE_PRIORITY :: "(string \<times> nat) list" where
  "ROLE_PRIORITY = [(''admin'', 0), (''platform_admin'', 0), (''agent'', 1), (''auditor'', 2), (''readonly'', 3)]"

definition role_priority :: "string \<Rightarrow> nat" where
  "role_priority r = (case map_of ROLE_PRIORITY r of Some n \<Rightarrow> n | None \<Rightarrow> 99)"

definition primary_role :: "string list \<Rightarrow> string" where
  "primary_role roles = (case sort_key role_priority roles of r # _ \<Rightarrow> r | [] \<Rightarrow> ''user'')"

definition forward_base_headers :: "ctx \<Rightarrow> (string \<times> string) list \<Rightarrow> (string \<times> string) list" where
  "forward_base_headers c extra_headers =
     dict_merge (dict_merge (handshake_headers c) extra_headers)
       ([(''X-User-Sub'', ca_client_id c), (''X-User-Role'', primary_role (ca_client_roles c))]
        @ (if str_true (ca_principal_id c) \<and> str_true (ca_principal_type c)
           then [(''X-Principal-Id'', the (ca_principal_id c)), (''X-Principal-Type'', the (ca_principal_type c)),
                 (''X-Principal-Issuer'', str_or (ca_principal_issuer c) []),
                 (''X-Principal-Display-Sub'', str_or (ca_principal_display_sub c) (ca_client_id c))]
           else []))"

definition upstream_hostname :: "string \<Rightarrow> string" where
  "upstream_hostname url = (case urlparse url of None \<Rightarrow> [] | Some u \<Rightarrow> (case url_hostname u of None \<Rightarrow> [] | Some h \<Rightarrow> h))"

text \<open>A POST through the transport: pinned to the first validated address, or plain.\<close>

definition post_request :: "ctx \<Rightarrow> string list \<Rightarrow> json \<Rightarrow> (string \<times> string) list \<Rightarrow> mcp_request" where
  "post_request c pinned_ips body headers =
     (let url = t_upstream_url (ca_tool_record c); host = upstream_hostname url;
          req = \<lparr>req_method = ''POST'', req_host = host, req_headers = map (\<lambda>(k, v). (lower k, v)) headers, req_sni = None,
                 mr_url = url, mr_body = body\<rparr> in
      if pinned_ips \<noteq> [] \<and> host \<noteq> [] then handle_async_request (hd pinned_ips) host req else req)"

definition post :: "gw_env \<Rightarrow> ctx \<Rightarrow> string list \<Rightarrow> json \<Rightarrow> (string \<times> string) list \<Rightarrow> gw \<Rightarrow> (string + http_response) \<times> gw" where
  "post env c pinned_ips body headers g =
     (let req = post_request c pinned_ips body headers in
      (ge_upstream env (gw_sent g) req, g\<lparr>gw_sent := gw_sent g @ [req], gw_trace := gw_trace g @ [Sent req]\<rparr>))"

subsection \<open>Sessions\<close>

definition session_key :: "string \<Rightarrow> string \<Rightarrow> string" where
  "session_key upstream_url client_id = ''mcp_session:'' @ take 16 (sha256 (utf8 (upstream_url @ '':'' @ client_id)))"

text \<open>
  The pool hands out text, and text has no \<open>decode\<close>: a hit raises inside the \<open>try\<close> and counts as a miss. \<open>redis_pool.client\<close>
  raises where the pool is not initialised.
\<close>

definition get_or_create_session :: "world \<Rightarrow> redis \<Rightarrow> string \<Rightarrow> string \<Rightarrow> exn + string option" where
  "get_or_create_session w r upstream_url client_id =
     (if \<not> r_init r then Inl (RuntimeError ''Redis pool not initialized'')
      else if \<not> redis_ok w (RGet (session_key upstream_url client_id)) then Inr None
      else case redis_get r (now w) (session_key upstream_url client_id) of
        None \<Rightarrow> Inr None
      | Some cached \<Rightarrow> Inr None)"

definition store_session :: "world \<Rightarrow> string \<Rightarrow> string \<Rightarrow> string \<Rightarrow> redis \<Rightarrow> exn + redis" where
  "store_session w upstream_url client_id session_id r =
     (let k = session_key upstream_url client_id in
      if \<not> r_init r then Inl (RuntimeError ''Redis pool not initialized'')
      else Inr (if redis_ok w (RSetex k) then redis_setex r (now w) k 25 (CText session_id) else r))"

definition init_payload :: json where
  "init_payload = JObj [(''jsonrpc'', JStr ''2.0''), (''method'', JStr ''initialize''), (''id'', JInt 0),
     (''params'', JObj [(''protocolVersion'', JStr ''2024-11-05''), (''capabilities'', JObj []),
        (''clientInfo'', JObj [(''name'', JStr ''mcp-security-proxy''), (''version'', JStr ''1.0.0'')])])]"

definition initialized_payload :: json where
  "initialized_payload = JObj [(''jsonrpc'', JStr ''2.0''), (''method'', JStr ''notifications/initialized''), (''params'', JObj [])]"

definition with_session :: "string option \<Rightarrow> (string \<times> string) list \<Rightarrow> (string \<times> string) list" where
  "with_session session_id headers = (if str_true session_id then AList.update ''Mcp-Session-Id'' (the session_id) headers else headers)"

definition mcp_initialize :: "gw_env \<Rightarrow> ctx \<Rightarrow> string list \<Rightarrow> gw \<Rightarrow> (string + string option) \<times> gw" where
  "mcp_initialize env c pinned_ips g =
     (case post env c pinned_ips init_payload (handshake_headers c) g of
        (Inl e, g1) \<Rightarrow> (Inl e, g1)
      | (Inr resp, g1) \<Rightarrow>
          let session_id = map_of (rs_headers resp) ''mcp-session-id'' in
          (case post env c pinned_ips initialized_payload (with_session session_id (handshake_headers c)) g1 of
             (Inl e, g2) \<Rightarrow> (Inl e, g2)
           | (Inr _, g2) \<Rightarrow> (Inr session_id, g2)))"

subsection \<open>The exchange with the upstream\<close>

record exchange =
  ex_response :: json
  ex_error :: "string option"
  ex_challenge :: "(string \<times> json) option"   \<comment> \<open>\<open>WWW-Authenticate\<close> and the parsed body\<close>
  ex_init_failed :: bool

definition exchange_failed :: "bool \<Rightarrow> string \<Rightarrow> exchange" where
  "exchange_failed init e = \<lparr>ex_response = JObj [], ex_error = Some e, ex_challenge = None, ex_init_failed = init\<rparr>"

definition MAX_UPSTREAM_BODY_BYTES :: nat where "MAX_UPSTREAM_BODY_BYTES = 4194304"

text \<open>The body as JSON, from the first \<open>data:\<close> line of an event stream or whole; \<open>None\<close> where parsing raises.\<close>

definition read_body :: "http_response \<Rightarrow> json option" where
  "read_body resp =
     (let body = take MAX_UPSTREAM_BODY_BYTES (rs_content resp);
          content_type = (case map_of (rs_headers resp) ''content-type'' of None \<Rightarrow> [] | Some t \<Rightarrow> t) in
      if contains_sub ''text/event-stream'' content_type
      then (case find (\<lambda>line. startswith line ''data:'') (splitlines body) of
              Some line \<Rightarrow> json_loads (strip (drop 5 line))
            | None \<Rightarrow> Some (JObj []))
      else json_loads body)"

definition exchange_of_response :: "http_response \<Rightarrow> exchange" where
  "exchange_of_response resp =
     (if rs_status resp = 401
      then \<lparr>ex_response = JObj [], ex_error = None,
            ex_challenge = Some (case map_of (rs_headers resp) ''www-authenticate'' of None \<Rightarrow> [] | Some t \<Rightarrow> t,
              case json_loads (take MAX_UPSTREAM_BODY_BYTES (rs_content resp)) of None \<Rightarrow> JNull | Some j \<Rightarrow> j),
            ex_init_failed = False\<rparr>
      else (case read_body resp of
              None \<Rightarrow> exchange_failed False ''JSONDecodeError''
            | Some j \<Rightarrow> \<lparr>ex_response = j, ex_error = None, ex_challenge = None, ex_init_failed = False\<rparr>))"

definition forward_call :: "gw_env \<Rightarrow> ctx \<Rightarrow> string list \<Rightarrow> (string \<times> string) list \<Rightarrow> string option \<Rightarrow> gw \<Rightarrow> exchange \<times> gw" where
  "forward_call env c pinned_ips extra_headers session_id g =
     (case post env c pinned_ips (ca_request c) (with_session session_id (forward_base_headers c extra_headers)) g of
        (Inl e, g1) \<Rightarrow> (exchange_failed False e, g1)
      | (Inr resp, g1) \<Rightarrow> (exchange_of_response resp, g1))"

text \<open>The handshake and storing its session are in one \<open>try\<close>.\<close>

definition open_session :: "gw_env \<Rightarrow> ctx \<Rightarrow> string list \<Rightarrow> gw \<Rightarrow> (string + string option) \<times> gw" where
  "open_session env c pinned_ips g =
     (case mcp_initialize env c pinned_ips g of
        (Inl e, g1) \<Rightarrow> (Inl e, g1)
      | (Inr session_id, g1) \<Rightarrow>
          if \<not> str_true session_id then (Inr session_id, g1)
          else (case store_session (ge_world env AtSession) (t_upstream_url (ca_tool_record c)) (ca_client_id c) (the session_id) (gw_redis g1) of
                  Inl e \<Rightarrow> (Inl ''Redis pool not initialized'', g1)
                | Inr r \<Rightarrow> (Inr session_id, g1\<lparr>gw_redis := r\<rparr>)))"

definition forward :: "gw_env \<Rightarrow> ctx \<Rightarrow> string list \<Rightarrow> (string \<times> string) list \<Rightarrow> gw \<Rightarrow> exchange \<times> gw" where
  "forward env c pinned_ips extra_headers g =
     (case get_or_create_session (ge_world env AtSession) (gw_redis g) (t_upstream_url (ca_tool_record c)) (ca_client_id c) of
        Inl e \<Rightarrow> (exchange_failed False ''Redis pool not initialized'', g)
      | Inr (Some session_id) \<Rightarrow> forward_call env c pinned_ips extra_headers (Some session_id) g
      | Inr None \<Rightarrow>
          (case open_session env c pinned_ips g of
             (Inl e, g1) \<Rightarrow> (exchange_failed True e, g1)
           | (Inr session_id, g1) \<Rightarrow> forward_call env c pinned_ips extra_headers session_id g1))"

subsection \<open>The answer\<close>

definition audit_outcome :: "exchange \<Rightarrow> string \<times> string list" where
  "audit_outcome ex =
     (if ex_challenge ex \<noteq> None then (''deny'', [''downstream_auth_required''])
      else if ex_error ex \<noteq> None
      then (''error'', [if ex_init_failed ex then ''upstream_init_failed'' else ''upstream_invocation_failed''])
      else (''allow'', []))"

definition error_response :: "ctx \<Rightarrow> int \<Rightarrow> string \<Rightarrow> (string \<times> json) list \<Rightarrow> json" where
  "error_response c code message data =
     JObj [(''jsonrpc'', JStr ''2.0''), (''id'', jget (ca_request c) ''id''),
       (''error'', JObj [(''code'', JInt code), (''message'', JStr message), (''data'', JObj data)])]"

definition challenge_response :: "ctx \<Rightarrow> string \<times> json \<Rightarrow> string \<Rightarrow> json" where
  "challenge_response c ch audit_id =
     error_response c (-32001) ''Downstream authorization required.''
       [(''status'', JInt 401), (''www_authenticate'', JStr (fst ch)), (''downstream_challenge'', snd ch), (''audit_id'', JStr audit_id)]"

text \<open>\<open>bool((upstream_response.get("result") or {}).get("isError"))\<close> on a dictionary.\<close>

definition is_error_result :: "json \<Rightarrow> exn + bool" where
  "is_error_result response =
     (if \<not> is_obj response then Inr False
      else let res = jget response ''result''; res' = (if truthy res then res else JObj []) in
           if is_obj res' then Inr (truthy (jget res' ''isError'')) else Inl (AttributeError ''get''))"

definition connection_health :: "gw_env \<Rightarrow> ctx \<Rightarrow> exchange \<Rightarrow> gw \<Rightarrow> (exn + unit) \<times> gw" where
  "connection_health env c ex g =
     (case is_error_result (ex_response ex) of
        Inl e \<Rightarrow> (Inl e, g)
      | Inr is_error \<Rightarrow>
          (Inr (), record_result env c (truthy (ex_response ex) \<and> ex_error ex = None \<and> \<not> is_error)
             (case ex_error ex of Some e \<Rightarrow> Some e | None \<Rightarrow> if is_error then Some ''upstream tool reported isError:true'' else None) g))"

definition mark_session :: "gw_env \<Rightarrow> ctx \<Rightarrow> gw \<Rightarrow> (exn + unit) \<times> gw" where
  "mark_session env c g =
     (if TAINT_FLOOR_ENABLED (ge_settings env) \<and> result_taints_session (cx_taint_server_trust_tier c)
      then (case mark_tainted_for_principal (ge_world env AtMark) (gw_redis g) (Some (ca_client_id c)) of
              Inl e \<Rightarrow> (Inl e, g)
            | Inr r \<Rightarrow> (Inr (), g\<lparr>gw_redis := r, gw_trace := gw_trace g @ [MarkedTaint]\<rparr>))
      else (Inr (), g))"

definition add_meta :: "gw_env \<Rightarrow> ctx \<Rightarrow> string \<Rightarrow> json \<Rightarrow> exn + json" where
  "add_meta env c audit_id response =
     (case (response, jget_or response ''meta'' (JObj [])) of
        (JObj kvs, JObj meta) \<Rightarrow>
          Inr (JObj (AList.update ''meta'' (JObj (dict_merge meta
            ([(''audit_id'', JStr audit_id), (''latency_ms'', JInt (ge_latency_ms env)),
              (''trust_tier'', jopt JInt (cx_taint_server_trust_tier c)), (''server_id'', JStr (cx_tool_server_id c)),
              (''sensitivity_label'', jopt JStr (t_sensitivity_label (ca_tool_record c)))]
             @ (if str_true (cx_taint_notice c) then [(''taint_notice'', JStr (the (cx_taint_notice c)))] else [])))) kvs))
      | _ \<Rightarrow> Inl (TypeError ''item assignment''))"

definition screen_and_return :: "gw_env \<Rightarrow> ctx \<Rightarrow> string \<Rightarrow> string \<Rightarrow> json \<Rightarrow> gw \<Rightarrow> (exn + json) \<times> gw" where
  "screen_and_return env c opa_decision_id audit_id response g =
     (if \<not> is_obj response then (Inl (AttributeError ''get''), g)
      else if fr_matched (screen_response (json_dumps (jget_or response ''result'' response)))
      then andthen (audit env ((late_audit_args c opa_decision_id ''error'' [''RESPONSE_FILTER_INJECTION''])
             \<lparr>aa_latency_ms := ge_latency_ms env\<rparr>))
             (\<lambda>_ g1. (if BLOCK_ON_MATCH (RESPONSE_FILTER_BLOCK (ge_settings env))
                      then Inr (error_response c (-32603) INJECTION_DETECTED_DETAIL
                             [(''audit_id'', JStr audit_id), (''filter'', JStr ''tool_response_injection'')])
                      else add_meta env c audit_id response, g1)) g
      else (add_meta env c audit_id response, g))"

definition answer :: "gw_env \<Rightarrow> ctx \<Rightarrow> string \<Rightarrow> exchange \<Rightarrow> gw \<Rightarrow> (exn + json) \<times> gw" where
  "answer env c opa_decision_id ex =
     andthen (audit env ((late_audit_args c opa_decision_id (fst (audit_outcome ex)) (snd (audit_outcome ex)))
        \<lparr>aa_latency_ms := ge_latency_ms env, aa_tainted := cx_tainted c, aa_principal_id := None\<rparr>))
       (\<lambda>audit_id. case ex_challenge ex of
          Some ch \<Rightarrow> (\<lambda>g. (Inr (challenge_response c ch audit_id), g))
        | None \<Rightarrow> andthen (connection_health env c ex)
            (\<lambda>_. if ex_error ex \<noteq> None \<or> \<not> truthy (ex_response ex)
                 then (\<lambda>g. (Inr (error_response c (-32603) ''Upstream MCP server error.'' [(''audit_id'', JStr audit_id)]), g))
                 else andthen (mark_session env c) (\<lambda>_. screen_and_return env c opa_decision_id audit_id (ex_response ex))))"

subsection \<open>\<open>invoke_tool\<close>\<close>

definition dispatch_call :: "gw_env \<Rightarrow> ctx \<Rightarrow> gw \<Rightarrow> (exn + json) \<times> gw" where
  "dispatch_call env c =
     andthen (decide env c) (\<lambda>opa_decision_id.
     andthen (fetch_allowlist_entry env c opa_decision_id) (\<lambda>entry.
     andthen (check_upstream_url env c entry) (\<lambda>_.
     andthen (inject_credential env c opa_decision_id) (\<lambda>extra_headers.
     andthen (revalidate_upstream env c opa_decision_id entry) (\<lambda>pinned_ips g.
       let (ex, g') = forward env c pinned_ips extra_headers g in answer env c opa_decision_id ex g')))))"

definition invoke_tool :: "gw_env \<Rightarrow> call \<Rightarrow> gw \<Rightarrow> (exn + json) \<times> gw" where
  "invoke_tool env ca g =
     (case build ca of
        Inl e \<Rightarrow> (Inl e, g)
      | Inr c \<Rightarrow> andthen (run_gates env GATES c) (dispatch_call env) g)"

end
