(* ===== verification/Pipeline.thy ===== *)
theory Pipeline
  imports Invocation
begin

section \<open>What a tool call may do\<close>

text \<open>
  The library on the stages of \<open>invoke_tool\<close>. A frame says what a stage may change; a pass lemma says what holds when a stage
  lets the call go on; \<open>invoke_phases\<close> and \<open>deliver_cases\<close> put them together for the whole call. The last sections follow
  the taint marks, the audited refusals and the headers of the requests through all stages. The properties built on
  them are in \<open>CallSafety\<close>.
\<close>

subsection \<open>Frames\<close>

text \<open>What a stage may do: extend the trace by actions of a kind, and send nothing unless it may.\<close>

fun is_audit :: "action \<Rightarrow> bool" where
  "is_audit (Audited _ _ _) = True"
| "is_audit _ = False"

fun is_sent :: "action \<Rightarrow> bool" where
  "is_sent (Sent _) = True"
| "is_sent _ = False"

definition traced :: "(action \<Rightarrow> bool) \<Rightarrow> gw \<Rightarrow> gw \<Rightarrow> bool" where
  "traced P g g' \<longleftrightarrow> (\<exists>as. gw_trace g' = gw_trace g @ as \<and> list_all P as)"

lemma traced_refl [simp]: "traced P g g"
  by (simp add: traced_def)

lemma traced_same: "gw_trace g' = gw_trace g \<Longrightarrow> traced P g g'"
  by (simp add: traced_def)

lemma traced_one: "gw_trace g' = gw_trace g @ [a] \<Longrightarrow> P a \<Longrightarrow> traced P g g'"
  by (simp add: traced_def)

lemma traced_trans: "traced P g g1 \<Longrightarrow> traced P g1 g2 \<Longrightarrow> traced P g g2"
  unfolding traced_def by (metis append_assoc list_all_append)

lemma traced_mono: "traced P g g' \<Longrightarrow> (\<And>a. P a \<Longrightarrow> Q a) \<Longrightarrow> traced Q g g'"
  unfolding traced_def by (auto simp: list_all_iff)

lemma andthen_Inr: "andthen m f s = (Inr y, s2) \<longleftrightarrow> (\<exists>x s1. m s = (Inr x, s1) \<and> f x s1 = (Inr y, s2))"
  by (auto simp: andthen_def split: prod.splits sum.splits)

lemma andthen_Inl:
  "andthen m f s = (Inl e, s2) \<longleftrightarrow> m s = (Inl e, s2) \<or> (\<exists>x s1. m s = (Inr x, s1) \<and> f x s1 = (Inl e, s2))"
  by (auto simp: andthen_def split: prod.splits sum.splits)

lemma andthen_cases:
  assumes "andthen m f s = (r, s2)"
  obtains (stop) e where "m s = (Inl e, s2)" "r = Inl e"
  | (go) x s1 where "m s = (Inr x, s1)" "f x s1 = (r, s2)"
  using assms by (auto simp: andthen_def split: prod.splits sum.splits)

text \<open>A frame: a relation between the states before and after that composes.\<close>

definition frame :: "(gw \<Rightarrow> gw \<Rightarrow> bool) \<Rightarrow> (gw \<Rightarrow> 'r \<times> gw) \<Rightarrow> bool" where
  "frame R m \<longleftrightarrow> (\<forall>g. R g (snd (m g)))"

lemma frameD: "frame R m \<Longrightarrow> m g = (r, g') \<Longrightarrow> R g g'"
  unfolding frame_def by (metis snd_conv)

lemma frame_andthen:
  assumes "transp R" and "frame R m" and "\<And>x. frame R (f x)"
  shows "frame R (andthen m f)"
  unfolding frame_def
proof
  fix g
  obtain r g1 where m: "m g = (r, g1)" by fastforce
  show "R g (snd (andthen m f g))"
  proof (cases r)
    case (Inl e)
    with m frameD[OF assms(2) m] show ?thesis by (simp add: andthen_def)
  next
    case (Inr x)
    with m transpD[OF assms(1) frameD[OF assms(2) m] frameD[OF assms(3)[of x], of g1]] show ?thesis
      by (cases "f x g1") (simp add: andthen_def)
  qed
qed

text \<open>The gates leave the database alone and only audit.\<close>

definition gate_frame :: "gw \<Rightarrow> gw \<Rightarrow> bool" where
  "gate_frame g g' \<longleftrightarrow> gw_db g' = gw_db g \<and> gw_sent g' = gw_sent g \<and> traced is_audit g g'"

lemma gate_frame_refl [simp]: "gate_frame g g"
  by (simp add: gate_frame_def)

lemma gate_frame_trans: "gate_frame g h \<Longrightarrow> gate_frame h k \<Longrightarrow> gate_frame g k"
  by (auto simp: gate_frame_def intro: traced_trans)

lemma gate_frame_redis [simp]: "gate_frame g (g\<lparr>gw_redis := r\<rparr>)" "gate_frame g (g\<lparr>gw_redis := r, gw_alerts := al\<rparr>)"
  by (simp_all add: gate_frame_def traced_same)

lemma audit_facts:
  assumes "audit env a g = (r, g')"
  shows "gw_trace g' = gw_trace g @ [Audited (aa_outcome a) (aa_deny_reasons a) (\<not> isl r)]"
    and "gw_db g' = gw_db g" and "gw_redis g' = gw_redis g" and "gw_sent g' = gw_sent g"
  using assms by (auto simp: audit_def Let_def split: prod.splits)

lemma audit_frame [simp]: "frame gate_frame (audit env a)"
  unfolding frame_def
proof
  fix g
  obtain r g' where a: "audit env a g = (r, g')" by fastforce
  show "gate_frame g (snd (audit env a g))"
    using audit_facts[OF a] a by (auto simp: gate_frame_def intro: traced_one)
qed

lemma frame_pure [simp]: "frame gate_frame (\<lambda>g. (r, g))"
  by (simp add: frame_def)

lemma gate_frame_transp: "transp (gate_frame)"
  by (rule transpI) (rule gate_frame_trans)

lemmas gate_frame_andthen = frame_andthen[OF gate_frame_transp]

lemma audit_then_raise_frame [simp]: "frame gate_frame (audit_then_raise env a e)"
  unfolding audit_then_raise_def by (intro gate_frame_andthen) simp_all

lemma frame_if [simp]: "frame R m \<Longrightarrow> frame R n \<Longrightarrow> frame R (\<lambda>g. if b g then m g else n g)"
  by (simp add: frame_def)

lemma frameI: "(\<And>g. R g (snd (m g))) \<Longrightarrow> frame R m"
  by (simp add: frame_def)

lemma frame_snd: "frame R m \<Longrightarrow> R g (snd (m g))"
  by (simp add: frame_def)

lemmas audit_snd [simp] = frame_snd[OF audit_frame] frame_snd[OF audit_then_raise_frame]

lemma freshness_failed_frame [simp]: "gate_frame g (snd (freshness_failed env c g))"
  by (simp add: freshness_failed_def)

lemma gate_frames:
  "frame gate_frame (gate_tool_status env c)" "frame gate_frame (gate_maintenance env c)"
  "frame gate_frame (gate_scan_freshness env c)" "frame gate_frame (gate_entitlement env c)"
  "frame gate_frame (gate_taint_floor env c)" "frame gate_frame (stage_anomaly env c)"
  "frame gate_frame (stage_recent_calls env c)" "frame gate_frame (stage_profile env c)"
  "frame gate_frame (stage_owned_servers env c)"
proof -
  show "frame gate_frame (gate_tool_status env c)" by (rule frameI) (simp add: gate_tool_status_def Let_def)
  show "frame gate_frame (gate_maintenance env c)"
    by (rule frameI) (simp add: gate_maintenance_def Let_def split: option.split)
  show "frame gate_frame (gate_scan_freshness env c)"
  proof (rule frameI)
    fix g
    obtain r g1 where a: "audit env (gate_audit_args c ''deny'' [''scan_freshness_stale'']) g = (r, g1)" by fastforce
    then have "gate_frame g g1" using frameD[OF audit_frame] by blast
    then show "gate_frame g (snd (gate_scan_freshness env c g))"
      using gate_frame_trans[OF _ freshness_failed_frame] a by (simp add: gate_scan_freshness_def Let_def split: sum.split)
  qed
  show "frame gate_frame (gate_entitlement env c)"
    by (rule frameI) (simp add: gate_entitlement_def split: sum.split exn.split)
  show "frame gate_frame (gate_taint_floor env c)"
  proof (rule frameI)
    fix g
    have "gate_frame g (snd (andthen (audit env a) (\<lambda>_ g. (Inr x, g)) g))" for a and x :: ctx
      by (rule frame_snd, rule gate_frame_andthen) simp_all
    then show "gate_frame g (snd (gate_taint_floor env c g))"
      by (simp add: gate_taint_floor_def Let_def split: prod.split)
  qed
  show "frame gate_frame (stage_anomaly env c)"
    by (rule frameI) (simp add: stage_anomaly_def split: prod.split)
  show "frame gate_frame (stage_recent_calls env c)"
    by (rule frameI) (simp add: stage_recent_calls_def split: prod.split sum.split)
  show "frame gate_frame (stage_profile env c)"
    by (rule frameI) (simp add: stage_profile_def split: prod.split sum.split exn.split)
  show "frame gate_frame (stage_owned_servers env c)"
    by (rule frameI) (simp add: stage_owned_servers_def split: prod.split sum.split)
qed

lemma run_gates_frame: "(\<And>f c. f \<in> set fs \<Longrightarrow> frame gate_frame (f env c)) \<Longrightarrow> frame gate_frame (run_gates env fs c)"
proof (induction fs arbitrary: c)
  case (Cons f fs)
  have "frame gate_frame (andthen (f env c) (run_gates env fs))"
    by (intro gate_frame_andthen Cons) simp_all
  then show ?case by (simp add: frame_def)
qed (simp add: frame_def)

lemma GATES_frame: "frame gate_frame (run_gates env GATES c)"
  by (rule run_gates_frame) (auto simp: GATES_def gate_frames)

subsection \<open>What passing the gates means\<close>

text \<open>A gate keeps the arguments and what was derived from them.\<close>

definition same_call :: "ctx \<Rightarrow> ctx \<Rightarrow> bool" where
  "same_call c c' \<longleftrightarrow> call.truncate c' = call.truncate c \<and> cx_tool_server_id c' = cx_tool_server_id c
     \<and> cx_params c' = cx_params c \<and> cx_function_name c' = cx_function_name c"

lemma same_call_refl [simp]: "same_call c c"
  by (simp add: same_call_def)

lemma same_call_trans: "same_call c d \<Longrightarrow> same_call d e \<Longrightarrow> same_call c e"
  by (simp add: same_call_def)

lemma same_call_fields:
  assumes "same_call c c'"
  shows "ca_tool_record c' = ca_tool_record c" "ca_client_id c' = ca_client_id c" "ca_client_roles c' = ca_client_roles c"
    "ca_request c' = ca_request c" "ca_principal_id c' = ca_principal_id c" "ca_principal_type c' = ca_principal_type c"
    "ca_is_testing c' = ca_is_testing c" "cx_tool_server_id c' = cx_tool_server_id c" "cx_function_name c' = cx_function_name c"
    "cx_params c' = cx_params c"
  using assms by (auto simp: same_call_def call.truncate_def)

lemma same_call_updates [simp]:
  "same_call c (c\<lparr>cx_anomaly_score := s\<rparr>)" "same_call c (c\<lparr>cx_recent_calls := rc\<rparr>)" "same_call c (c\<lparr>cx_profile_data := p\<rparr>)"
  "same_call c (c\<lparr>cx_owned_server_ids := ids, cx_owner_max_risk_level := l\<rparr>)"
  by (simp_all add: same_call_def call.truncate_def)

lemma audit_then_raise_Inr [simp]: "audit_then_raise env a e g \<noteq> (Inr x, g')"
  by (auto simp: audit_then_raise_def andthen_Inr)

text \<open>The conditions, one for each gate that can refuse, on the call and the state in which it starts.\<close>

definition server_id_of :: "tool_record \<Rightarrow> string" where
  "server_id_of t = (case t_server_id t of Some s \<Rightarrow> s | None \<Rightarrow> [])"

definition status_clear :: "tool_record \<Rightarrow> bool" where
  "status_clear t \<longleftrightarrow> t_status t \<notin> {''disabled'', ''quarantined'', ''deprecated''}"

definition maintenance_clear :: "db \<Rightarrow> string \<Rightarrow> string \<Rightarrow> bool" where
  "maintenance_clear d sid client_id \<longleftrightarrow>
     (\<forall>row. sid \<noteq> [] \<and> live_server d sid = Some row \<and> sr_debug_mode row \<longrightarrow>
        sr_owner_sub row = Some client_id \<or> client_id \<in> set (sr_maintainers row))"

definition scan_clear :: "gw_env \<Rightarrow> db \<Rightarrow> string \<Rightarrow> bool" where
  "scan_clear env d sid \<longleftrightarrow>
     (sid \<noteq> [] \<and> SCAN_FRESHNESS_ENFORCED (ge_settings env) \<longrightarrow>
        (\<exists>row t. live_server d sid = Some row \<and> sr_last_rescanned_at row = Some t
           \<and> now (ge_world env AtFreshness) - SCAN_MAX_AGE_HOURS (ge_settings env) * 3600 \<le> t))"

definition server_trust :: "gw_env \<Rightarrow> gw \<Rightarrow> tool_record \<Rightarrow> int option \<times> string option" where
  "server_trust env g t = lookup_server_trust (ge_world env AtTaint) (gw_db g) (server_id_of t)"

definition taint_clear :: "gw_env \<Rightarrow> gw \<Rightarrow> 'a call_scheme \<Rightarrow> bool" where
  "taint_clear env g c \<longleftrightarrow>
     (TAINT_FLOOR_ENABLED (ge_settings env) \<and> TAINT_FLOOR_MODE (ge_settings env) = ''enforce''
        \<and> is_tainted_for_principal (ge_world env AtTaint) (gw_redis g) (Some (ca_client_id c)) \<longrightarrow>
      required_integrity_of c (snd (server_trust env g (ca_tool_record c))) < 1)"

definition entitled :: "gw_env \<Rightarrow> db \<Rightarrow> 'a call_scheme \<Rightarrow> bool" where
  "entitled env d c \<longleftrightarrow>
     enforce_tool_entitlement (ge_world env AtEntitlement) d (t_server_id (ca_tool_record c)) (ca_principal_id c) (ca_principal_type c) = Inr ()"

definition gates_clear :: "gw_env \<Rightarrow> gw \<Rightarrow> 'a call_scheme \<Rightarrow> bool" where
  "gates_clear env g c \<longleftrightarrow>
     (let t = ca_tool_record c; sid = server_id_of t in
      status_clear t \<and> maintenance_clear (gw_db g) sid (ca_client_id c) \<and> scan_clear env (gw_db g) sid
      \<and> entitled env (gw_db g) c \<and> taint_clear env g c)"

definition linked :: "ctx \<Rightarrow> bool" where
  "linked c \<longleftrightarrow> cx_tool_server_id c = server_id_of (ca_tool_record c)"

lemma build_linked: "build ca = Inr c \<Longrightarrow> linked c \<and> call.truncate c = ca"
  by (auto simp: build_def linked_def server_id_of_def Let_def call.truncate_def call.extend_def ctx.fields_def split: if_splits)

lemma gate_tool_status_pass: "gate_tool_status env c g = (Inr c', g') \<Longrightarrow> c' = c \<and> g' = g \<and> status_clear (ca_tool_record c)"
  by (auto simp: gate_tool_status_def status_clear_def Let_def split: if_splits)

lemma gate_maintenance_pass:
  "gate_maintenance env c g = (Inr c', g') \<Longrightarrow>
     c' = c \<and> g' = g \<and> maintenance_clear (gw_db g) (cx_tool_server_id c) (ca_client_id c)"
  by (auto simp: gate_maintenance_def maintenance_clear_def Let_def split: if_splits option.splits)

lemma freshness_failed_pass: "freshness_failed env c g = (Inr c', g') \<Longrightarrow> c' = c \<and> g' = g \<and> \<not> SCAN_FRESHNESS_ENFORCED (ge_settings env)"
  by (auto simp: freshness_failed_def split: if_splits)

lemma gate_scan_freshness_pass:
  assumes "gate_scan_freshness env c g = (Inr c', g')"
  shows "c' = c \<and> g' = g \<and> scan_clear env (gw_db g) (cx_tool_server_id c)"
  using assms
  by (auto simp: gate_scan_freshness_def scan_clear_def Let_def not_less dest!: freshness_failed_pass
      split: if_splits option.splits prod.splits sum.splits)

lemma gate_entitlement_pass:
  assumes "gate_entitlement env c g = (Inr c', g')"
  shows "c' = c \<and> g' = g \<and> entitled env (gw_db g) c"
proof (cases "enforce_tool_entitlement (ge_world env AtEntitlement) (gw_db g) (t_server_id (ca_tool_record c)) (ca_principal_id c) (ca_principal_type c)")
  case (Inl e)
  with assms show ?thesis by (cases e) (simp_all add: gate_entitlement_def)
qed (use assms in \<open>simp add: gate_entitlement_def entitled_def\<close>)

lemma gate_taint_floor_pass:
  assumes "linked c" and "gate_taint_floor env c g = (Inr c', g')"
  shows "same_call c c' \<and> taint_clear env g c
    \<and> (TAINT_FLOOR_ENABLED (ge_settings env) \<longrightarrow> cx_taint_server_trust_tier c' = fst (server_trust env g (ca_tool_record c)))"
  using assms
  by (auto simp: same_call_def call.truncate_def gate_taint_floor_def taint_clear_def server_trust_def linked_def resolve_taint_action_def
      taint_floor_decision_def TAINT_ACTION_BLOCK_def TAINT_ACTION_NOTIFY_def Let_def andthen_Inr split: if_splits prod.splits)

text \<open>The stages after the taint floor keep the call and the tier it read.\<close>

definition same_tier :: "ctx \<Rightarrow> ctx \<Rightarrow> bool" where
  "same_tier c c' \<longleftrightarrow> same_call c c' \<and> cx_taint_server_trust_tier c' = cx_taint_server_trust_tier c"

lemma same_tier_trans: "same_tier c d \<Longrightarrow> same_tier d e \<Longrightarrow> same_tier c e"
  by (auto simp: same_tier_def intro: same_call_trans)

lemma stage_anomaly_same: "stage_anomaly env c g = (Inr c', g') \<Longrightarrow> same_tier c c'"
  by (auto simp: same_tier_def stage_anomaly_def split: if_splits prod.splits)

lemma stage_recent_calls_same: "stage_recent_calls env c g = (Inr c', g') \<Longrightarrow> same_tier c c'"
  by (auto simp: same_tier_def stage_recent_calls_def split: if_splits prod.splits sum.splits)

lemma stage_owned_servers_same:
  assumes "stage_owned_servers env c g = (Inr c', g')"
  shows "same_tier c c'"
proof -
  obtain x r where l: "get_owned_server_ids (ge_world env AtOwned) (gw_db g) (gw_redis g) (ca_client_id c) = (x, r)" by fastforce
  have "same_tier c (c\<lparr>cx_owned_server_ids := ids, cx_owner_max_risk_level := m\<rparr>)" for ids m
    by (simp add: same_tier_def)
  with assms show ?thesis
    unfolding stage_owned_servers_def l prod.case
    by (cases x; simp only: sum.case prod.inject sum.inject sum.distinct split: if_split_asm) metis+
qed

lemma stage_profile_same:
  assumes "stage_profile env c g = (Inr c', g')"
  shows "same_tier c c'"
proof -
  obtain x r where l: "lookup_profile_with_cache (ge_world env AtProfile) (gw_db g) (gw_redis g) (ca_client_id c)
      (t_name (ca_tool_record c)) (ca_profile_uuid c) = (x, r)" by fastforce
  show ?thesis
  proof (cases x)
    case (Inl e)
    with assms l show ?thesis by (cases e) (simp_all add: stage_profile_def)
  qed (use assms l in \<open>auto simp: stage_profile_def same_tier_def\<close>)
qed

lemmas stage_same = stage_anomaly_same stage_recent_calls_same stage_owned_servers_same stage_profile_same

lemma gates_pass:
  assumes "linked c0" and "run_gates env GATES c0 g = (Inr c, g1)"
  shows "same_call c0 c \<and> gate_frame g g1 \<and> gates_clear env g c0
    \<and> (TAINT_FLOOR_ENABLED (ge_settings env) \<longrightarrow> cx_taint_server_trust_tier c = fst (server_trust env g (ca_tool_record c0)))"
proof -
  from assms(2) obtain cs gs ce ge ct gt c6 g6 c7 g7 c8 g8 cm gm where steps:
    "gate_tool_status env c0 g = (Inr cs, gs)" "gate_maintenance env cs gs = (Inr cm, gm)"
    "gate_scan_freshness env cm gm = (Inr ce, ge)" and rest:
    "andthen (gate_entitlement env ce) (run_gates env [gate_taint_floor, stage_anomaly, stage_recent_calls, stage_profile, stage_owned_servers]) ge
       = (Inr c, g1)"
    by (auto simp: GATES_def andthen_Inr)
  from gate_tool_status_pass[OF steps(1)] gate_maintenance_pass[OF steps(2)] gate_scan_freshness_pass[OF steps(3)]
  have first: "ce = c0" "ge = g" "status_clear (ca_tool_record c0)" "maintenance_clear (gw_db g) (cx_tool_server_id c0) (ca_client_id c0)"
    "scan_clear env (gw_db g) (cx_tool_server_id c0)" by auto
  from rest[unfolded first(1,2)] obtain c4 g4 c5 g5 c6 g6 c7 g7 c8 g8 where later:
    "gate_entitlement env c0 g = (Inr c4, g4)" "gate_taint_floor env c4 g4 = (Inr c5, g5)" "stage_anomaly env c5 g5 = (Inr c6, g6)"
    "stage_recent_calls env c6 g6 = (Inr c7, g7)" "stage_profile env c7 g7 = (Inr c8, g8)" "stage_owned_servers env c8 g8 = (Inr c, g1)"
    by (auto simp: andthen_Inr)
  from gate_entitlement_pass[OF later(1)] have e: "c4 = c0" "g4 = g" "entitled env (gw_db g) c0" by auto
  note t = gate_taint_floor_pass[OF assms(1) later(2)[unfolded e(1,2)]]
  have "same_tier c5 c"
    using stage_same(1)[OF later(3)] stage_same(2)[OF later(4)] stage_same(4)[OF later(5)] stage_same(3)[OF later(6)]
    by (blast intro: same_tier_trans)
  with t have "same_call c0 c" "TAINT_FLOOR_ENABLED (ge_settings env) \<Longrightarrow> cx_taint_server_trust_tier c = fst (server_trust env g (ca_tool_record c0))"
    by (auto simp: same_tier_def intro: same_call_trans)
  moreover have "gates_clear env g c0"
    using first(3-5) e(3) t assms(1) by (simp add: gates_clear_def linked_def Let_def)
  ultimately show ?thesis using frameD[OF GATES_frame assms(2)] by blast
qed

lemma gates_stop: "run_gates env GATES c g = (r, g') \<Longrightarrow> gate_frame g g'"
  by (rule frameD[OF GATES_frame])

subsection \<open>The stages after the gates\<close>

text \<open>A quiet stage: it sends nothing and only audits. It may record the health of the connection.\<close>

definition quiet :: "gw \<Rightarrow> gw \<Rightarrow> bool" where
  "quiet g g' \<longleftrightarrow> gw_sent g' = gw_sent g \<and> traced is_audit g g'"

lemma quiet_refl [simp]: "quiet g g"
  by (simp add: quiet_def)

lemma quiet_trans: "quiet g h \<Longrightarrow> quiet h k \<Longrightarrow> quiet g k"
  by (auto simp: quiet_def intro: traced_trans)

lemma gate_frame_quiet: "gate_frame g g' \<Longrightarrow> quiet g g'"
  by (simp add: gate_frame_def quiet_def)

lemma record_result_quiet [simp]: "quiet g (record_result env c ok err g)"
  by (simp add: quiet_def record_result_def traced_same)

lemma audit_quiet: "audit env a g = (r, g') \<Longrightarrow> quiet g g'"
  by (intro gate_frame_quiet frameD[OF audit_frame])

lemma audit_then_raise_quiet: "audit_then_raise env a e g = (r, g') \<Longrightarrow> quiet g g'"
  by (intro gate_frame_quiet frameD[OF audit_then_raise_frame])

lemma decide_gate_frame: "frame gate_frame (decide env c)"
proof (rule frameI)
  fix g :: gw
  obtain cutoff r where k: "get_anomaly_cutoff (ge_world env AtCutoff) (gw_db g) (gw_redis g) (ca_client_id c) = (cutoff, r)" by fastforce
  have "gate_frame g (snd (audit_then_raise env a e (g\<lparr>gw_redis := r\<rparr>) :: (exn + string) \<times> gw))" for a e
    by (rule gate_frame_trans[OF gate_frame_redis(1)[of g r]]) simp
  then show "gate_frame g (snd (decide env c g))"
    unfolding decide_def k by (simp add: Let_def split: sum.split)
qed

lemmas decide_frame = frameD[OF decide_gate_frame]

text \<open>The policy's answer for a call.\<close>

definition policy_allows :: "gw_env \<Rightarrow> ctx \<Rightarrow> bool" where
  "policy_allows env c \<longleftrightarrow>
     (\<exists>cutoff d. evaluate_policy (ge_opa env (build_opa_input c cutoff)) = Inr d \<and> dec_allow d)"

lemma decide_pass: "decide env c g = (Inr i, g') \<Longrightarrow> policy_allows env c"
  by (auto simp: decide_def policy_allows_def Let_def split: prod.splits sum.splits if_splits)

text \<open>The allowlist entry of a tool: its own, or its server's.\<close>

definition registered_entry :: "db \<Rightarrow> tool_record \<Rightarrow> string option" where
  "registered_entry d t =
     (case t_upstream_allowlist_entry t of
        Some e \<Rightarrow> Some e
      | None \<Rightarrow> if server_id_of t = [] then None
                else (case live_server d (server_id_of t) of None \<Rightarrow> None | Some row \<Rightarrow> sr_allowlist_entry row))"

lemma fetch_allowlist_entry_frame: "fetch_allowlist_entry env c i g = (r, g') \<Longrightarrow> gate_frame g g'"
  by (auto simp: fetch_allowlist_entry_def dest: frameD[OF audit_then_raise_frame] split: option.splits if_splits)

lemma fetch_allowlist_entry_pass:
  "linked c \<Longrightarrow> fetch_allowlist_entry env c i g = (Inr entry, g') \<Longrightarrow> g' = g \<and> entry = registered_entry (gw_db g) (ca_tool_record c)"
  by (auto simp: fetch_allowlist_entry_def registered_entry_def linked_def split: option.splits if_splits)

definition url_checked :: "gw_env \<Rightarrow> db \<Rightarrow> tool_record \<Rightarrow> bool" where
  "url_checked env d t \<longleftrightarrow>
     validate_server_url (ge_dns_check env) (t_upstream_url t) (ENVIRONMENT (ge_settings env) = ''development'') (registered_entry d t) = Inr ()"

lemma check_upstream_url_quiet: "check_upstream_url env c entry g = (r, g') \<Longrightarrow> quiet g g'"
  by (auto simp: check_upstream_url_def split: sum.splits)

lemma check_upstream_url_pass:
  "check_upstream_url env c entry g = (Inr u, g') \<Longrightarrow> g' = g \<and>
     validate_server_url (ge_dns_check env) (t_upstream_url (ca_tool_record c)) (ENVIRONMENT (ge_settings env) = ''development'') entry = Inr ()"
  by (auto simp: check_upstream_url_def split: sum.splits)

lemma revalidate_upstream_quiet: "revalidate_upstream env c i entry g = (r, g') \<Longrightarrow> quiet g g'"
  by (auto simp: revalidate_upstream_def andthen_def intro: quiet_trans[OF _ record_result_quiet] dest!: audit_quiet
      split: sum.splits prod.splits)

lemma revalidate_upstream_pass:
  "revalidate_upstream env c i entry g = (Inr ips, g') \<Longrightarrow>
     g' = g \<and> revalidate_upstream_ip_at_invoke (ge_dns_pin env) (t_upstream_url (ca_tool_record c)) entry = Inr ips"
  by (auto simp: revalidate_upstream_def andthen_def split: sum.splits prod.splits)

text \<open>The rest of the call, from the credential on.\<close>

definition deliver :: "gw_env \<Rightarrow> ctx \<Rightarrow> string \<Rightarrow> string option \<Rightarrow> gw \<Rightarrow> (exn + json) \<times> gw" where
  "deliver env c i entry =
     andthen (inject_credential env c i) (\<lambda>extra_headers.
     andthen (revalidate_upstream env c i entry) (\<lambda>pinned_ips g.
       let (ex, g') = forward env c pinned_ips extra_headers g in answer env c i ex g'))"

lemma dispatch_phases:
  assumes "linked c" and "dispatch_call env c g = (r, g')"
  obtains (stopped) e where "r = Inl e" "quiet g g'"
  | (checked) i g1 where "policy_allows env c" "url_checked env (gw_db g) (ca_tool_record c)" "gate_frame g g1"
      "deliver env c i (registered_entry (gw_db g) (ca_tool_record c)) g1 = (r, g')"
proof -
  from assms(2) have run: "andthen (decide env c) (\<lambda>i. andthen (fetch_allowlist_entry env c i) (\<lambda>entry.
      andthen (check_upstream_url env c entry) (\<lambda>_. deliver env c i entry))) g = (r, g')"
    by (simp add: dispatch_call_def deliver_def)
  then show thesis
  proof (cases rule: andthen_cases)
    case (stop e)
    then show thesis using stopped gate_frame_quiet[OF decide_frame] by blast
  next
    case (go i g1)
    note d = go(1)
    have gf: "gate_frame g g1" by (rule decide_frame[OF d])
    from go(2) show thesis
    proof (cases rule: andthen_cases)
      case (stop e)
      then show thesis using stopped quiet_trans[OF gate_frame_quiet[OF gf] gate_frame_quiet[OF fetch_allowlist_entry_frame]] by blast
    next
      case (go entry g2)
      with fetch_allowlist_entry_pass[OF assms(1) go(1)] gf
      have f: "g2 = g1" "entry = registered_entry (gw_db g) (ca_tool_record c)" by (auto simp: gate_frame_def)
      from go(2)[unfolded f] show thesis
      proof (cases rule: andthen_cases)
        case (stop e)
        then show thesis using stopped quiet_trans[OF gate_frame_quiet[OF gf] check_upstream_url_quiet] by blast
      next
        case (go u g3)
        with check_upstream_url_pass checked[OF decide_pass[OF d] _ gf] show thesis by (metis url_checked_def)
      qed
    qed
  qed
qed

lemma invoke_phases:
  assumes "invoke_tool env ca g = (r, g')"
  obtains (stopped) e where "r = Inl e" "quiet g g'"
  | (checked) c0 c i g1 where "build ca = Inr c0" "same_call c0 c" "linked c" "gates_clear env g c0" "policy_allows env c"
      "url_checked env (gw_db g) (ca_tool_record c)" "gate_frame g g1"
      "TAINT_FLOOR_ENABLED (ge_settings env) \<Longrightarrow> cx_taint_server_trust_tier c = fst (server_trust env g (ca_tool_record c0))"
      "deliver env c i (registered_entry (gw_db g) (ca_tool_record c)) g1 = (r, g')"
proof (cases "build ca")
  case (Inl e)
  with assms show thesis by (auto simp: invoke_tool_def intro: stopped)
next
  case (Inr c0)
  with assms have run: "andthen (run_gates env GATES c0) (dispatch_call env) g = (r, g')" by (simp add: invoke_tool_def)
  have l0: "linked c0" using build_linked[OF Inr] by blast
  from run show thesis
  proof (cases rule: andthen_cases)
    case (stop e)
    then show thesis using stopped gate_frame_quiet[OF gates_stop] by blast
  next
    case (go c g1)
    from gates_pass[OF l0 go(1)] have g: "same_call c0 c" "gate_frame g g1" "gates_clear env g c0"
      "TAINT_FLOOR_ENABLED (ge_settings env) \<Longrightarrow> cx_taint_server_trust_tier c = fst (server_trust env g (ca_tool_record c0))" by auto
    have l: "linked c" using l0 g(1) by (simp add: linked_def same_call_fields)
    have db: "gw_db g1 = gw_db g" using g(2) by (simp add: gate_frame_def)
    from l go(2) show thesis
    proof (cases rule: dispatch_phases)
      case (stopped e)
      then show thesis using that(1) quiet_trans[OF gate_frame_quiet[OF g(2)]] by blast
    next
      case (checked i g2)
      then show thesis using that(2)[OF Inr g(1) l g(3)] gate_frame_trans[OF g(2)] g(4) db by metis
    qed
  qed
qed

subsection \<open>The exchange and the answer\<close>

text \<open>The requests a call may send: the two of the handshake, and the caller's own.\<close>

definition request_of :: "ctx \<Rightarrow> string list \<Rightarrow> (string \<times> string) list \<Rightarrow> mcp_request \<Rightarrow> bool" where
  "request_of c ips extra_headers q \<longleftrightarrow>
     (\<exists>sid. q = post_request c ips init_payload (handshake_headers c)
        \<or> q = post_request c ips initialized_payload (with_session sid (handshake_headers c))
        \<or> q = post_request c ips (ca_request c) (with_session sid (forward_base_headers c extra_headers)))"

definition sends :: "ctx \<Rightarrow> string list \<Rightarrow> (string \<times> string) list \<Rightarrow> action \<Rightarrow> bool" where
  "sends c ips extra_headers a \<longleftrightarrow> (\<exists>q. a = Sent q \<and> request_of c ips extra_headers q)"

lemma post_traced:
  "post env c ips body headers g = (r, g') \<Longrightarrow> request_of c ips extra_headers (post_request c ips body headers) \<Longrightarrow>
     traced (sends c ips extra_headers) g g'"
  by (auto simp: post_def Let_def sends_def intro: traced_one)

lemma handshake_requests [simp]:
  "request_of c ips extra_headers (post_request c ips init_payload (handshake_headers c))"
  "request_of c ips extra_headers (post_request c ips initialized_payload (with_session sid (handshake_headers c)))"
  "request_of c ips extra_headers (post_request c ips (ca_request c) (with_session sid (forward_base_headers c extra_headers)))"
  unfolding request_of_def by blast+

lemma mcp_initialize_traced: "mcp_initialize env c ips g = (r, g') \<Longrightarrow> traced (sends c ips extra_headers) g g'"
  by (auto simp: mcp_initialize_def Let_def intro: traced_trans dest!: post_traced[where extra_headers = extra_headers]
      split: prod.splits sum.splits)

lemma traced_redis: "traced P g h \<Longrightarrow> traced P g (h\<lparr>gw_redis := x\<rparr>)"
  by (simp add: traced_def)

lemma open_session_traced: "open_session env c ips g = (r, g') \<Longrightarrow> traced (sends c ips extra_headers) g g'"
  by (auto simp: open_session_def intro: traced_redis dest: mcp_initialize_traced split: prod.splits sum.splits if_splits)

lemma forward_call_traced: "forward_call env c ips extra_headers sid g = (ex, g') \<Longrightarrow> traced (sends c ips extra_headers) g g'"
  by (auto simp: forward_call_def dest!: post_traced[where extra_headers = extra_headers] split: prod.splits sum.splits)

lemma forward_traced: "forward env c ips extra_headers g = (ex, g') \<Longrightarrow> traced (sends c ips extra_headers) g g'"
  by (auto simp: forward_def intro: traced_trans dest: open_session_traced[where extra_headers = extra_headers] forward_call_traced
      split: prod.splits sum.splits option.splits)

text \<open>After the audit record of the exchange come at most the taint mark and the record of the response filter.\<close>

definition aftermath :: "action \<Rightarrow> bool" where
  "aftermath a \<longleftrightarrow> is_audit a \<or> a = MarkedTaint"

lemma connection_health_traced: "connection_health env c ex g = (r, g') \<Longrightarrow> gw_trace g' = gw_trace g"
  by (auto simp: connection_health_def record_result_def split: sum.splits)

lemma mark_session_traced: "mark_session env c g = (r, g') \<Longrightarrow> traced aftermath g g'"
  by (auto simp: mark_session_def aftermath_def intro: traced_one split: sum.splits if_splits)

lemma screen_and_return_traced: "screen_and_return env c i aid resp g = (r, g') \<Longrightarrow> traced aftermath g g'"
  by (auto simp: screen_and_return_def andthen_def quiet_def aftermath_def intro: traced_mono[of is_audit] dest!: audit_quiet
      split: prod.splits sum.splits if_splits)

lemma answer_traced:
  assumes "answer env c i ex g = (r, g')"
  obtains (unaudited) e where "r = Inl e" "gw_trace g' = gw_trace g @ [Audited (fst (audit_outcome ex)) (snd (audit_outcome ex)) False]"
  | (audited) as where "gw_trace g' = gw_trace g @ Audited (fst (audit_outcome ex)) (snd (audit_outcome ex)) True # as" "list_all aftermath as"
proof -
  define aa where "aa = (late_audit_args c i (fst (audit_outcome ex)) (snd (audit_outcome ex)))
        \<lparr>aa_latency_ms := ge_latency_ms env, aa_tainted := cx_tainted c, aa_principal_id := None\<rparr>"
  have o: "aa_outcome aa = fst (audit_outcome ex)" "aa_deny_reasons aa = snd (audit_outcome ex)"
    by (simp_all add: aa_def late_audit_args_def gate_audit_args_def)
  from assms[unfolded answer_def, folded aa_def] show thesis
  proof (cases rule: andthen_cases)
    case (stop e)
    from audit_facts(1)[OF stop(1)] stop(2) o show thesis by (simp add: unaudited)
  next
    case (go aid g1)
    have a: "gw_trace g1 = gw_trace g @ [Audited (fst (audit_outcome ex)) (snd (audit_outcome ex)) True]"
      using audit_facts(1)[OF go(1)] o by simp
    have "traced aftermath g1 g'"
      using go(2)
      by (auto simp: andthen_def intro: traced_same traced_trans dest!: connection_health_traced mark_session_traced screen_and_return_traced
          split: option.splits prod.splits sum.splits if_splits)
    then show thesis using a audited by (auto simp: traced_def)
  qed
qed

lemma aftermath_simps [simp]: "\<not> aftermath (Sent q)" "\<not> aftermath FetchedCredential" "aftermath (Audited o' rs b)"
  by (simp_all add: aftermath_def)

lemma answer_aftermath: "answer env c i ex g = (r, g') \<Longrightarrow> traced aftermath g g'"
  by (erule answer_traced) (auto simp: traced_def)

lemma inject_credential_traced:
  assumes "inject_credential env c i g = (r, g')"
  shows "traced (\<lambda>a. is_audit a \<or> a = FetchedCredential) g g'" (is "traced ?P g g'")
proof -
  have fetched: "traced ?P g (g\<lparr>gw_trace := gw_trace g @ [FetchedCredential]\<rparr>)"
    by (simp add: traced_def)
  have "traced ?P g g'" if "audit_then_raise env aa e' (g\<lparr>gw_trace := gw_trace g @ [FetchedCredential]\<rparr>) = (r, g')" for aa e'
    using traced_trans[OF fetched traced_mono[OF _ disjI1]] audit_then_raise_quiet[OF that] by (auto simp: quiet_def)
  with assms fetched show ?thesis
    by (auto simp: inject_credential_def Let_def split: if_splits sum.splits dispatch_failure.splits)
qed

subsection \<open>Calls keep the taint marks\<close>

text \<open>A Redis operation that leaves every taint mark as it was.\<close>

definition same_taint :: "redis \<Rightarrow> redis \<Rightarrow> bool" where
  "same_taint r r' \<longleftrightarrow> (\<forall>c t. taint_covered r' c t = taint_covered r c t)"

lemma same_taint_refl [simp]: "same_taint r r"
  by (simp add: same_taint_def)

lemma same_taint_trans: "same_taint r s \<Longrightarrow> same_taint s t \<Longrightarrow> same_taint r t"
  by (simp add: same_taint_def)

lemma same_taint_zs [simp]: "same_taint r (r\<lparr>r_zs := z\<rparr>)"
  by (simp add: same_taint_def taint_covered_def)

lemma same_taint_setex: "take 10 k \<noteq> ''mcp_taint:'' \<Longrightarrow> same_taint r (redis_setex r t k ttl v)"
  by (simp add: same_taint_def taint_covered_other_key[OF not_taint_key])

lemma other_keys [simp]:
  "same_taint r (redis_setex r t (limits_key x) ttl v)" "same_taint r (redis_setex r t (owned_key x) ttl v)"
  "same_taint r (redis_setex r t (bindings_key x) ttl v)" "same_taint r (redis_setex r t (session_key x y) ttl v)"
  "same_taint r (redis_setex r t (profile_key k) ttl v)"
  by (rule same_taint_setex, simp add: limits_key_def owned_key_def bindings_key_def session_key_def profile_key_def
      split: prod.split profile_source.split)+

lemma same_taint_try [simp]: "same_taint r (try_setex w r (bindings_key x) ttl v)" "same_taint r (try_setex w r (profile_key k) ttl v)"
  by (simp_all add: try_setex_def)

lemma detect_taint: "detect w r c n m = (res, r', al) \<Longrightarrow> same_taint r r'"
  by (auto simp: detect_def push_anomaly_invocation_def Let_def split: if_splits prod.splits sum.splits)

lemma window_taint: "get_anomaly_window_with_timestamps w r c = (res, r') \<Longrightarrow> same_taint r r'"
  by (auto simp: get_anomaly_window_with_timestamps_def Let_def split: if_splits)

lemma limits_taint: "read_limits_row w d r c = (res, r') \<Longrightarrow> same_taint r r'"
  by (auto simp: read_limits_row_def split: if_splits option.splits cval.splits)

lemma cutoff_taint: "get_anomaly_cutoff w d r c = (res, r') \<Longrightarrow> same_taint r r'"
  by (auto simp: get_anomaly_cutoff_def dest!: limits_taint split: prod.splits sum.splits option.splits)

lemma owned_taint: "get_owned_server_ids w d r c = (res, r') \<Longrightarrow> same_taint r r'"
  by (auto simp: get_owned_server_ids_def Let_def split: if_splits option.splits cval.splits)

lemma profile_source_taint: "lookup_profile_source w d r k = (res, r') \<Longrightarrow> same_taint r r'"
  by (auto simp: lookup_profile_source_def lookup_profile_db_def split: if_splits option.splits cval.splits)

lemma bindings_taint: "named_profile_has_any_binding w d r k = (res, r') \<Longrightarrow> same_taint r r'"
  by (auto simp: named_profile_has_any_binding_def split: if_splits option.splits cval.splits)

lemma profile_taint: "lookup_profile_with_cache w d r c n u = (res, r') \<Longrightarrow> same_taint r r'"
  by (auto simp: lookup_profile_with_cache_def intro: same_taint_trans dest!: profile_source_taint bindings_taint
      split: prod.splits sum.splits if_splits option.splits)

lemma store_session_taint: "store_session w u c s r = Inr r' \<Longrightarrow> same_taint r r'"
  by (auto simp: store_session_def Let_def split: if_splits)

text \<open>The same for the stages: all but the taint mark itself.\<close>

definition marks_kept :: "gw \<Rightarrow> gw \<Rightarrow> bool" where
  "marks_kept g g' \<longleftrightarrow> same_taint (gw_redis g) (gw_redis g')"

lemma marks_kept_refl [simp]: "marks_kept g g"
  by (simp add: marks_kept_def)

lemma marks_kept_trans: "marks_kept g h \<Longrightarrow> marks_kept h k \<Longrightarrow> marks_kept g k"
  by (auto simp: marks_kept_def intro: same_taint_trans)

lemma marks_kept_redis: "same_taint (gw_redis g) r \<Longrightarrow> marks_kept g (g\<lparr>gw_redis := r\<rparr>)"
  by (simp add: marks_kept_def)

lemma marks_kept_same: "gw_redis g' = gw_redis g \<Longrightarrow> marks_kept g g'"
  by (simp add: marks_kept_def)

lemma audit_marks: "audit env a g = (r, g') \<Longrightarrow> marks_kept g g'"
  by (rule marks_kept_same) (rule audit_facts(3))

lemma audit_then_raise_redis: "audit_then_raise env a e g = (r, g') \<Longrightarrow> gw_redis g' = gw_redis g"
  by (auto simp: audit_then_raise_def dest!: audit_facts(3) elim!: andthen_cases)

lemma freshness_failed_redis: "freshness_failed env c g = (r, g') \<Longrightarrow> gw_redis g' = gw_redis g"
  by (auto simp: freshness_failed_def dest: audit_then_raise_redis split: if_splits)

lemma early_gates_redis:
  "gate_tool_status env c g = (r, g') \<Longrightarrow> gw_redis g' = gw_redis g"
  "gate_maintenance env c g = (r, g') \<Longrightarrow> gw_redis g' = gw_redis g"
  "gate_scan_freshness env c g = (r, g') \<Longrightarrow> gw_redis g' = gw_redis g"
  "gate_taint_floor env c g = (r, g') \<Longrightarrow> gw_redis g' = gw_redis g"
  subgoal by (auto simp: gate_tool_status_def Let_def split: if_splits)
  subgoal by (auto simp: gate_maintenance_def Let_def split: if_splits option.splits)
  subgoal by (auto simp: gate_scan_freshness_def Let_def dest!: freshness_failed_redis audit_facts(3)
        split: if_splits prod.splits sum.splits)
  subgoal by (auto simp: gate_taint_floor_def Let_def andthen_def dest: audit_then_raise_redis audit_facts(3)
        split: if_splits prod.splits sum.splits)
  done

lemma gate_entitlement_redis:
  assumes "gate_entitlement env c g = (r, g')"
  shows "gw_redis g' = gw_redis g"
proof (cases "enforce_tool_entitlement (ge_world env AtEntitlement) (gw_db g) (t_server_id (ca_tool_record c)) (ca_principal_id c) (ca_principal_type c)")
  case (Inl e)
  with assms audit_then_raise_redis show ?thesis by (cases e) (auto simp: gate_entitlement_def)
qed (use assms in \<open>simp add: gate_entitlement_def\<close>)

lemma stage_anomaly_marks: "stage_anomaly env c g = (r, g') \<Longrightarrow> marks_kept g g'"
  by (auto simp: stage_anomaly_def marks_kept_def dest: detect_taint split: if_splits prod.splits)

lemma stage_recent_calls_marks: "stage_recent_calls env c g = (r, g') \<Longrightarrow> marks_kept g g'"
  by (auto simp: stage_recent_calls_def marks_kept_def dest: window_taint split: if_splits prod.splits sum.splits)

lemma stage_profile_marks:
  assumes "stage_profile env c g = (r, g')"
  shows "marks_kept g g'"
proof -
  obtain x r1 where l: "lookup_profile_with_cache (ge_world env AtProfile) (gw_db g) (gw_redis g) (ca_client_id c)
      (t_name (ca_tool_record c)) (ca_profile_uuid c) = (x, r1)" by fastforce
  note kept = marks_kept_redis[OF profile_taint[OF l]]
  show ?thesis
  proof (cases x)
    case (Inl e)
    with assms l kept show ?thesis by (cases e) (auto simp: stage_profile_def)
  qed (use assms l kept in \<open>auto simp: stage_profile_def\<close>)
qed

lemma stage_owned_servers_marks:
  assumes "stage_owned_servers env c g = (r, g')"
  shows "marks_kept g g'"
proof -
  obtain x r1 where l: "get_owned_server_ids (ge_world env AtOwned) (gw_db g) (gw_redis g) (ca_client_id c) = (x, r1)" by fastforce
  note kept = marks_kept_redis[OF owned_taint[OF l]]
  from assms show ?thesis
    unfolding stage_owned_servers_def l prod.case
    by (cases x; simp only: sum.case prod.inject split: if_split_asm) (use kept in auto)
qed

lemma frame_of: "(\<And>g r g'. m g = (r, g') \<Longrightarrow> R g g') \<Longrightarrow> frame R m"
  by (rule frameI) (metis prod.collapse)

lemma marks_kept_transp: "transp (marks_kept)"
  by (rule transpI) (rule marks_kept_trans)

lemmas marks_frame_andthen = frame_andthen[OF marks_kept_transp]

lemma gates_marks: "frame marks_kept (run_gates env GATES c)"
proof -
  have gates: "frame marks_kept (f env c)" if "f \<in> set GATES" for f c
    using that
    by (auto simp: GATES_def intro!: frame_of intro: marks_kept_same early_gates_redis gate_entitlement_redis stage_anomaly_marks
        stage_recent_calls_marks stage_profile_marks stage_owned_servers_marks)
  have "frame marks_kept (run_gates env fs c)" if "set fs \<subseteq> set GATES" for fs
    using that
  proof (induction fs arbitrary: c)
    case (Cons f fs)
    then have "frame marks_kept (andthen (f env c) (run_gates env fs))"
      by (intro marks_frame_andthen gates Cons.IH) auto
    then show ?case by (simp add: frame_def)
  qed (simp add: frame_def)
  then show ?thesis by blast
qed

lemma decide_marks: "decide env c g = (r, g') \<Longrightarrow> marks_kept g g'"
  by (auto simp: decide_def Let_def marks_kept_def dest!: audit_then_raise_redis dest: cutoff_taint split: prod.splits sum.splits if_splits)

lemma record_result_redis [simp]: "gw_redis (record_result env c ok err g) = gw_redis g"
  by (simp add: record_result_def)

lemma upstream_checks_redis:
  "fetch_allowlist_entry env c i g = (r, g') \<Longrightarrow> gw_redis g' = gw_redis g"
  "check_upstream_url env c entry g = (r', g') \<Longrightarrow> gw_redis g' = gw_redis g"
  "revalidate_upstream env c i entry g = (r'', g') \<Longrightarrow> gw_redis g' = gw_redis g"
  subgoal by (auto simp: fetch_allowlist_entry_def dest: audit_then_raise_redis split: option.splits if_splits)
  subgoal by (auto simp: check_upstream_url_def split: sum.splits)
  subgoal by (auto simp: revalidate_upstream_def andthen_def dest: audit_facts(3) split: sum.splits prod.splits)
  done

lemma inject_credential_redis: "inject_credential env c i g = (r, g') \<Longrightarrow> gw_redis g' = gw_redis g"
  by (auto simp: inject_credential_def Let_def dest!: audit_then_raise_redis split: if_splits sum.splits dispatch_failure.splits)

lemma post_redis: "post env c ips body hs g = (r, g') \<Longrightarrow> gw_redis g' = gw_redis g"
  by (auto simp: post_def Let_def)

lemma mcp_initialize_redis: "mcp_initialize env c ips g = (r, g') \<Longrightarrow> gw_redis g' = gw_redis g"
  by (auto simp: mcp_initialize_def Let_def dest!: post_redis split: prod.splits sum.splits)

lemma open_session_marks: "open_session env c ips g = (r, g') \<Longrightarrow> marks_kept g g'"
  by (auto simp: open_session_def marks_kept_def dest!: mcp_initialize_redis store_session_taint split: prod.splits sum.splits if_splits)

lemma forward_marks: "forward env c ips hs g = (ex, g') \<Longrightarrow> marks_kept g g'"
  by (auto simp: forward_def forward_call_def intro: marks_kept_trans[OF _ marks_kept_same] marks_kept_same
      dest!: open_session_marks dest: post_redis split: prod.splits sum.splits option.splits)

lemma connection_health_redis: "connection_health env c ex g = (r, g') \<Longrightarrow> gw_redis g' = gw_redis g"
  by (auto simp: connection_health_def split: sum.splits)

lemma screen_and_return_redis: "screen_and_return env c i aid resp g = (r, g') \<Longrightarrow> gw_redis g' = gw_redis g"
  by (auto simp: screen_and_return_def andthen_def dest: audit_facts(3) split: prod.splits sum.splits if_splits)

text \<open>
  A mark that holds at time \<open>t\<close> still holds after a call whose own mark, if it makes one, reaches \<open>t\<close>.
\<close>

definition still_tainted :: "string \<Rightarrow> rat \<Rightarrow> gw \<Rightarrow> gw \<Rightarrow> bool" where
  "still_tainted cid t g g' \<longleftrightarrow> (taint_covered (gw_redis g) cid t \<longrightarrow> taint_covered (gw_redis g') cid t)"

lemma still_tainted_trans: "still_tainted cid t g h \<Longrightarrow> still_tainted cid t h k \<Longrightarrow> still_tainted cid t g k"
  by (simp add: still_tainted_def)

lemma marks_kept_still: "marks_kept g g' \<Longrightarrow> still_tainted cid t g g'"
  by (simp add: still_tainted_def marks_kept_def same_taint_def)

lemma mark_session_still:
  assumes "mark_session env c g = (r, g')" and "t < now (ge_world env AtMark) + DEFAULT_TAINT_TTL_SECONDS"
  shows "still_tainted cid t g g'"
  using assms taint_bit.mark_keeps
  by (auto simp: mark_session_def still_tainted_def split: if_splits sum.splits)

lemma still_transp: "transp (still_tainted cid t)"
  by (rule transpI) (rule still_tainted_trans)

lemmas still_andthen = frame_andthen[OF still_transp]

lemma frame_marks: "frame marks_kept m \<Longrightarrow> frame (still_tainted cid t) m"
  by (auto simp: frame_def intro: marks_kept_still)

lemma frame_still_redis: "(\<And>g r g'. m g = (r, g') \<Longrightarrow> gw_redis g' = gw_redis g) \<Longrightarrow> frame (still_tainted cid t) m"
  by (rule frame_of) (simp add: still_tainted_def)

lemma still_frames:
  "frame (still_tainted cid t) (audit env a)" "frame (still_tainted cid t) (connection_health env c ex)"
  "frame (still_tainted cid t) (screen_and_return env c i aid resp)" "frame (still_tainted cid t) (inject_credential env c i)"
  "frame (still_tainted cid t) (revalidate_upstream env c i entry)" "frame (still_tainted cid t) (check_upstream_url env c entry)"
  "frame (still_tainted cid t) (fetch_allowlist_entry env c i)" "frame (still_tainted cid t) (decide env c)"
  "frame (still_tainted cid t) (run_gates env GATES c)" "frame (still_tainted cid t) (\<lambda>g. (x, g))"
  by (auto intro!: frame_of marks_kept_still intro: marks_kept_same audit_facts(3) connection_health_redis screen_and_return_redis
      inject_credential_redis upstream_checks_redis decide_marks frameD[OF gates_marks])

lemma answer_still:
  assumes "t < now (ge_world env AtMark) + DEFAULT_TAINT_TTL_SECONDS"
  shows "frame (still_tainted cid t) (answer env c i ex)"
proof -
  have mark: "frame (still_tainted cid t) (mark_session env c)"
    by (rule frame_of) (rule mark_session_still[OF _ assms])
  show ?thesis
    unfolding answer_def
    by (rule still_andthen[OF still_frames(1)])
      (auto intro!: still_andthen still_frames mark split: option.split)
qed

lemma deliver_still:
  assumes "t < now (ge_world env AtMark) + DEFAULT_TAINT_TTL_SECONDS"
  shows "frame (still_tainted cid t) (deliver env c i entry)"
proof -
  have "frame (still_tainted cid t) (\<lambda>g. let (ex, g') = forward env c ips hs g in answer env c i ex g')" for ips hs
  proof (rule frameI)
    fix g
    obtain ex g1 where f: "forward env c ips hs g = (ex, g1)" by fastforce
    from still_tainted_trans[OF marks_kept_still[OF forward_marks[OF f]] frame_snd[OF answer_still[OF assms]]] f
    show "still_tainted cid t g (snd (let (ex, g') = forward env c ips hs g in answer env c i ex g'))" by simp
  qed
  then show ?thesis
    unfolding deliver_def by (rule still_andthen[OF still_frames(4) still_andthen[OF still_frames(5)]])
qed

lemma invoke_still_tainted:
  assumes "t < now (ge_world env AtMark) + DEFAULT_TAINT_TTL_SECONDS"
  shows "frame (still_tainted cid t) (invoke_tool env ca)"
proof -
  have "frame (still_tainted cid t) (dispatch_call env c)" for c
    unfolding dispatch_call_def deliver_def[symmetric]
    by (rule still_andthen[OF still_frames(8) still_andthen[OF still_frames(7) still_andthen[OF still_frames(6) deliver_still[OF assms]]]])
  then have "frame (still_tainted cid t) (andthen (run_gates env GATES c) (dispatch_call env))" for c
    by (rule still_andthen[OF still_frames(9)])
  then show ?thesis
    by (auto simp: frame_def invoke_tool_def still_tainted_def split: sum.split)
qed

subsection \<open>Delivery\<close>

text \<open>What a call does from the credential on: nothing is sent unless the address was re-validated, and only to it.\<close>

lemma deliver_cases:
  assumes "deliver env c i entry g = (r, g')"
  obtains (stopped) e where "r = Inl e" "traced (\<lambda>a. is_audit a \<or> a = FetchedCredential) g g'"
  | (sent) hs ips ex g1 g2 where "inject_credential env c i g = (Inr hs, g1)" "traced (\<lambda>a. is_audit a \<or> a = FetchedCredential) g g1"
      "revalidate_upstream_ip_at_invoke (ge_dns_pin env) (t_upstream_url (ca_tool_record c)) entry = Inr ips"
      "forward env c ips hs g1 = (ex, g2)" "answer env c i ex g2 = (r, g')"
  using assms unfolding deliver_def
proof (cases rule: andthen_cases)
  case (stop e)
  then show thesis using stopped inject_credential_traced by blast
next
  case (go hs g1)
  note t = inject_credential_traced[OF go(1)]
  from go(2) show thesis
  proof (cases rule: andthen_cases)
    case (stop e)
    then have "traced is_audit g1 g'" using revalidate_upstream_quiet by (auto simp: quiet_def)
    then show thesis using stopped stop(2) traced_trans[OF t traced_mono[OF _ disjI1]] by blast
  next
    case (go ips g2)
    with revalidate_upstream_pass[OF go(1)] sent[OF \<open>inject_credential env c i g = (Inr hs, g1)\<close> t] show thesis
      by (cases "forward env c ips hs g1") auto
  qed
qed

text \<open>A request of the call, sent to an address of the re-validated answer.\<close>

definition injected :: "gw_env \<Rightarrow> ctx \<Rightarrow> (string \<times> string) list \<Rightarrow> bool" where
  "injected env c hs \<longleftrightarrow>
     (let m = t_injection_mode (ca_tool_record c) in
      if m = ''passthrough'' then hs = (if str_true (ca_inbound_auth c) then [(''Authorization'', the (ca_inbound_auth c))] else [])
      else if m \<noteq> ''none'' then ge_dispatch env c = Inr hs else hs = [])"

lemma inject_credential_pass: "inject_credential env c i g = (Inr hs, g') \<Longrightarrow> injected env c hs"
  by (auto simp: inject_credential_def injected_def Let_def split: if_splits sum.splits dispatch_failure.splits)

definition pinned_request :: "gw_env \<Rightarrow> string option \<Rightarrow> ctx \<Rightarrow> mcp_request \<Rightarrow> bool" where
  "pinned_request env entry c q \<longleftrightarrow>
     (\<exists>hs ips. injected env c hs
        \<and> revalidate_upstream_ip_at_invoke (ge_dns_pin env) (t_upstream_url (ca_tool_record c)) entry = Inr ips \<and> request_of c ips hs q)"

lemma deliver_traced:
  assumes "deliver env c i entry g = (r, g')"
  shows "traced (\<lambda>a. case a of Sent q \<Rightarrow> pinned_request env entry c q | _ \<Rightarrow> True) g g'" (is "traced ?P g g'")
  using assms
proof (cases rule: deliver_cases)
  case (stopped e)
  then show ?thesis by (elim traced_mono) (auto split: action.split)
next
  case (sent hs ips ex g1 g2)
  have "traced ?P g g1" using sent(2) by (elim traced_mono) (auto split: action.split)
  moreover have "traced ?P g1 g2"
    using forward_traced[OF sent(4)] inject_credential_pass[OF sent(1)] sent(3)
    by (elim traced_mono) (auto simp: sends_def pinned_request_def)
  moreover have "traced ?P g2 g'"
    using answer_aftermath[OF sent(5)] by (elim traced_mono) (auto split: action.split)
  ultimately show ?thesis by (blast intro: traced_trans)
qed

lemma quiet_new:
  "quiet g g' \<Longrightarrow> a \<in> set (drop (length (gw_trace g)) (gw_trace g')) \<Longrightarrow> is_audit a"
  by (auto simp: quiet_def traced_def list_all_iff)

lemma traced_new: "traced P g g' \<Longrightarrow> a \<in> set (drop (length (gw_trace g)) (gw_trace g')) \<Longrightarrow> P a"
  by (auto simp: traced_def list_all_iff)

lemma call_fields_of_build:
  assumes "build ca = Inr c0"
  shows "ca_tool_record c0 = ca_tool_record ca" "ca_client_id c0 = ca_client_id ca" "ca_client_roles c0 = ca_client_roles ca"
    "ca_request c0 = ca_request ca" "ca_principal_id c0 = ca_principal_id ca" "ca_principal_type c0 = ca_principal_type ca"
    "ca_inbound_auth c0 = ca_inbound_auth ca"
  using conjunct2[OF build_linked[OF assms], symmetric] by (simp_all add: call.truncate_def)

lemma gates_clear_call: "build ca = Inr c0 \<Longrightarrow> gates_clear env g c0 = gates_clear env g ca"
  by (simp add: gates_clear_def taint_clear_def entitled_def required_integrity_of_def call_fields_of_build)

subsection \<open>Refusals are audited\<close>

text \<open>The denials that the source audits before it raises them.\<close>

fun audited_refusal :: "exn \<Rightarrow> bool" where
  "audited_refusal (ScanFreshnessError _) = True"
| "audited_refusal (NotEntitledError _ _) = True"
| "audited_refusal (TaintFloorDenyError _) = True"
| "audited_refusal (OPADenyError _) = True"
| "audited_refusal _ = False"

definition deny_recorded :: "gw \<Rightarrow> gw \<Rightarrow> bool" where
  "deny_recorded g g' \<longleftrightarrow> (\<exists>as rs. gw_trace g' = gw_trace g @ as @ [Audited ''deny'' rs True] \<and> list_all is_audit as)"

lemma deny_recorded_after: "quiet g h \<Longrightarrow> deny_recorded h g' \<Longrightarrow> deny_recorded g g'"
  unfolding quiet_def traced_def deny_recorded_def by (metis append.assoc list_all_append)

text \<open>Where a stage stops with one of them, the record was written last.\<close>

definition records_refusal :: "(gw \<Rightarrow> (exn + 'a) \<times> gw) \<Rightarrow> bool" where
  "records_refusal m \<longleftrightarrow> (\<forall>g e g'. m g = (Inl e, g') \<and> audited_refusal e \<longrightarrow> deny_recorded g g')"

lemma records_refusal_andthen:
  assumes "records_refusal m" and "\<And>g x h. m g = (Inr x, h) \<Longrightarrow> quiet g h" and "\<And>x. records_refusal (f x)"
  shows "records_refusal (andthen m f)"
  unfolding records_refusal_def
proof (intro allI impI, elim conjE)
  fix g e g' assume run: "andthen m f g = (Inl e, g')" and e: "audited_refusal e"
  from run show "deny_recorded g g'"
  proof (cases rule: andthen_cases)
    case (stop e')
    with assms(1) e show ?thesis by (auto simp: records_refusal_def)
  next
    case (go x h)
    with assms(2)[OF go(1)] assms(3)[of x] e show ?thesis by (auto simp: records_refusal_def intro: deny_recorded_after)
  qed
qed

lemma audit_error: "audit env a g = (Inl e, g') \<Longrightarrow> \<not> audited_refusal e"
  by (auto simp: audit_def emit_audit_event_def Let_def split: prod.splits sum.splits if_splits)

lemma audit_then_raise_records:
  assumes "aa_outcome a = ''deny''"
  shows "records_refusal (audit_then_raise env a e :: gw \<Rightarrow> (exn + 'a) \<times> gw)"
proof -
  have "deny_recorded g g'" if "audit env a g = (Inr i, g')" for g g' i
    using audit_facts(1)[OF that] assms by (auto simp: deny_recorded_def)
  then show ?thesis
    by (auto simp: records_refusal_def audit_then_raise_def andthen_Inl dest: audit_error)
qed

lemma gate_audit_outcome [simp]:
  "aa_outcome (gate_audit_args c o' rs) = o'" "aa_outcome (late_audit_args c i o' rs) = o'"
  by (simp_all add: gate_audit_args_def late_audit_args_def)

lemma records_refusalD: "records_refusal m \<Longrightarrow> m g = (Inl e, g') \<Longrightarrow> audited_refusal e \<Longrightarrow> deny_recorded g g'"
  by (simp add: records_refusal_def)

lemma audit_then_raise_refused:
  "audit_then_raise env a x g = (Inl e, g') \<Longrightarrow> audited_refusal e \<Longrightarrow> aa_outcome a = ''deny'' \<Longrightarrow> deny_recorded g g'"
  by (rule records_refusalD[OF audit_then_raise_records])

lemma freshness_failed_records: "records_refusal (freshness_failed env c)"
  by (auto simp: records_refusal_def freshness_failed_def split: if_splits elim!: audit_then_raise_refused)

lemma gate_scan_freshness_records: "records_refusal (gate_scan_freshness env c)"
  unfolding records_refusal_def
proof (intro allI impI, elim conjE)
  fix g e g' assume run: "gate_scan_freshness env c g = (Inl e, g')" and e: "audited_refusal e"
  obtain r g1 where a: "audit env (gate_audit_args c ''deny'' [''scan_freshness_stale'']) g = (r, g1)" by fastforce
  have "deny_recorded g g1" if "r = Inr i" for i
    using audit_facts(1)[OF a] that by (auto simp: deny_recorded_def gate_audit_args_def)
  moreover have "deny_recorded g g'" if "freshness_failed env c g1 = (Inl e, g')"
    using deny_recorded_after[OF audit_quiet[OF a] records_refusalD[OF freshness_failed_records that e]] .
  moreover have "deny_recorded g g'" if "freshness_failed env c g = (Inl e, g')"
    using records_refusalD[OF freshness_failed_records that e] .
  ultimately show "deny_recorded g g'"
    using run a by (auto simp: gate_scan_freshness_def Let_def split: if_splits sum.splits)
qed

lemma gate_entitlement_records: "records_refusal (gate_entitlement env c)"
  unfolding records_refusal_def
proof (intro allI impI, elim conjE)
  fix g e g' assume run: "gate_entitlement env c g = (Inl e, g')" and e: "audited_refusal e"
  let ?r = "enforce_tool_entitlement (ge_world env AtEntitlement) (gw_db g) (t_server_id (ca_tool_record c)) (ca_principal_id c) (ca_principal_type c)"
  show "deny_recorded g g'"
  proof (cases ?r)
    case (Inl x)
    then obtain s why where "x = NotEntitledError s why"
      by (auto simp: enforce_tool_entitlement_def Let_def split: if_splits)
    with Inl run e show ?thesis by (auto simp: gate_entitlement_def elim!: audit_then_raise_refused)
  qed (use run in \<open>simp add: gate_entitlement_def\<close>)
qed

lemma gate_taint_floor_records: "records_refusal (gate_taint_floor env c)"
  by (auto simp: records_refusal_def gate_taint_floor_def Let_def andthen_Inl elim!: audit_then_raise_refused dest: audit_error
      split: if_splits prod.splits)

text \<open>The other stages raise none of them.\<close>

definition no_refusal :: "(gw \<Rightarrow> (exn + 'a) \<times> gw) \<Rightarrow> bool" where
  "no_refusal m \<longleftrightarrow> (\<forall>g e g'. m g = (Inl e, g') \<longrightarrow> \<not> audited_refusal e)"

lemma no_refusal_records: "no_refusal m \<Longrightarrow> records_refusal m"
  by (auto simp: no_refusal_def records_refusal_def)

lemma no_refusal_andthen: "no_refusal m \<Longrightarrow> (\<And>x. no_refusal (f x)) \<Longrightarrow> no_refusal (andthen m f)"
  unfolding no_refusal_def andthen_Inl by blast

lemma audit_no_refusal: "no_refusal (audit env a)"
  by (auto simp: no_refusal_def dest: audit_error)

lemma profile_error: "lookup_profile_with_cache w d r c n u = (Inl e, r') \<Longrightarrow> \<exists>m. e = ProfileLookupError m"
proof -
  have src: "\<exists>m. e = ProfileLookupError m" if "lookup_profile_source w d r k = (Inl e, r')" for r k r'
    using that by (auto simp: lookup_profile_source_def lookup_profile_db_def split: option.splits cval.splits if_splits)
  have any: "\<exists>m. e = ProfileLookupError m" if "named_profile_has_any_binding w d r k = (Inl e, r')" for r k r'
    using that by (auto simp: named_profile_has_any_binding_def split: option.splits cval.splits if_splits)
  assume "lookup_profile_with_cache w d r c n u = (Inl e, r')"
  then show ?thesis
    by (auto simp: lookup_profile_with_cache_def split: prod.splits sum.splits if_splits option.splits dest: src any)
qed

lemma stage_profile_no_refusal: "no_refusal (stage_profile env c)"
  unfolding no_refusal_def
proof (intro allI impI)
  fix g e g' assume run: "stage_profile env c g = (Inl e, g')"
  obtain x r where l: "lookup_profile_with_cache (ge_world env AtProfile) (gw_db g) (gw_redis g) (ca_client_id c)
      (t_name (ca_tool_record c)) (ca_profile_uuid c) = (x, r)" by fastforce
  show "\<not> audited_refusal e"
    using run l by (cases x) (auto simp: stage_profile_def dest!: profile_error)
qed

lemma stage_no_refusal:
  "no_refusal (gate_tool_status env c)" "no_refusal (gate_maintenance env c)" "no_refusal (stage_anomaly env c)"
  "no_refusal (stage_recent_calls env c)"
  subgoal by (auto simp: no_refusal_def gate_tool_status_def Let_def split: if_splits)
  subgoal by (auto simp: no_refusal_def gate_maintenance_def Let_def split: if_splits option.splits)
  subgoal by (auto simp: no_refusal_def stage_anomaly_def split: if_splits prod.splits)
  subgoal by (auto simp: no_refusal_def stage_recent_calls_def split: if_splits prod.splits sum.splits)
  done

lemma owned_error: "get_owned_server_ids w d r c = (Inl e, r') \<Longrightarrow> \<not> audited_refusal e"
  by (auto simp: get_owned_server_ids_def Let_def split: if_splits option.splits cval.splits)

lemma stage_owned_servers_no_refusal: "no_refusal (stage_owned_servers env c)"
  unfolding no_refusal_def
proof (intro allI impI)
  fix g e g' assume run: "stage_owned_servers env c g = (Inl e, g')"
  obtain x r where l: "get_owned_server_ids (ge_world env AtOwned) (gw_db g) (gw_redis g) (ca_client_id c) = (x, r)" by fastforce
  from run show "\<not> audited_refusal e"
    unfolding stage_owned_servers_def l prod.case
    by (cases x; simp only: sum.case prod.inject sum.inject sum.distinct split: if_split_asm) (use owned_error l in auto)
qed

lemma gates_records: "records_refusal (run_gates env GATES c)"
proof -
  have gates: "records_refusal (f env c)" if "f \<in> set GATES" for f c
    using that
    by (auto simp: GATES_def intro: no_refusal_records stage_no_refusal stage_profile_no_refusal stage_owned_servers_no_refusal
        gate_scan_freshness_records gate_entitlement_records gate_taint_floor_records)
  have quiet: "quiet g h" if "f \<in> set GATES" "f env c g = (x, h)" for f c g x h
    using that by (auto simp: GATES_def intro: gate_frame_quiet frameD[OF gate_frames(1)] frameD[OF gate_frames(2)]
        frameD[OF gate_frames(3)] frameD[OF gate_frames(4)] frameD[OF gate_frames(5)] frameD[OF gate_frames(6)]
        frameD[OF gate_frames(7)] frameD[OF gate_frames(8)] frameD[OF gate_frames(9)])
  have "records_refusal (run_gates env fs c)" if "set fs \<subseteq> set GATES" for fs
    using that
  proof (induction fs arbitrary: c)
    case (Cons f fs)
    then have "records_refusal (andthen (f env c) (run_gates env fs))"
      by (intro records_refusal_andthen gates Cons.IH) (auto intro: quiet)
    then show ?case by (simp add: records_refusal_def)
  qed (simp add: records_refusal_def)
  then show ?thesis by blast
qed

lemma evaluate_policy_error:
  assumes "evaluate_policy reply = Inl e"
  shows "\<not> audited_refusal e"
proof -
  have "\<not> audited_refusal x" if "py_list j = Inl x" for j x
    using that by (cases j) (auto simp: py_list_def)
  moreover have "\<exists>m. e = OPAUnavailableError m \<or> e = AttributeError m \<or> (\<exists>j. py_list j = Inl e)"
    using assms by (auto simp: evaluate_policy_def Let_def split: opa_reply.split_asm option.split_asm if_split_asm sum.split_asm)
  ultimately show ?thesis by auto
qed

lemma decide_records: "records_refusal (decide env c)"
  unfolding records_refusal_def
proof (intro allI impI, elim conjE)
  fix g e g' assume run: "decide env c g = (Inl e, g')" and e: "audited_refusal e"
  have "deny_recorded g g'" if "deny_recorded (g\<lparr>gw_redis := r\<rparr>) g'" for r
    using that by (simp add: deny_recorded_def)
  with run e show "deny_recorded g g'"
    by (auto simp: decide_def Let_def split: prod.splits sum.splits if_splits dest: evaluate_policy_error
        dest!: audit_then_raise_refused)
qed

lemma audit_then_raise_no_refusal: "\<not> audited_refusal x \<Longrightarrow> no_refusal (audit_then_raise env a x)"
  by (auto simp: no_refusal_def audit_then_raise_def andthen_Inl dest: audit_error)

lemma no_refusalD: "no_refusal m \<Longrightarrow> m g = (Inl e, g') \<Longrightarrow> \<not> audited_refusal e"
  unfolding no_refusal_def by blast

lemma later_no_refusal:
  "no_refusal (fetch_allowlist_entry env c i)" "no_refusal (check_upstream_url env c entry)" "no_refusal (inject_credential env c i)"
  "no_refusal (revalidate_upstream env c i entry)"
  unfolding no_refusal_def
  subgoal by (auto simp: fetch_allowlist_entry_def dest: no_refusalD[OF audit_then_raise_no_refusal, rotated] split: option.splits if_splits)
  subgoal by (auto simp: check_upstream_url_def split: sum.splits)
  subgoal by (auto simp: inject_credential_def Let_def dest: no_refusalD[OF audit_then_raise_no_refusal, rotated]
        split: if_splits sum.splits dispatch_failure.splits)
  subgoal by (auto simp: revalidate_upstream_def andthen_Inl dest: audit_error split: sum.splits)
  done

lemma answer_no_refusal: "no_refusal (answer env c i ex)"
proof -
  have "no_refusal (connection_health env c ex)"
    by (auto simp: no_refusal_def connection_health_def is_error_result_def Let_def split: sum.splits if_splits)
  moreover have "no_refusal (mark_session env c)"
    by (auto simp: no_refusal_def mark_session_def mark_tainted_for_principal_def mark_tainted_def pool_client_def
        split: sum.splits if_splits option.splits)
  moreover have "no_refusal (screen_and_return env c i aid resp)" for aid resp
    by (auto simp: no_refusal_def screen_and_return_def andthen_Inl add_meta_def dest: audit_error split: if_splits json.splits)
  moreover have "no_refusal (\<lambda>g. (Inr j, g))" for j :: json by (simp add: no_refusal_def)
  ultimately show ?thesis
    unfolding answer_def by (auto intro!: no_refusal_andthen audit_no_refusal split: option.split)
qed

lemma deliver_no_refusal: "no_refusal (deliver env c i entry)"
proof -
  have "no_refusal (\<lambda>g. let (ex, g') = forward env c ips hs g in answer env c i ex g')" for ips hs
    unfolding no_refusal_def by (auto split: prod.splits dest: no_refusalD[OF answer_no_refusal])
  then show ?thesis
    unfolding deliver_def by (intro no_refusal_andthen later_no_refusal)
qed

lemma dispatch_records: "records_refusal (dispatch_call env c)"
  unfolding dispatch_call_def deliver_def[symmetric]
  by (rule records_refusal_andthen[OF decide_records gate_frame_quiet[OF decide_frame]])
    (auto intro!: no_refusal_records no_refusal_andthen later_no_refusal deliver_no_refusal)

lemma invoke_records: "records_refusal (invoke_tool env ca)"
proof (cases "build ca")
  case (Inl e)
  then show ?thesis
    by (auto simp: records_refusal_def invoke_tool_def build_def Let_def split: if_splits)
next
  case (Inr c)
  have "records_refusal (andthen (run_gates env GATES c) (dispatch_call env))"
    by (rule records_refusal_andthen[OF gates_records gate_frame_quiet[OF gates_stop] dispatch_records])
  with Inr show ?thesis by (simp add: records_refusal_def invoke_tool_def)
qed

subsection \<open>The taint mark of an answer\<close>

lemma no_meta [simp]: "jlookup (error_response c code msg d) ''meta'' = None" "jlookup (challenge_response c ch aid) ''meta'' = None"
  by (simp_all add: error_response_def challenge_response_def)

lemma answer_marks:
  assumes "answer env c i ex g = (Inr j, g')" and "jlookup j ''meta'' \<noteq> None"
    and "TAINT_FLOOR_ENABLED (ge_settings env)" and "result_taints_session (cx_taint_server_trust_tier c)"
    and "t < now (ge_world env AtMark) + DEFAULT_TAINT_TTL_SECONDS"
  shows "taint_covered (gw_redis g') (ca_client_id c) t"
proof -
  from assms(1,2) obtain aid g1 g2 g3 where m: "mark_session env c g2 = (Inr (), g3)"
      "screen_and_return env c i aid (ex_response ex) g3 = (Inr j, g')"
    by (auto simp: answer_def andthen_Inr split: option.splits if_splits)
  from m(1) assms(3,4) have "mark_tainted_for_principal (ge_world env AtMark) (gw_redis g2) (Some (ca_client_id c)) = Inr (gw_redis g3)"
    by (auto simp: mark_session_def split: sum.splits)
  from taint_bit.mark_covers[OF this assms(5)] screen_and_return_redis[OF m(2)] show ?thesis by simp
qed

lemma invoke_marks:
  assumes "invoke_tool env ca g = (Inr j, g')" and "jlookup j ''meta'' \<noteq> None"
    and "TAINT_FLOOR_ENABLED (ge_settings env)" and "result_taints_session (fst (server_trust env g (ca_tool_record ca)))"
    and "t < now (ge_world env AtMark) + DEFAULT_TAINT_TTL_SECONDS"
  shows "taint_covered (gw_redis g') (ca_client_id ca) t"
  using assms(1)
proof (cases rule: invoke_phases)
  case (checked c0 c i g1)
  note f = same_call_fields(1,2)[OF checked(2)] call_fields_of_build(1,2)[OF checked(1)]
  have tier: "result_taints_session (cx_taint_server_trust_tier c)"
    using checked(8)[OF assms(3)] assms(4) f by simp
  from checked(9) show ?thesis
  proof (cases rule: deliver_cases)
    case (sent hs ips ex h1 h2)
    from answer_marks[OF sent(5) assms(2,3) tier assms(5)] f show ?thesis by simp
  qed simp
qed simp

text \<open>A run of calls, each with its own circumstances.\<close>

fun run_calls :: "(gw_env \<times> call) list \<Rightarrow> gw \<Rightarrow> gw" where
  "run_calls [] g = g"
| "run_calls ((env, ca) # cs) g = run_calls cs (snd (invoke_tool env ca g))"

lemma run_calls_still_tainted:
  assumes "\<And>env ca. (env, ca) \<in> set cs \<Longrightarrow> t < now (ge_world env AtMark) + DEFAULT_TAINT_TTL_SECONDS"
  shows "still_tainted cid t g (run_calls cs g)"
  using assms
proof (induction cs arbitrary: g)
  case (Cons ec cs)
  obtain env ca where ec: "ec = (env, ca)" by fastforce
  have "still_tainted cid t g (snd (invoke_tool env ca g))"
    using Cons.prems[of env ca] ec by (intro frame_snd[OF invoke_still_tainted]) simp
  moreover have "still_tainted cid t (snd (invoke_tool env ca g)) (run_calls cs (snd (invoke_tool env ca g)))"
    using Cons.prems by (intro Cons.IH) (meson list.set_intros(2))
  ultimately show ?case using ec still_tainted_trans by simp
qed (simp add: still_tainted_def)

subsection \<open>The requests\<close>

lemma url_hostname_nonempty:
  assumes "url_hostname u = Some h"
  shows "h \<noteq> []"
proof -
  let ?p = "partition_on CHR ''%''"
  have "h \<noteq> []" if "(if x = [] then None else Some (lower (fst (?p x)) @ (if fst (snd (?p x)) then CHR ''%'' # snd (snd (?p x)) else []))) = Some h" for x
    using that by (cases x) (auto simp: partition_on_def lower_def split: if_split_asm)
  with assms show ?thesis unfolding url_hostname_def Let_def split_beta by blast
qed

lemma upstream_hostname_of:
  "revalidate_upstream_ip_at_invoke gai url entry = Inr ips \<Longrightarrow> ips \<noteq> [] \<and> upstream_hostname url \<noteq> [] \<and> gai (upstream_hostname url) = Some ips"
  by (auto simp: revalidate_iff upstream_hostname_def dest: url_hostname_nonempty)

lemma post_request_pinned:
  assumes "revalidate_upstream_ip_at_invoke gai (t_upstream_url (ca_tool_record c)) entry = Inr ips"
  shows "post_request c ips body hs = handle_async_request (hd ips) (upstream_hostname (t_upstream_url (ca_tool_record c)))
     \<lparr>req_method = ''POST'', req_host = upstream_hostname (t_upstream_url (ca_tool_record c)),
      req_headers = map (\<lambda>(k, v). (lower k, v)) hs, req_sni = None, mr_url = t_upstream_url (ca_tool_record c), mr_body = body\<rparr>"
  using upstream_hostname_of[OF assms] by (simp add: post_request_def Let_def)

lemma pinned_request_of:
  assumes "pinned_request env entry c q"
  obtains ips hs sid body where "revalidate_upstream_ip_at_invoke (ge_dns_pin env) (t_upstream_url (ca_tool_record c)) entry = Inr ips"
    "injected env c hs" "body \<in> {handshake_headers c, forward_base_headers c hs}"
    "q = post_request c ips (mr_body q) (with_session sid body)" "mr_body q \<in> {init_payload, initialized_payload, ca_request c}"
proof -
  from assms obtain hs ips where h: "injected env c hs" "revalidate_upstream_ip_at_invoke (ge_dns_pin env) (t_upstream_url (ca_tool_record c)) entry = Inr ips"
    "request_of c ips hs q" by (auto simp: pinned_request_def)
  have body: "mr_body (post_request c ips b x) = b" for b x
    by (simp add: post_request_def Let_def handle_async_request_def)
  have none: "handshake_headers c = with_session None (handshake_headers c)" by (simp add: with_session_def)
  from h(3) consider "q = post_request c ips init_payload (with_session None (handshake_headers c))"
    | sid where "q = post_request c ips initialized_payload (with_session sid (handshake_headers c))"
    | sid where "q = post_request c ips (ca_request c) (with_session sid (forward_base_headers c hs))"
    using none by (auto simp: request_of_def)
  then show thesis
    by cases (use that[OF h(2,1)] body in \<open>metis insertI1 insertI2\<close>)+
qed

lemma AList_update_mem: "(k, v) \<in> set (AList.update a b xs) \<Longrightarrow> (k, v) = (a, b) \<or> (k, v) \<in> set xs"
  by (induction xs) (auto split: if_splits)

text \<open>The identity headers are the gateway's own; a credential can shadow none of them.\<close>

lemma dict_merge_mem: "(k, v) \<in> set (dict_merge a b) \<Longrightarrow> (k, v) \<in> set b \<or> (k, v) \<in> set a"
proof (induction b arbitrary: a)
  case (Cons x b)
  obtain k' v' where x: "x = (k', v')" by fastforce
  with Cons.prems have "(k, v) \<in> set (dict_merge (AList.update k' v' a) b)" by (simp add: dict_merge_def)
  from Cons.IH[OF this] AList_update_mem[of k v k' v' a] x show ?case by auto
qed (simp add: dict_merge_def)

definition OTHER_HEADERS :: "string list" where
  "OTHER_HEADERS = [''Accept'', ''Content-Type'', ''Host'', ''Authorization'', ''Mcp-Session-Id'', ''X-Principal-Type'',
     ''X-Principal-Issuer'', ''X-Principal-Display-Sub'']"

definition gateway_header :: "ctx \<Rightarrow> string \<times> string \<Rightarrow> bool" where
  "gateway_header c h \<longleftrightarrow> fst h \<in> set OTHER_HEADERS
     \<or> h \<in> {(''X-User-Sub'', ca_client_id c), (''X-User-Role'', primary_role (ca_client_roles c))}
     \<or> fst h = ''X-Principal-Id'' \<and> ca_principal_id c = Some (snd h)"

lemma lower_identity_headers:
  "lower ''X-User-Sub'' = ''x-user-sub''" "lower ''X-User-Role'' = ''x-user-role''" "lower ''X-Principal-Id'' = ''x-principal-id''"
  by code_simp+

lemma lower_other_headers: "list_all (\<lambda>k. lower k \<noteq> ''x-user-sub'' \<and> lower k \<noteq> ''x-user-role'' \<and> lower k \<noteq> ''x-principal-id'') OTHER_HEADERS"
  by code_simp

lemma gateway_header_cases:
  assumes "gateway_header c (k, v)"
  obtains "k \<in> set OTHER_HEADERS" | "k = ''X-User-Sub''" "v = ca_client_id c"
    | "k = ''X-User-Role''" "v = primary_role (ca_client_roles c)" | "k = ''X-Principal-Id''" "ca_principal_id c = Some v"
  using assms unfolding gateway_header_def fst_conv snd_conv insert_iff empty_iff prod.inject by blast

lemma gateway_header_identity:
  assumes "gateway_header c (k, v)"
  shows "(lower k = ''x-user-sub'' \<longrightarrow> v = ca_client_id c) \<and> (lower k = ''x-user-role'' \<longrightarrow> v = primary_role (ca_client_roles c))
    \<and> (lower k = ''x-principal-id'' \<longrightarrow> ca_principal_id c = Some v)"
  using assms
proof (cases rule: gateway_header_cases)
  case 1
  with lower_other_headers show ?thesis unfolding list_all_iff by blast
qed (simp_all add: lower_identity_headers)

lemma gateway_header_others:
  "gateway_header c (''Accept'', v)" "gateway_header c (''Content-Type'', v)" "gateway_header c (''Host'', v)"
  "gateway_header c (''Authorization'', v)" "gateway_header c (''Mcp-Session-Id'', v)" "gateway_header c (''X-Principal-Type'', v)"
  "gateway_header c (''X-Principal-Issuer'', v)" "gateway_header c (''X-Principal-Display-Sub'', v)"
  "gateway_header c (''X-User-Sub'', ca_client_id c)" "gateway_header c (''X-User-Role'', primary_role (ca_client_roles c))"
  by (simp_all add: gateway_header_def OTHER_HEADERS_def)

lemma gateway_header_principal: "str_true (ca_principal_id c) \<Longrightarrow> gateway_header c (''X-Principal-Id'', the (ca_principal_id c))"
  by (cases "ca_principal_id c") (simp_all add: gateway_header_def)

lemma handshake_headers_own: "list_all (gateway_header c) (handshake_headers c)"
  by (simp add: handshake_headers_def gateway_header_others)

lemma list_all_update: "list_all P xs \<Longrightarrow> P (k, v) \<Longrightarrow> list_all P (AList.update k v xs)"
  by (induction xs) auto

lemma list_all_dict_merge: "list_all P a \<Longrightarrow> list_all P b \<Longrightarrow> list_all P (dict_merge a b)"
  unfolding dict_merge_def by (induction b arbitrary: a) (auto simp: list_all_update)

lemma forward_headers_own: "list_all (gateway_header c) hs \<Longrightarrow> list_all (gateway_header c) (forward_base_headers c hs)"
  unfolding forward_base_headers_def
  by (intro list_all_dict_merge) (simp_all add: handshake_headers_own gateway_header_others gateway_header_principal)

lemma with_session_own: "list_all (gateway_header c) xs \<Longrightarrow> list_all (gateway_header c) (with_session sid xs)"
  by (simp add: with_session_def list_all_update gateway_header_others)

text \<open>The requests of a whole call, each pinned to an address of the re-validated answer.\<close>

lemma invoke_requests:
  assumes "invoke_tool env ca g = (r, g')" and "Sent q \<in> set (drop (length (gw_trace g)) (gw_trace g'))"
  obtains c0 c where "build ca = Inr c0" "same_call c0 c" "pinned_request env (registered_entry (gw_db g) (ca_tool_record c)) c q"
  using assms(1)
proof (cases rule: invoke_phases)
  case (stopped e)
  with assms(2) quiet_new show thesis by fastforce
next
  case (checked c0 c i g1)
  let ?P = "\<lambda>a. case a of Sent q \<Rightarrow> pinned_request env (registered_entry (gw_db g) (ca_tool_record c)) c q | _ \<Rightarrow> True"
  have "traced ?P g g1" using checked(7) by (auto simp: gate_frame_def elim!: traced_mono split: action.split)
  from traced_new[OF traced_trans[OF this deliver_traced[OF checked(9)]] assms(2)] that[OF checked(1,2)]
  show thesis by simp
qed

end
