(* ===== verification/CallSafety.thy ===== *)
theory CallSafety
  imports Pipeline
begin

section \<open>Properties of a tool call\<close>

text \<open>
  What \<^verbatim>\<open>proxy/app/services/invocation.py\<close> guarantees of one call of \<open>invoke_tool\<close>, and of a run of calls: nothing leaves the
  gateway before every gate, the policy and both address checks let the call through; every request goes to a
  validated address with the gateway's own identity headers; the audit table follows the actions of the call, every answer
  names its audit row and every audited refusal ends in one; a result of an untrusted server bars later sensitive calls; and
  a server that keeps failing is taken out of service.
\<close>

subsection \<open>The audit table and the trace\<close>

text \<open>The rows that the written audit actions of a trace stand for, for the calls of one client.\<close>

fun logged :: "string \<Rightarrow> action \<Rightarrow> (string \<times> string option \<times> string) list" where
  "logged cid (Audited outcome reasons True) = [(cid, Some outcome, json_dumps (jstrs reasons))]"
| "logged cid _ = []"

definition row_summary :: "audit_row \<Rightarrow> string \<times> string option \<times> string" where
  "row_summary r = (ar_client_id r, ar_original_outcome r, ar_opa_reasons r)"

abbreviation audit_table :: "gw \<Rightarrow> (string \<times> string option \<times> string) list" where
  "audit_table g \<equiv> map row_summary (audit_events (gw_audit g))"

definition in_step :: "string \<Rightarrow> gw \<Rightarrow> gw \<Rightarrow> bool" where
  "in_step cid g g' \<longleftrightarrow>
     (\<exists>as. gw_trace g' = gw_trace g @ as \<and> audit_table g' = audit_table g @ concat (map (logged cid) as))"

lemma in_step_same: "gw_trace g' = gw_trace g \<Longrightarrow> gw_audit g' = gw_audit g \<Longrightarrow> in_step cid g g'"
  by (simp add: in_step_def)

lemma in_step_refl [simp]: "in_step cid g g"
  by (simp add: in_step_same)

lemma in_step_trans: "in_step cid g h \<Longrightarrow> in_step cid h k \<Longrightarrow> in_step cid g k"
  unfolding in_step_def by force

lemma in_step_transp: "transp (in_step cid)"
  by (rule transpI) (rule in_step_trans)

lemmas in_step_andthen = frame_andthen[OF in_step_transp]

text \<open>Every emission goes to the table; \<open>_SKIP_AUDIT_DB_WRITE\<close> is off outside the tests.\<close>

definition table_on :: "gw_env \<Rightarrow> bool" where
  "table_on env \<longleftrightarrow> (\<forall>n. \<not> av_skip_db_write (ge_audit env n))"

lemma emit_row:
  assumes "emit_audit_event v a st = (r, st')" and "\<not> av_skip_db_write v"
  shows "case r of Inl e \<Rightarrow> audit_events st' = audit_events st
    | Inr i \<Rightarrow> \<exists>row. audit_events st' = audit_events st @ [row] \<and> ar_event_id row = i \<and> ar_client_id row = aa_client_id a
        \<and> ar_tool_name row = aa_tool_name a \<and> ar_original_outcome row = Some (aa_outcome a)
        \<and> ar_opa_reasons row = json_dumps (jstrs (aa_deny_reasons a))"
  using assms
  by (auto simp: emit_audit_event_def logger_emit_def write_line_def syslog_emit_def row_of_event_def Let_def
      split: sum.splits if_splits prod.splits)

lemma audit_row:
  assumes "audit env a g = (r, g')" and "table_on env"
  shows "case r of Inl e \<Rightarrow> audit_events (gw_audit g') = audit_events (gw_audit g)
    | Inr i \<Rightarrow> \<exists>row. audit_events (gw_audit g') = audit_events (gw_audit g) @ [row] \<and> ar_event_id row = i
        \<and> ar_client_id row = aa_client_id a \<and> ar_tool_name row = aa_tool_name a
        \<and> ar_original_outcome row = Some (aa_outcome a) \<and> ar_opa_reasons row = json_dumps (jstrs (aa_deny_reasons a))"
proof -
  obtain st where e: "emit_audit_event (ge_audit env (gw_emits g)) a (gw_audit g) = (r, st)" "gw_audit g' = st"
    using assms(1) by (auto simp: audit_def Let_def split: prod.splits)
  show ?thesis using emit_row[OF e(1)] assms(2) e(2) by (auto simp: table_on_def)
qed

lemma audit_in_step:
  assumes "table_on env" and "aa_client_id a = cid"
  shows "frame (in_step cid) (audit env a)"
proof (rule frame_of)
  fix g r g' assume a: "audit env a g = (r, g')"
  show "in_step cid g g'"
    using audit_row[OF a assms(1)] audit_facts(1)[OF a] assms(2)
    by (cases r) (auto simp: in_step_def row_summary_def)
qed

lemma audit_then_raise_in_step:
  "table_on env \<Longrightarrow> aa_client_id a = cid \<Longrightarrow> frame (in_step cid) (audit_then_raise env a e)"
  unfolding audit_then_raise_def by (intro in_step_andthen audit_in_step) (simp_all add: frame_def)

lemma audit_client [simp]:
  "aa_client_id (gate_audit_args c o' rs) = ca_client_id c" "aa_client_id (late_audit_args c i o' rs) = ca_client_id c"
  by (simp_all add: gate_audit_args_def late_audit_args_def)

lemma in_step_redis [simp]:
  "in_step cid g (g\<lparr>gw_redis := r\<rparr>)" "in_step cid g (g\<lparr>gw_redis := r, gw_alerts := al\<rparr>)" "in_step cid g (record_result env c ok err g)"
  by (simp_all add: in_step_same record_result_def)

lemma in_step_action [simp]:
  "in_step cid g (g\<lparr>gw_trace := gw_trace g @ [FetchedCredential]\<rparr>)"
  "in_step cid g (g\<lparr>gw_sent := qs, gw_trace := gw_trace g @ [Sent q]\<rparr>)"
  "in_step cid g (g\<lparr>gw_redis := r, gw_trace := gw_trace g @ [MarkedTaint]\<rparr>)"
  by (simp_all add: in_step_def)

lemma freshness_failed_in_step: "table_on env \<Longrightarrow> in_step (ca_client_id c) g (snd (freshness_failed env c g))"
  by (simp add: freshness_failed_def frame_snd[OF audit_then_raise_in_step])

lemma gates_in_step:
  assumes "table_on env"
  shows "frame (in_step (ca_client_id c)) (gate_tool_status env c)" "frame (in_step (ca_client_id c)) (gate_maintenance env c)"
    "frame (in_step (ca_client_id c)) (gate_scan_freshness env c)" "frame (in_step (ca_client_id c)) (gate_entitlement env c)"
    "frame (in_step (ca_client_id c)) (gate_taint_floor env c)"
proof -
  let ?S = "in_step (ca_client_id c)"
  have raise: "?S g (snd (audit_then_raise env a e g :: (exn + ctx) \<times> gw))" if "aa_client_id a = ca_client_id c" for a e g
    by (rule frame_snd[OF audit_then_raise_in_step[OF assms that]])
  show "frame ?S (gate_tool_status env c)" by (rule frameI) (simp add: gate_tool_status_def Let_def)
  show "frame ?S (gate_maintenance env c)" by (rule frameI) (simp add: gate_maintenance_def Let_def split: option.split)
  show "frame ?S (gate_scan_freshness env c)"
  proof (rule frameI)
    fix g
    obtain r g1 where a: "audit env (gate_audit_args c ''deny'' [''scan_freshness_stale'']) g = (r, g1)" by fastforce
    have "?S g g1" by (rule frameD[OF audit_in_step[OF assms] a]) simp
    then show "?S g (snd (gate_scan_freshness env c g))"
      using a freshness_failed_in_step[OF assms] in_step_trans[OF _ freshness_failed_in_step[OF assms]]
      by (simp add: gate_scan_freshness_def Let_def split: sum.split)
  qed
  show "frame ?S (gate_entitlement env c)"
    by (rule frameI) (simp add: gate_entitlement_def raise split: sum.split exn.split)
  show "frame ?S (gate_taint_floor env c)"
  proof (rule frameI)
    fix g
    have "?S g (snd (andthen (audit env a) (\<lambda>_ g. (Inr x, g)) g))" if "aa_client_id a = ca_client_id c" for a and x :: ctx
      by (rule frame_snd, rule in_step_andthen[OF audit_in_step[OF assms that]]) (simp add: frame_def)
    then show "?S g (snd (gate_taint_floor env c g))"
      by (simp add: gate_taint_floor_def Let_def raise split: prod.split)
  qed
qed

lemma stages_in_step:
  "frame (in_step cid) (stage_anomaly env c)" "frame (in_step cid) (stage_recent_calls env c)" "frame (in_step cid) (stage_profile env c)"
  "frame (in_step cid) (stage_owned_servers env c)"
  subgoal by (rule frameI) (simp add: stage_anomaly_def split: prod.split)
  subgoal by (rule frameI) (simp add: stage_recent_calls_def split: prod.split sum.split)
  subgoal by (rule frameI) (simp add: stage_profile_def split: prod.split sum.split exn.split)
  subgoal by (rule frameI) (simp add: stage_owned_servers_def split: prod.split sum.split)
  done

text \<open>The gates keep the caller, so the whole sequence writes rows of one client.\<close>

definition keeps_client :: "(gw_env \<Rightarrow> ctx \<Rightarrow> gw \<Rightarrow> (exn + ctx) \<times> gw) \<Rightarrow> bool" where
  "keeps_client f \<longleftrightarrow> (\<forall>env c g c' g'. f env c g = (Inr c', g') \<longrightarrow> ca_client_id c' = ca_client_id c)"

lemma GATES_keep_client: "list_all keeps_client GATES"
proof -
  have "keeps_client gate_taint_floor"
    by (auto simp: keeps_client_def gate_taint_floor_def Let_def andthen_Inr split: if_splits prod.splits)
  moreover have "keeps_client gate_tool_status" "keeps_client gate_maintenance" "keeps_client gate_scan_freshness" "keeps_client gate_entitlement"
    using gate_tool_status_pass gate_maintenance_pass gate_scan_freshness_pass gate_entitlement_pass
    unfolding keeps_client_def by blast+
  moreover have "keeps_client stage_anomaly" "keeps_client stage_recent_calls" "keeps_client stage_profile" "keeps_client stage_owned_servers"
    unfolding keeps_client_def
    by (metis same_call_fields(2) same_tier_def stage_anomaly_same, metis same_call_fields(2) same_tier_def stage_recent_calls_same,
        metis same_call_fields(2) same_tier_def stage_profile_same, metis same_call_fields(2) same_tier_def stage_owned_servers_same)
  ultimately show ?thesis by (simp add: GATES_def)
qed

lemma run_gates_in_step:
  assumes "table_on env"
  shows "frame (in_step (ca_client_id c)) (run_gates env GATES c)"
proof -
  have gate: "frame (in_step (ca_client_id c)) (f env c)" if "f \<in> set GATES" for f c
    using that gates_in_step[OF assms, of c] by (auto simp: GATES_def stages_in_step)
  have "frame (in_step (ca_client_id c)) (run_gates env fs c)" if "set fs \<subseteq> set GATES" for fs
    using that
  proof (induction fs arbitrary: c)
    case (Cons f fs)
    show ?case
    proof (rule frame_of)
      fix g r g' assume "run_gates env (f # fs) c g = (r, g')"
      then have "andthen (f env c) (run_gates env fs) g = (r, g')" by simp
      then show "in_step (ca_client_id c) g g'"
      proof (cases rule: andthen_cases)
        case (stop e)
        with frameD[OF gate[of f c]] Cons.prems show ?thesis by simp
      next
        case (go c1 g1)
        from go(1) Cons.prems GATES_keep_client have "ca_client_id c1 = ca_client_id c"
          unfolding list_all_iff keeps_client_def by (metis list.set_intros(1) subsetD)
        with frameD[OF gate[of f c] go(1)] frameD[OF Cons.IH[of c1] go(2)] Cons.prems
        show ?thesis by (auto intro: in_step_trans)
      qed
    qed
  qed (simp add: frame_def)
  then show ?thesis by blast
qed

lemma dispatch_stages_in_step:
  assumes "table_on env"
  shows "frame (in_step (ca_client_id c)) (decide env c)" "frame (in_step (ca_client_id c)) (fetch_allowlist_entry env c i)"
    "frame (in_step (ca_client_id c)) (check_upstream_url env c entry)" "frame (in_step (ca_client_id c)) (inject_credential env c i)"
    "frame (in_step (ca_client_id c)) (revalidate_upstream env c i entry)"
proof -
  let ?S = "in_step (ca_client_id c)"
  note raised = audit_then_raise_in_step[OF assms, THEN frame_snd, THEN in_step_trans[rotated]]
  show "frame ?S (decide env c)"
    by (rule frameI) (auto simp: decide_def Let_def intro: raised split: prod.split sum.split)
  show "frame ?S (fetch_allowlist_entry env c i)"
    by (rule frameI) (auto simp: fetch_allowlist_entry_def intro: raised split: option.split)
  show "frame ?S (check_upstream_url env c entry)"
    by (rule frameI) (simp add: check_upstream_url_def split: sum.split)
  show "frame ?S (inject_credential env c i)"
    by (rule frameI) (auto simp: inject_credential_def Let_def intro: raised split: sum.split dispatch_failure.split)
  show "frame ?S (revalidate_upstream env c i entry)"
  proof (rule frameI)
    fix g
    have "?S g (snd (andthen (audit env a) (\<lambda>_ g1. (Inl x :: exn + string list, record_result env c False y g1)) g))"
      if "aa_client_id a = ca_client_id c" for a x y
      by (rule frame_snd, rule in_step_andthen[OF audit_in_step[OF assms that]]) (simp add: frame_def)
    then show "?S g (snd (revalidate_upstream env c i entry g))"
      by (simp add: revalidate_upstream_def split: sum.split)
  qed
qed

lemma post_in_step: "post env c ips body hs g = (r, g') \<Longrightarrow> in_step cid g g'"
  by (auto simp: post_def Let_def)

lemma mcp_initialize_in_step: "mcp_initialize env c ips g = (r, g') \<Longrightarrow> in_step cid g g'"
  by (auto simp: mcp_initialize_def Let_def intro: in_step_trans dest!: post_in_step[where cid = cid] split: prod.splits sum.splits)

lemma open_session_in_step: "open_session env c ips g = (r, g') \<Longrightarrow> in_step cid g g'"
  by (auto simp: open_session_def intro: in_step_trans[OF _ in_step_redis(1)] dest!: mcp_initialize_in_step[where cid = cid]
      split: prod.splits sum.splits if_splits)

lemma forward_in_step: "forward env c ips hs g = (ex, g') \<Longrightarrow> in_step cid g g'"
  by (auto simp: forward_def forward_call_def intro: in_step_trans dest!: open_session_in_step[where cid = cid] post_in_step[where cid = cid]
      split: prod.splits sum.splits option.splits)

lemma answer_in_step:
  assumes "table_on env"
  shows "frame (in_step (ca_client_id c)) (answer env c i ex)"
proof -
  let ?S = "in_step (ca_client_id c)"
  have "frame ?S (connection_health env c ex)"
    by (rule frameI) (simp add: connection_health_def split: sum.split)
  moreover have "frame ?S (mark_session env c)"
    by (rule frameI) (simp add: mark_session_def split: sum.split)
  moreover have "frame ?S (screen_and_return env c i aid resp)" for aid resp
  proof (rule frameI)
    fix g
    have "?S g (snd (andthen (audit env a) (\<lambda>_ g1. (x, g1)) g))" if "aa_client_id a = ca_client_id c" for a and x :: "exn + json"
      by (rule frame_snd, rule in_step_andthen[OF audit_in_step[OF assms that]]) (simp add: frame_def)
    then show "?S g (snd (screen_and_return env c i aid resp g))"
      by (simp add: screen_and_return_def)
  qed
  moreover have "frame ?S (\<lambda>g. (Inr j, g))" for j :: json by (simp add: frame_def)
  ultimately show ?thesis
    unfolding answer_def
    by (intro in_step_andthen audit_in_step[OF assms]) (auto intro!: in_step_andthen split: option.split)
qed

lemma deliver_in_step:
  assumes "table_on env"
  shows "frame (in_step (ca_client_id c)) (deliver env c i entry)"
proof -
  have "frame (in_step (ca_client_id c)) (\<lambda>g. let (ex, g') = forward env c ips hs g in answer env c i ex g')" for ips hs
    by (rule frame_of) (auto split: prod.splits intro: in_step_trans[OF forward_in_step frameD[OF answer_in_step[OF assms]]])
  then show ?thesis
    unfolding deliver_def
    by (rule in_step_andthen[OF dispatch_stages_in_step(4)[OF assms] in_step_andthen[OF dispatch_stages_in_step(5)[OF assms]]])
qed

lemma dispatch_in_step:
  assumes "table_on env"
  shows "frame (in_step (ca_client_id c)) (dispatch_call env c)"
  unfolding dispatch_call_def deliver_def[symmetric]
  by (rule in_step_andthen[OF dispatch_stages_in_step(1)[OF assms] in_step_andthen[OF dispatch_stages_in_step(2)[OF assms]
      in_step_andthen[OF dispatch_stages_in_step(3)[OF assms] deliver_in_step[OF assms]]]])

subsection \<open>The audit identifier of an answer\<close>

text \<open>Where an answer carries the identifier of its audit row: in its \<open>meta\<close>, or in the data of the error.\<close>

definition answer_audit_id :: "json \<Rightarrow> json" where
  "answer_audit_id j =
     (case jlookup j ''meta'' of Some m \<Rightarrow> jget m ''audit_id'' | None \<Rightarrow> jget (jget (jget j ''error'') ''data'') ''audit_id'')"

lemma answer_audit_id_error [simp]:
  "answer_audit_id (error_response c code msg ((''audit_id'', JStr a) # d)) = JStr a"
  "answer_audit_id (challenge_response c ch a) = JStr a"
  by (simp_all add: answer_audit_id_def error_response_def challenge_response_def jget_def)

lemma map_of_dict_merge: "map_of (dict_merge a b) k = (case map_of (rev b) k of Some v \<Rightarrow> Some v | None \<Rightarrow> map_of a k)"
  unfolding dict_merge_def
proof (induction b arbitrary: a)
  case (Cons x b)
  obtain k' v' where x: "x = (k', v')" by fastforce
  show ?case by (simp add: x Cons.IH map_add_def update_conv' split: option.split)
qed simp

lemma answer_audit_id_meta: "add_meta env c a resp = Inr j \<Longrightarrow> answer_audit_id j = JStr a"
  by (auto simp: add_meta_def answer_audit_id_def jget_def update_conv' map_of_dict_merge split: json.splits if_splits)

lemma answer_names_its_row:
  assumes "answer env c i ex g = (Inr j, g')" and "table_on env"
  shows "\<exists>a row. answer_audit_id j = JStr a \<and> row \<in> set (audit_events (gw_audit g')) \<and> ar_event_id row = a
    \<and> ar_client_id row = ca_client_id c \<and> ar_tool_name row = t_name (ca_tool_record c)
    \<and> ar_original_outcome row = Some (fst (audit_outcome ex))"
proof -
  define aa where "aa = (late_audit_args c i (fst (audit_outcome ex)) (snd (audit_outcome ex)))
        \<lparr>aa_latency_ms := ge_latency_ms env, aa_tainted := cx_tainted c, aa_principal_id := None\<rparr>"
  from assms(1)[unfolded answer_def, folded aa_def] obtain a g1 where a: "audit env aa g = (Inr a, g1)"
    and rest: "(case ex_challenge ex of Some ch \<Rightarrow> (\<lambda>g. (Inr (challenge_response c ch a), g))
        | None \<Rightarrow> andthen (connection_health env c ex)
            (\<lambda>_. if ex_error ex \<noteq> None \<or> \<not> truthy (ex_response ex)
                 then (\<lambda>g. (Inr (error_response c (-32603) ''Upstream MCP server error.'' [(''audit_id'', JStr a)]), g))
                 else andthen (mark_session env c) (\<lambda>_. screen_and_return env c i a (ex_response ex)))) g1 = (Inr j, g')"
    by (auto simp: andthen_Inr)
  have "aa_client_id aa = ca_client_id c" "aa_tool_name aa = t_name (ca_tool_record c)" "aa_outcome aa = fst (audit_outcome ex)"
    by (simp_all add: aa_def late_audit_args_def gate_audit_args_def)
  with audit_row[OF a assms(2)] obtain row where new: "audit_events (gw_audit g1) = audit_events (gw_audit g) @ [row]"
    and row: "ar_event_id row = a" "ar_client_id row = ca_client_id c" "ar_tool_name row = t_name (ca_tool_record c)"
      "ar_original_outcome row = Some (fst (audit_outcome ex))" by auto
  have screen: "set (audit_events (gw_audit h)) \<subseteq> set (audit_events (gw_audit h')) \<and> answer_audit_id j = JStr a"
    if "screen_and_return env c i a resp h = (Inr j, h')" for resp h h'
    using that answer_audit_id_meta
    by (auto simp: screen_and_return_def andthen_Inr dest!: audit_row[OF _ assms(2)] split: if_splits)
  have "set (audit_events (gw_audit g1)) \<subseteq> set (audit_events (gw_audit g')) \<and> answer_audit_id j = JStr a"
    using rest
    by (auto simp: andthen_Inr connection_health_def record_result_def mark_session_def dest!: screen split: option.splits sum.splits if_splits)
  with row new show ?thesis by (intro exI[of _ a] exI[of _ row]) auto
qed

subsection \<open>A failing server\<close>

text \<open>The row of a server after one failed call, and after several.\<close>

lemma failed_row_facts [simp]:
  "sr_server_id (connection_failed_row err r) = sr_server_id r" "sr_deleted (connection_failed_row err r) = sr_deleted r"
  "sr_owner_sub (connection_failed_row err r) = sr_owner_sub r" "sr_maintainers (connection_failed_row err r) = sr_maintainers r"
  "sr_failure_count (connection_failed_row err r) = sr_failure_count r + 1"
  by (simp_all add: connection_failed_row_def Let_def)

lemma failed_row_debug: "sr_debug_mode (connection_failed_row err r) \<longleftrightarrow> sr_debug_mode r \<or> 3 \<le> sr_failure_count r + 1"
  by (auto simp: connection_failed_row_def Let_def CONNECTION_FAILURE_THRESHOLD_def)

lemma find_map_same:
  assumes "\<And>r. P (f r) = P r"
  shows "find P (map f xs) = map_option f (find P xs)"
  by (induction xs) (simp_all add: assms)

lemma live_server_failed:
  assumes "db_ok w QConnectionResult" and "sid \<noteq> []"
  shows "live_server (record_connection_result w sid False err d) sid = map_option (connection_failed_row err) (live_server d sid)"
proof -
  let ?f = "\<lambda>r. if sr_server_id r = sid then connection_failed_row err r else r"
  have "find (\<lambda>r. sr_server_id r = sid \<and> \<not> sr_deleted r) (map ?f rs) = map_option ?f (find (\<lambda>r. sr_server_id r = sid \<and> \<not> sr_deleted r) rs)" for rs
    by (rule find_map_same) auto
  moreover have "map_option ?f (live_server d sid) = map_option (connection_failed_row err) (live_server d sid)"
    by (cases "live_server d sid") (auto dest: live_server_Some)
  moreover have "server_registry (record_connection_result w sid False err d) = map ?f (server_registry d)"
    using assms by (simp add: record_connection_result_def)
  ultimately show ?thesis by (simp only: live_server_def)
qed

text \<open>An upstream that answers nothing: every request to it fails.\<close>

definition upstream_dead :: "gw_env \<Rightarrow> bool" where
  "upstream_dead env \<longleftrightarrow> (\<forall>past q. isl (ge_upstream env past q))"

lemma dead_exchange:
  assumes "upstream_dead env" and "forward env c ips hs g = (ex, g')"
  shows "(\<exists>b e. ex = exchange_failed b e) \<and> gw_db g' = gw_db g"
proof -
  have post: "\<exists>e. post env c ips body h g = (Inl e, g\<lparr>gw_sent := gw_sent g @ [post_request c ips body h],
      gw_trace := gw_trace g @ [Sent (post_request c ips body h)]\<rparr>)" for body h g
    using assms(1) unfolding upstream_dead_def post_def Let_def by (metis isl_def)
  have "\<exists>e h. open_session env c ips g = (Inl e, h) \<and> gw_db h = gw_db g"
    using post[of init_payload "handshake_headers c" g] by (auto simp: open_session_def mcp_initialize_def)
  then show ?thesis
    using assms(2) by (auto simp: forward_def get_or_create_session_def split: if_splits option.splits)
qed

lemma inject_credential_db: "inject_credential env c i g = (Inr hs, g') \<Longrightarrow> gw_db g' = gw_db g"
  by (auto simp: inject_credential_def Let_def split: if_splits sum.splits dispatch_failure.splits)

lemma failed_answer_db:
  assumes "answer env c i (exchange_failed b e) g = (Inr j, g')"
  shows "gw_db g' = record_connection_result (ge_world env AtConnection) (cx_tool_server_id c) False (Some e) (gw_db g)"
  using assms
  by (auto simp: answer_def exchange_failed_def andthen_Inr connection_health_def is_error_result_def jget_def record_result_def
      dest!: audit_facts(2))

lemma dead_call_db:
  assumes "upstream_dead env" and "invoke_tool env ca g = (Inr j, g')"
  shows "\<exists>err. gw_db g' = record_connection_result (ge_world env AtConnection) (server_id_of (ca_tool_record ca)) False err (gw_db g)"
  using assms(2)
proof (cases rule: invoke_phases)
  case (checked c0 c i g1)
  have sid: "cx_tool_server_id c = server_id_of (ca_tool_record ca)"
    using checked(3) same_call_fields(1)[OF checked(2)] call_fields_of_build(1)[OF checked(1)] by (simp add: linked_def)
  from checked(9) show ?thesis
  proof (cases rule: deliver_cases)
    case (sent hs ips ex h1 h2)
    from dead_exchange[OF assms(1) sent(4)] obtain b e where ex: "ex = exchange_failed b e" "gw_db h2 = gw_db h1" by blast
    have "gw_db h2 = gw_db g" using ex(2) inject_credential_db[OF sent(1)] checked(7) by (simp add: gate_frame_def)
    with failed_answer_db[OF sent(5)[unfolded ex(1)]] sid show ?thesis by auto
  qed simp
qed simp

text \<open>A run of calls to one server, each answered, with the upstream dead throughout and the bookkeeping query working.\<close>

fun dead_calls :: "string \<Rightarrow> (gw_env \<times> call) list \<Rightarrow> gw \<Rightarrow> bool" where
  "dead_calls sid [] g \<longleftrightarrow> True"
| "dead_calls sid ((env, ca) # cs) g \<longleftrightarrow>
     server_id_of (ca_tool_record ca) = sid \<and> upstream_dead env \<and> db_ok (ge_world env AtConnection) QConnectionResult
     \<and> \<not> isl (fst (invoke_tool env ca g)) \<and> dead_calls sid cs (snd (invoke_tool env ca g))"

lemma dead_calls_row:
  assumes "dead_calls sid cs g" and "sid \<noteq> []" and "live_server (gw_db g) sid = Some row"
  shows "\<exists>row'. live_server (gw_db (run_calls cs g)) sid = Some row' \<and> sr_owner_sub row' = sr_owner_sub row
    \<and> sr_maintainers row' = sr_maintainers row \<and> sr_failure_count row' = sr_failure_count row + int (length cs)
    \<and> (sr_debug_mode row \<or> cs \<noteq> [] \<and> 3 \<le> sr_failure_count row' \<longrightarrow> sr_debug_mode row')"
  using assms(1,3)
proof (induction cs arbitrary: g row)
  case (Cons ec cs)
  obtain env ca where ec: "ec = (env, ca)" by fastforce
  obtain j g1 where run: "invoke_tool env ca g = (Inr j, g1)"
    using Cons.prems(1) ec by (cases "invoke_tool env ca g"; cases "fst (invoke_tool env ca g)") auto
  from Cons.prems(1) ec run have facts: "server_id_of (ca_tool_record ca) = sid" "upstream_dead env"
    "db_ok (ge_world env AtConnection) QConnectionResult" "dead_calls sid cs g1" by auto
  from dead_call_db[OF facts(2) run] facts(1) obtain err
    where "gw_db g1 = record_connection_result (ge_world env AtConnection) sid False err (gw_db g)" by auto
  then have row1: "live_server (gw_db g1) sid = Some (connection_failed_row err row)"
    using live_server_failed[OF facts(3) assms(2)] Cons.prems(2) by simp
  let ?r = "connection_failed_row err row"
  from Cons.IH[OF facts(4) row1] obtain row' where row': "live_server (gw_db (run_calls cs g1)) sid = Some row'"
    "sr_owner_sub row' = sr_owner_sub row" "sr_maintainers row' = sr_maintainers row"
    "sr_failure_count row' = sr_failure_count row + 1 + int (length cs)"
    and debug: "sr_debug_mode ?r \<or> cs \<noteq> [] \<and> 3 \<le> sr_failure_count row' \<longrightarrow> sr_debug_mode row'"
    unfolding failed_row_facts by blast
  have "sr_debug_mode row \<or> 3 \<le> sr_failure_count row' \<longrightarrow> sr_debug_mode row'"
    using debug row'(4) failed_row_debug[of err row] by (cases "cs = []") auto
  with row' ec run show ?case by auto
qed simp

subsection \<open>An example\<close>

text \<open>
  A public, not yet reviewed server, and a call of one of its tools by a client that does not own it. Redis refuses every write but the
  taint mark, so the caches stay empty; the upstream is a parameter.
\<close>

definition example_row :: server_row where
  "example_row = \<lparr>sr_server_id = ''s1'', sr_name = ''files'', sr_upstream_url = ''https://files.lab/mcp'', sr_custody_mode = None,
     sr_status = ''approved'', sr_deleted = False, sr_public = True, sr_write_ops = False, sr_debug_mode = False, sr_debug_enabled_by = None,
     sr_owner_sub = Some ''alice'', sr_maintainers = [], sr_trust_tier = None, sr_default_injection_mode = None,
     sr_allowlist_entry = Some ''10.0.0.0/8'', sr_last_rescanned_at = None, sr_failure_count = 0, sr_last_error = None\<rparr>"

definition example_world :: "stage \<Rightarrow> world" where
  "example_world s = \<lparr>now = 0, now_repr = ''0.0'', redis_ok = (\<lambda>op. case op of RSetex _ \<Rightarrow> s = AtMark | _ \<Rightarrow> True), db_ok = (\<lambda>_. True)\<rparr>"

definition example_audit :: audit_env where
  "example_audit = \<lparr>av_event_id = ''e1'', av_timestamp = ''2026-01-01T00:00:00+00:00'', av_time = 0, av_syslog_ts = ''Jan 01 00:00:00'',
     av_float_repr = (\<lambda>_. ''0.0''), av_stdout_ok = True, av_insert_ok = (\<lambda>_. True), av_sendto_ok = False,
     av_hmac_key = None, av_wazuh_host = None, av_skip_db_write = False\<rparr>"

definition example_env :: "(mcp_request list \<Rightarrow> mcp_request \<Rightarrow> string + http_response) \<Rightarrow> gw_env" where
  "example_env up = \<lparr>
     ge_settings = \<lparr>SCAN_MAX_AGE_HOURS = 24, SCAN_FRESHNESS_ENFORCED = False, TAINT_FLOOR_ENABLED = True, TAINT_FLOOR_MODE = ''enforce'',
       ENVIRONMENT = ''production'', RESPONSE_FILTER_BLOCK = None\<rparr>,
     ge_world = example_world, ge_audit = (\<lambda>_. example_audit),
     ge_opa = (\<lambda>_. OpaResponse 200 (Some (JObj [(''result'', JObj [(''allow'', JBool True), (''reasons'', JArr [])])]))),
     ge_decision_hex = ''0'', ge_dns_check = (\<lambda>_. Some [''10.1.2.3'']), ge_dns_pin = (\<lambda>_. Some [''10.1.2.3'']),
     ge_ssrf_text = (\<lambda>_. []), ge_reval_text = (\<lambda>_. []), ge_dispatch = (\<lambda>_. Inr []), ge_upstream = up, ge_latency_ms = 5\<rparr>"

definition example_tool :: tool_record where
  "example_tool = \<lparr>t_tool_id = Some ''t1'', t_name = ''read'', t_status = ''active'', t_version = None, t_risk_level = None,
     t_server_id = Some ''s1'', t_upstream_url = ''https://files.lab/mcp'', t_required_integrity = None, t_injection_mode = ''none'',
     t_upstream_allowlist_entry = None, t_sensitivity_label = None\<rparr>"

definition example_call :: call where
  "example_call = \<lparr>ca_tool_record = example_tool,
     ca_request = JObj [(''method'', JStr ''tools/call''), (''id'', JInt 1), (''params'', JObj [(''name'', JStr ''read'')])],
     ca_client_id = ''bob'', ca_client_roles = [''agent''], ca_is_testing = True, ca_request_id = ''r1'', ca_inbound_auth = None,
     ca_principal_id = Some ''human:kc:bob'', ca_principal_type = Some ''human'', ca_user_kc_token = None, ca_source_ip = None,
     ca_session_jti = None, ca_profile_uuid = None, ca_principal_issuer = None, ca_principal_display_sub = None\<rparr>"

definition example_gw :: gw where
  "example_gw = \<lparr>gw_db = \<lparr>server_registry = [example_row], entitlement = [], server_role_grant = [], mcp_profiles = [], profile_mcp_bindings = [],
       client_limits = []\<rparr>,
     gw_redis = empty_redis, gw_audit = \<lparr>log_lines = [], audit_events = [], syslog = []\<rparr>, gw_emits = 0, gw_alerts = [], gw_sent = [], gw_trace = []\<rparr>"

text \<open>The states in which the example call reaches the upstream.\<close>

definition example_ready :: "gw \<Rightarrow> bool" where
  "example_ready g \<longleftrightarrow> gw_redis g = empty_redis \<and> mcp_profiles (gw_db g) = []
     \<and> entitlement (gw_db g) = [] \<and> server_role_grant (gw_db g) = []
     \<and> (\<exists>row. live_server (gw_db g) ''s1'' = Some row \<and> \<not> sr_debug_mode row \<and> sr_status row = ''approved'' \<and> sr_public row \<and> \<not> sr_write_ops row
          \<and> sr_trust_tier row = None \<and> sr_default_injection_mode row = None \<and> sr_allowlist_entry row = Some ''10.0.0.0/8'')"

lemmas example_defs = example_env_def example_world_def example_tool_def example_call_def

lemma example_gw_ready: "example_ready example_gw"
  by (simp add: example_ready_def example_gw_def live_server_def example_row_def)

definition example_ctx :: ctx where
  "example_ctx = call.extend example_call (ctx.fields ''s1'' (JObj []) ''read'' (Some False) None None 0 [] None [] ''medium'')"

lemma example_ctx_fields [simp]:
  "ca_tool_record example_ctx = example_tool" "ca_client_id example_ctx = ''bob''" "ca_is_testing example_ctx"
  "cx_tool_server_id example_ctx = ''s1''" "cx_taint_server_trust_tier example_ctx = None" "ca_request example_ctx = ca_request example_call"
  "cx_anomaly_score example_ctx = 0" "ca_principal_type example_ctx = Some ''human''" "ca_client_roles example_ctx = [''agent'']"
  by (simp_all add: example_ctx_def call.extend_def ctx.fields_def example_call_def)

lemma example_not_tainted:
  "gw_redis g = empty_redis \<Longrightarrow> is_tainted_for_principal (example_world AtTaint) (gw_redis g) (Some ''bob'') = False"
  by (simp add: is_tainted_for_principal_def is_tainted_def pool_client_def example_world_def redis_get_def)

lemma gw_same_redis [simp]: "gw_redis g = r \<Longrightarrow> g\<lparr>gw_redis := r\<rparr> = g"
  by (cases g) simp

lemma example_gates:
  assumes "example_ready g"
  shows "run_gates (example_env up) GATES (call.extend example_call (ctx.fields ''s1'' (JObj []) ''read'' None None None 0 [] None [] ''medium'')) g
    = (Inr example_ctx, g)"
proof -
  from assms obtain row where row: "live_server (gw_db g) ''s1'' = Some row" "\<not> sr_debug_mode row" "sr_status row = ''approved''" "sr_public row"
    "\<not> sr_write_ops row" "sr_trust_tier row = None" "sr_default_injection_mode row = None"
    and r: "gw_redis g = empty_redis" and p: "mcp_profiles (gw_db g) = []" "entitlement (gw_db g) = []" "server_role_grant (gw_db g) = []"
    by (auto simp: example_ready_def)
  define c where "c = call.extend example_call (ctx.fields ''s1'' (JObj []) ''read'' None None None 0 [] None [] ''medium'')"
  have f: "ca_tool_record c = example_tool" "ca_client_id c = ''bob''" "ca_is_testing c" "cx_tool_server_id c = ''s1''"
    "ca_principal_id c = Some ''human:kc:bob''" "ca_principal_type c = Some ''human''" "ca_client_roles c = [''agent'']" "ca_profile_uuid c = None"
    by (simp_all add: c_def call.extend_def ctx.fields_def example_call_def)
  define c1 where "c1 = c\<lparr>cx_tainted := Some False, cx_taint_notice := None, cx_taint_server_trust_tier := None\<rparr>"
  have f1: "ca_tool_record c1 = example_tool" "ca_client_id c1 = ''bob''" "ca_is_testing c1" "ca_client_roles c1 = [''agent'']" "ca_profile_uuid c1 = None"
    by (simp_all add: c1_def f)
  have c1: "c1\<lparr>cx_anomaly_score := 0, cx_recent_calls := [], cx_profile_data := None, cx_owned_server_ids := [], cx_owner_max_risk_level := ''medium''\<rparr> = example_ctx"
    by (simp add: c1_def c_def example_ctx_def call.extend_def ctx.fields_def)
  have s1: "gate_tool_status (example_env up) c g = (Inr c, g)"
    by (simp add: gate_tool_status_def f example_tool_def)
  have s2: "gate_maintenance (example_env up) c g = (Inr c, g)"
    using row by (simp add: gate_maintenance_def f example_env_def example_world_def)
  have s3: "gate_scan_freshness (example_env up) c g = (Inr c, g)"
    using row by (simp add: gate_scan_freshness_def f example_env_def example_world_def)
  have s4: "gate_entitlement (example_env up) c g = (Inr c, g)"
    using row p by (simp add: gate_entitlement_def f example_env_def example_world_def example_tool_def enforce_tool_entitlement_def
        check_entitlement_def explicit_grants_def role_grants_def)
  have s5: "gate_taint_floor (example_env up) c g = (Inr c1, g)"
    using row example_not_tainted[OF r]
    by (simp add: gate_taint_floor_def f example_env_def lookup_server_trust_def taint_floor_decision_def resolve_taint_action_def c1_def
        TAINT_ACTION_BLOCK_def example_world_def[of AtTaint, THEN arg_cong[of _ _ db_ok]])
  have prof: "lookup_profile_with_cache (example_world AtProfile) (gw_db g) (gw_redis g) ''bob'' ''read'' None = (Inr None, gw_redis g)"
    by (simp add: lookup_profile_with_cache_def lookup_profile_source_def lookup_profile_db_def try_get_def try_setex_def r redis_get_def
        profile_rows_def profile_table_def example_world_def p)
  let ?c2 = "c1\<lparr>cx_anomaly_score := 0\<rparr>" and ?c3 = "c1\<lparr>cx_anomaly_score := 0, cx_recent_calls := []\<rparr>"
  let ?c4 = "c1\<lparr>cx_anomaly_score := 0, cx_recent_calls := [], cx_profile_data := None\<rparr>"
  have s6: "stage_anomaly (example_env up) c1 g = (Inr ?c2, g)" by (simp add: stage_anomaly_def f1)
  have s7: "stage_recent_calls (example_env up) ?c2 g = (Inr ?c3, g)" by (simp add: stage_recent_calls_def f1)
  have s8: "stage_profile (example_env up) ?c3 g = (Inr ?c4, g)"
    using prof by (simp add: stage_profile_def f1 example_tool_def example_env_def)
  have s9: "stage_owned_servers (example_env up) ?c4 g = (Inr example_ctx, g)"
    using c1 by (simp add: stage_owned_servers_def f1)
  show ?thesis
    unfolding c_def[symmetric] by (simp add: GATES_def andthen_def s1 s2 s3 s4 s5 s6 s7 s8 s9)
qed

lemma example_url:
  "validate_server_url (\<lambda>_. Some [''10.1.2.3'']) ''https://files.lab/mcp'' False (Some ''10.0.0.0/8'') = Inr ()"
  "revalidate_upstream_ip_at_invoke (\<lambda>_. Some [''10.1.2.3'']) ''https://files.lab/mcp'' (Some ''10.0.0.0/8'') = Inr [''10.1.2.3'']"
  by code_simp+

lemma example_reaches_upstream:
  assumes "example_ready g"
  shows "invoke_tool (example_env up) example_call g =
    (let (ex, g') = forward (example_env up) example_ctx [''10.1.2.3''] [] g in answer (example_env up) example_ctx ''dec_0'' ex g')"
proof -
  from assms obtain row where row: "live_server (gw_db g) ''s1'' = Some row" "sr_allowlist_entry row = Some ''10.0.0.0/8''"
    and r: "gw_redis g = empty_redis" by (auto simp: example_ready_def)
  have b: "build example_call = Inr (call.extend example_call (ctx.fields ''s1'' (JObj []) ''read'' None None None 0 [] None [] ''medium''))"
    by (simp add: build_def example_call_def example_tool_def jget_or_def text_of_def)
  have "get_anomaly_cutoff (example_world AtCutoff) (gw_db g) (gw_redis g) ''bob'' = (DEFAULT_CUTOFF, gw_redis g)"
    by (simp add: get_anomaly_cutoff_def read_limits_row_def r redis_get_def example_world_def)
  then have d: "decide (example_env up) example_ctx g = (Inr ''dec_0'', g)"
    by (simp add: decide_def example_env_def evaluate_policy_def py_list_def Let_def)
  have f: "fetch_allowlist_entry (example_env up) example_ctx ''dec_0'' g = (Inr (Some ''10.0.0.0/8''), g)"
    using row by (simp add: fetch_allowlist_entry_def example_tool_def example_env_def example_world_def)
  have u: "check_upstream_url (example_env up) example_ctx (Some ''10.0.0.0/8'') g = (Inr (), g)"
    by (simp add: check_upstream_url_def example_tool_def example_env_def example_url)
  have i: "inject_credential (example_env up) example_ctx ''dec_0'' g = (Inr [], g)"
    by (simp add: inject_credential_def example_tool_def)
  have v: "revalidate_upstream (example_env up) example_ctx ''dec_0'' (Some ''10.0.0.0/8'') g = (Inr [''10.1.2.3''], g)"
    by (simp add: revalidate_upstream_def example_tool_def example_env_def example_url)
  show ?thesis
    by (simp add: invoke_tool_def b andthen_def example_gates[OF assms] dispatch_call_def d f u i v)
qed

lemma example_audit_ok:
  assumes "audit (example_env up) a g = (r, g')" and "aa_client_id a \<noteq> []" "aa_tool_name a \<noteq> []" "str_true (aa_tool_id a)"
    "aa_outcome a \<in> {''allow'', ''deny'', ''error''}" "aa_anomaly_score a = 0" "aa_principal_type a = Some ''human''"
  shows "r = Inr ''e1''"
proof -
  obtain x where x: "aa_tool_id a = Some x" "x \<noteq> []" using assms(4) by (cases "aa_tool_id a") auto
  show ?thesis
    using assms(1,2,3,5-7) x
    by (auto simp: audit_def Let_def emit_audit_event_def post_init_def validate_event_def event_of_args_def example_env_def example_audit_def
      logger_emit_def row_of_event_def row_checks_def split: prod.splits if_splits)
qed

text \<open>An upstream that is down.\<close>

definition example_down :: gw_env where
  "example_down = example_env (\<lambda>_ _. Inl ''ConnectError'')"

lemma example_down_call:
  assumes "example_ready g"
  shows "\<exists>j g'. invoke_tool example_down example_call g = (Inr j, g') \<and> gw_redis g' = empty_redis \<and> gw_sent g' \<noteq> gw_sent g"
proof -
  have r: "gw_redis g = empty_redis" using assms by (simp add: example_ready_def)
  define q where "q = post_request example_ctx [''10.1.2.3''] init_payload (handshake_headers example_ctx)"
  define g1 where "g1 = g\<lparr>gw_sent := gw_sent g @ [q], gw_trace := gw_trace g @ [Sent q]\<rparr>"
  have f: "forward example_down example_ctx [''10.1.2.3''] [] g = (exchange_failed True ''ConnectError'', g1)"
    by (simp add: forward_def get_or_create_session_def r redis_get_def open_session_def mcp_initialize_def post_def example_down_def
        example_env_def example_world_def Let_def q_def g1_def)
  define aa where "aa = (late_audit_args example_ctx ''dec_0'' (fst (audit_outcome (exchange_failed True ''ConnectError'')))
      (snd (audit_outcome (exchange_failed True ''ConnectError''))))
        \<lparr>aa_latency_ms := ge_latency_ms example_down, aa_tainted := cx_tainted example_ctx, aa_principal_id := None\<rparr>"
  obtain x g2 where a: "audit example_down aa g1 = (x, g2)" by fastforce
  have x: "x = Inr ''e1''"
    using a[unfolded example_down_def]
    by (rule example_audit_ok) (simp_all add: aa_def late_audit_args_def gate_audit_args_def audit_outcome_def exchange_failed_def
        str_tool_id_def example_tool_def)
  have "\<exists>j g'. answer example_down example_ctx ''dec_0'' (exchange_failed True ''ConnectError'') g1 = (Inr j, g')
      \<and> gw_redis g' = gw_redis g2 \<and> gw_sent g' = gw_sent g2"
    unfolding answer_def aa_def[symmetric] andthen_def a x
    by (simp add: exchange_failed_def connection_health_def is_error_result_def jget_def record_result_def)
  moreover have "invoke_tool example_down example_call g = answer example_down example_ctx ''dec_0'' (exchange_failed True ''ConnectError'') g1"
    using example_reaches_upstream[OF assms] f unfolding example_down_def by simp
  ultimately show ?thesis using audit_facts(3,4)[OF a] r by (auto simp: g1_def)
qed

lemma failed_row_keeps [simp]:
  "sr_status (connection_failed_row err r) = sr_status r" "sr_public (connection_failed_row err r) = sr_public r"
  "sr_write_ops (connection_failed_row err r) = sr_write_ops r" "sr_trust_tier (connection_failed_row err r) = sr_trust_tier r"
  "sr_default_injection_mode (connection_failed_row err r) = sr_default_injection_mode r"
  "sr_allowlist_entry (connection_failed_row err r) = sr_allowlist_entry r"
  by (simp_all add: connection_failed_row_def Let_def)

lemma upstream_dead_example: "upstream_dead example_down"
  by (simp add: upstream_dead_def example_down_def example_env_def)

lemma example_down_next:
  assumes "example_ready g" and "sr_failure_count (the (live_server (gw_db g) ''s1'')) = n" and "n < 2"
    and "invoke_tool example_down example_call g = (Inr j, g')" and "gw_redis g' = empty_redis"
  shows "example_ready g' \<and> sr_failure_count (the (live_server (gw_db g') ''s1'')) = n + 1"
proof -
  from dead_call_db[OF upstream_dead_example assms(4)] obtain err
    where d: "gw_db g' = record_connection_result (ge_world example_down AtConnection) ''s1'' False err (gw_db g)"
    by (auto simp: server_id_of_def example_call_def example_tool_def)
  have "db_ok (ge_world example_down AtConnection) QConnectionResult" by (simp add: example_down_def example_env_def example_world_def)
  from live_server_failed[OF this] have "live_server (gw_db g') ''s1'' = map_option (connection_failed_row err) (live_server (gw_db g) ''s1'')"
    by (simp add: d)
  moreover have "mcp_profiles (gw_db g') = mcp_profiles (gw_db g)" "entitlement (gw_db g') = entitlement (gw_db g)"
    "server_role_grant (gw_db g') = server_role_grant (gw_db g)" by (simp_all add: d record_connection_result_def)
  ultimately show ?thesis using assms(1-3,5)
    by (auto simp: example_ready_def failed_row_debug)
qed

text \<open>An upstream that answers every request with the same result.\<close>

definition example_result :: http_response where
  "example_result = \<lparr>rs_status = 200, rs_headers = [(''content-type'', ''application/json'')],
     rs_content = CHR 0x7B # [CHR 0x22] @ ''result'' @ [CHR 0x22] @ '':{}}''\<rparr>"

definition example_up :: gw_env where
  "example_up = example_env (\<lambda>_ _. Inr example_result)"

lemma example_result_exchange:
  "exchange_of_response example_result = \<lparr>ex_response = JObj [(''result'', JObj [])], ex_error = None, ex_challenge = None, ex_init_failed = False\<rparr>"
proof -
  have "json_loads (rs_content example_result) = Some (JObj [(''result'', JObj [])])" by code_simp
  moreover have "take MAX_UPSTREAM_BODY_BYTES (rs_content example_result) = rs_content example_result"
    by (simp add: example_result_def MAX_UPSTREAM_BODY_BYTES_def)
  moreover have "\<not> contains_sub ''text/event-stream'' ''application/json''" by code_simp
  ultimately show ?thesis
    by (simp add: exchange_of_response_def read_body_def Let_def) (simp add: example_result_def)
qed

lemma example_up_call:
  assumes "example_ready g"
  shows "\<exists>j g' q. invoke_tool example_up example_call g = (Inr j, g') \<and> jlookup j ''meta'' \<noteq> None
    \<and> gw_trace g' = gw_trace g @ [Sent (q init_payload), Sent (q initialized_payload), Sent (q (ca_request example_call)),
        Audited ''allow'' [] True, MarkedTaint]"
proof -
  have r: "gw_redis g = empty_redis" using assms by (simp add: example_ready_def)
  let ?q = "\<lambda>body. post_request example_ctx [''10.1.2.3''] body
      (if body = ca_request example_call then forward_base_headers example_ctx [] else handshake_headers example_ctx)"
  let ?ex = "\<lparr>ex_response = JObj [(''result'', JObj [])], ex_error = None, ex_challenge = None, ex_init_failed = False\<rparr>"
  have ne: "init_payload \<noteq> ca_request example_call" "initialized_payload \<noteq> ca_request example_call"
    by (simp_all add: init_payload_def initialized_payload_def example_call_def)
  define g1 where "g1 = g\<lparr>gw_sent := gw_sent g @ [?q init_payload, ?q initialized_payload, ?q (ca_request example_call)],
      gw_trace := gw_trace g @ [Sent (?q init_payload), Sent (?q initialized_payload), Sent (?q (ca_request example_call))]\<rparr>"
  have f: "forward example_up example_ctx [''10.1.2.3''] [] g = (?ex, g1)"
    by (simp add: forward_def get_or_create_session_def r redis_get_def open_session_def mcp_initialize_def post_def example_up_def
        example_env_def example_world_def Let_def forward_call_def with_session_def example_result_exchange ne g1_def)
      (simp add: example_result_def)
  define aa where "aa = (late_audit_args example_ctx ''dec_0'' (fst (audit_outcome ?ex)) (snd (audit_outcome ?ex)))
        \<lparr>aa_latency_ms := ge_latency_ms example_up, aa_tainted := cx_tainted example_ctx, aa_principal_id := None\<rparr>"
  have args: "aa_outcome aa = ''allow''" "aa_deny_reasons aa = []"
    by (simp_all add: aa_def late_audit_args_def gate_audit_args_def audit_outcome_def)
  obtain x g2 where a: "audit example_up aa g1 = (x, g2)" by fastforce
  have x: "x = Inr ''e1''"
    using a[unfolded example_up_def]
    by (rule example_audit_ok) (simp_all add: aa_def late_audit_args_def gate_audit_args_def audit_outcome_def str_tool_id_def example_tool_def)
  have screen: "fr_matched (screen_response (json_dumps (JObj []))) = False" by code_simp
  have g2: "gw_redis g2 = empty_redis" "gw_trace g2 = gw_trace g1 @ [Audited ''allow'' [] True]"
    using audit_facts(1,3)[OF a] r x args by (simp_all add: g1_def)
  have "\<exists>j g'. answer example_up example_ctx ''dec_0'' ?ex g1 = (Inr j, g') \<and> jlookup j ''meta'' \<noteq> None
      \<and> gw_trace g' = gw_trace g2 @ [MarkedTaint]"
    unfolding answer_def aa_def[symmetric] andthen_def a x
    using screen
    by (simp add: connection_health_def is_error_result_def jget_def record_result_def mark_session_def example_up_def example_env_def
        mark_tainted_for_principal_def mark_tainted_def pool_client_def g2 result_taints_session_def binary_integrity_def example_world_def
        screen_and_return_def jget_or_def add_meta_def update_conv')
  then obtain j g' where ans: "answer example_up example_ctx ''dec_0'' ?ex g1 = (Inr j, g')" "jlookup j ''meta'' \<noteq> None"
      "gw_trace g' = gw_trace g2 @ [MarkedTaint]" by blast
  have "invoke_tool example_up example_call g = (Inr j, g')"
    using example_reaches_upstream[OF assms] f ans(1) unfolding example_up_def by simp
  with ans(2,3) g2(2) show ?thesis by (intro exI[of _ j] exI[of _ g'] exI[of _ ?q]) (simp add: g1_def)
qed

text \<open>A server that is not registered: the call is refused by the entitlement gate.\<close>

definition example_unregistered :: gw where
  "example_unregistered = example_gw\<lparr>gw_db := (gw_db example_gw)\<lparr>server_registry := []\<rparr>\<rparr>"

lemma example_refused:
  "\<exists>g'. invoke_tool example_up example_call example_unregistered = (Inl (NotEntitledError ''s1'' ''server_not_approved''), g')"
proof -
  define c where "c = call.extend example_call (ctx.fields ''s1'' (JObj []) ''read'' None None None 0 [] None [] ''medium'')"
  have f: "ca_tool_record c = example_tool" "ca_client_id c = ''bob''" "cx_tool_server_id c = ''s1''"
    "ca_principal_id c = Some ''human:kc:bob''" "ca_principal_type c = Some ''human''"
    by (simp_all add: c_def call.extend_def ctx.fields_def example_call_def)
  have b: "build example_call = Inr c"
    by (simp add: build_def example_call_def example_tool_def jget_or_def text_of_def c_def)
  have none: "live_server (gw_db example_unregistered) ''s1'' = None" by (simp add: live_server_def example_unregistered_def)
  let ?a = "gate_audit_args c ''deny'' [''not_entitled:server_not_approved'']"
  obtain x g' where a: "audit example_up ?a example_unregistered = (x, g')" by fastforce
  have x: "x = Inr ''e1''"
    using a[unfolded example_up_def] by (rule example_audit_ok) (simp_all add: gate_audit_args_def f example_tool_def)
  have "gate_tool_status example_up c example_unregistered = (Inr c, example_unregistered)"
    "gate_maintenance example_up c example_unregistered = (Inr c, example_unregistered)"
    "gate_scan_freshness example_up c example_unregistered = (Inr c, example_unregistered)"
    by (simp_all add: gate_tool_status_def gate_maintenance_def gate_scan_freshness_def f none example_tool_def example_up_def example_env_def
        example_world_def)
  moreover have "gate_entitlement example_up c example_unregistered = (Inl (NotEntitledError ''s1'' ''server_not_approved''), g')"
    using a x by (simp add: gate_entitlement_def f enforce_tool_entitlement_def check_entitlement_def none example_tool_def
        audit_then_raise_def andthen_def)
  ultimately show ?thesis by (simp add: invoke_tool_def b GATES_def andthen_def)
qed

subsection \<open>Properties\<close>

text \<open>
  Property C1. Nothing leaves the gateway for a call that was not cleared. When the call fetches a credential,
  sends a request or marks a session, its tool is neither disabled nor quarantined nor deprecated, its server is not in
  maintenance for this caller, its server's last scan is recent where that is enforced, the principal is entitled to the server, the taint
  floor does not block it, OPA answered with an explicit allow for this caller and tool, and the SSRF guard
  accepted the upstream under the registered allowlist entry. All of this holds of the state in which the call started.
\<close>

theorem only_cleared_calls_leave:
  assumes "invoke_tool env ca g = (r, g')"
    and "a \<in> set (drop (length (gw_trace g)) (gw_trace g'))" and "\<not> is_audit a"
  shows "gates_clear env g ca \<and> url_checked env (gw_db g) (ca_tool_record ca)
    \<and> (\<exists>i d. in_client_id i = ca_client_id ca \<and> in_client_roles i = ca_client_roles ca \<and> in_tool_name i = t_name (ca_tool_record ca)
         \<and> in_tool_server_id i = Some (server_id_of (ca_tool_record ca))
         \<and> evaluate_policy (ge_opa env i) = Inr d \<and> dec_allow d)"
  using assms(1)
proof (cases rule: invoke_phases)
  case (stopped e)
  with assms(2,3) quiet_new show ?thesis by blast
next
  case (checked c0 c i g1)
  note f = same_call_fields[OF checked(2)] call_fields_of_build[OF checked(1)]
  from checked(5) obtain cutoff d where d: "evaluate_policy (ge_opa env (build_opa_input c cutoff)) = Inr d" "dec_allow d"
    by (auto simp: policy_allows_def)
  have "cx_tool_server_id c = server_id_of (ca_tool_record ca)" using checked(3) f by (simp add: linked_def)
  with d f have "\<exists>i d. in_client_id i = ca_client_id ca \<and> in_client_roles i = ca_client_roles ca \<and> in_tool_name i = t_name (ca_tool_record ca)
         \<and> in_tool_server_id i = Some (server_id_of (ca_tool_record ca)) \<and> evaluate_policy (ge_opa env i) = Inr d \<and> dec_allow d"
    by (intro exI[of _ "build_opa_input c cutoff"] exI[of _ d]) (simp add: build_opa_input_def)
  with checked(4,6) gates_clear_call[OF checked(1)] f show ?thesis by simp
qed

theorem only_cleared_calls_leave_witness:
  "gates_clear example_up example_gw example_call \<and> url_checked example_up (gw_db example_gw) example_tool"
proof -
  from example_up_call[OF example_gw_ready] obtain j g' q where run: "invoke_tool example_up example_call example_gw = (Inr j, g')"
    "gw_trace g' = gw_trace example_gw @ [Sent (q init_payload), Sent (q initialized_payload), Sent (q (ca_request example_call)),
        Audited ''allow'' [] True, MarkedTaint]" by blast
  have "MarkedTaint \<in> set (drop (length (gw_trace example_gw)) (gw_trace g'))" using run(2) by simp
  from only_cleared_calls_leave[OF run(1) this] show ?thesis by (simp add: example_call_def)
qed





text \<open>
  Property C5. The audit table follows the call. Whatever a call does, and however it ends, the rows it adds to \<open>audit_events\<close> are exactly
  its successful audit actions, in order, each with the authenticated client, the outcome and the reasons. No other stage
  writes or removes a row.
\<close>

theorem audit_table_follows_trace:
  assumes "invoke_tool env ca g = (r, g')" and "table_on env"
  shows "\<exists>as. gw_trace g' = gw_trace g @ as \<and> audit_table g' = audit_table g @ concat (map (logged (ca_client_id ca)) as)"
proof (cases "build ca")
  case (Inl e)
  with assms(1) show ?thesis by (auto simp: invoke_tool_def)
next
  case (Inr c)
  from assms(1) Inr have "andthen (run_gates env GATES c) (dispatch_call env) g = (r, g')" by (simp add: invoke_tool_def)
  then have "in_step (ca_client_id c) g g'"
  proof (cases rule: andthen_cases)
    case (stop e)
    with frameD[OF run_gates_in_step[OF assms(2)]] show ?thesis by blast
  next
    case (go c1 g1)
    from gates_pass[OF conjunct1[OF build_linked[OF Inr]] go(1)] have "ca_client_id c1 = ca_client_id c" by (simp add: same_call_fields)
    with frameD[OF run_gates_in_step[OF assms(2)] go(1)] frameD[OF dispatch_in_step[OF assms(2)] go(2)] show ?thesis
      by (auto intro: in_step_trans)
  qed
  with call_fields_of_build(2)[OF Inr] show ?thesis by (simp add: in_step_def)
qed

theorem audit_table_follows_trace_witness:
  "\<exists>r g'. invoke_tool example_up example_call example_gw = (r, g') \<and> audit_table g' = [(''bob'', Some ''allow'', ''[]'')]"
proof -
  from example_up_call[OF example_gw_ready] obtain j g' q where run: "invoke_tool example_up example_call example_gw = (Inr j, g')"
    "gw_trace g' = gw_trace example_gw @ [Sent (q init_payload), Sent (q initialized_payload), Sent (q (ca_request example_call)),
        Audited ''allow'' [] True, MarkedTaint]" by blast
  have "table_on example_up" by (simp add: table_on_def example_up_def example_env_def example_audit_def)
  from audit_table_follows_trace[OF run(1) this] obtain as where as: "gw_trace g' = gw_trace example_gw @ as"
    "audit_table g' = audit_table example_gw @ concat (map (logged ''bob'') as)" by (auto simp: example_call_def)
  have "json_dumps (jstrs []) = ''[]''" by code_simp
  moreover have "as = [Sent (q init_payload), Sent (q initialized_payload), Sent (q (ca_request example_call)), Audited ''allow'' [] True, MarkedTaint]"
    using as(1) run(2) by simp
  ultimately have "audit_table g' = [(''bob'', Some ''allow'', ''[]'')]" using as(2) by (simp add: example_gw_def)
  with run(1) show ?thesis by (intro exI conjI)
qed



text \<open>
  Property C6. Every audited refusal ends in its record: when the call is refused for a stale scan, a missing entitlement, the taint floor or
  by the policy, its last action is a deny record that was written, and it fetched no credential and sent nothing.
\<close>

theorem refusals_are_recorded:
  assumes "invoke_tool env ca g = (Inl e, g')" and "audited_refusal e"
  shows "(\<exists>as reasons. gw_trace g' = gw_trace g @ as @ [Audited ''deny'' reasons True] \<and> list_all is_audit as) \<and> gw_sent g' = gw_sent g"
proof -
  have rec: "deny_recorded g g'" by (rule records_refusalD[OF invoke_records assms])
  from assms(1) have "gw_sent g' = gw_sent g"
  proof (cases rule: invoke_phases)
    case (checked c0 c i g1)
    then show ?thesis using no_refusalD[OF deliver_no_refusal checked(9)] assms(2) by simp
  qed (simp add: quiet_def)
  with rec show ?thesis by (auto simp: deny_recorded_def)
qed

theorem refusals_are_recorded_witness:
  "\<exists>g' as reasons. invoke_tool example_up example_call example_unregistered = (Inl (NotEntitledError ''s1'' ''server_not_approved''), g')
     \<and> gw_trace g' = as @ [Audited ''deny'' reasons True] \<and> gw_sent g' = []"
proof -
  from example_refused obtain g' where
    run: "invoke_tool example_up example_call example_unregistered = (Inl (NotEntitledError ''s1'' ''server_not_approved''), g')" by blast
  have "audited_refusal (NotEntitledError ''s1'' ''server_not_approved'')" by simp
  from refusals_are_recorded[OF run this] run show ?thesis
    by (auto simp: example_unregistered_def example_gw_def)
qed

text \<open>
  Property C2. A result of an untrusted server bars later sensitive calls. When a call returned a result of a server that is not
  fully trusted, then within the time to live of the mark, and whatever calls of whatever clients happen in between, a call of
  the same client in enforce mode to a tool that requires integrity or injects a credential raises, fetches no credential and sends
  nothing.
\<close>

theorem untrusted_result_bars_sensitive_calls:
  assumes "invoke_tool env ca g = (Inr j, g1)" and "jlookup j ''meta'' \<noteq> None"
    and "TAINT_FLOOR_ENABLED (ge_settings env)" and "result_taints_session (fst (server_trust env g (ca_tool_record ca)))"
    and "invoke_tool env' ca' (run_calls cs g1) = (r, g')" and "ca_client_id ca' = ca_client_id ca"
    and "TAINT_FLOOR_ENABLED (ge_settings env')" and "TAINT_FLOOR_MODE (ge_settings env') = ''enforce''"
    and "1 \<le> required_integrity_of ca' (snd (server_trust env' (run_calls cs g1) (ca_tool_record ca')))"
    and "\<forall>v \<in> insert env (fst ` set cs). now (ge_world env' AtTaint) < now (ge_world v AtMark) + DEFAULT_TAINT_TTL_SECONDS"
  shows "isl r \<and> (\<forall>a \<in> set (drop (length (gw_trace (run_calls cs g1))) (gw_trace g')). is_audit a)"
proof -
  let ?t = "now (ge_world env' AtTaint)"
  have "taint_covered (gw_redis g1) (ca_client_id ca) ?t"
    using invoke_marks[OF assms(1-4)] assms(10) by blast
  moreover have "still_tainted (ca_client_id ca) ?t g1 (run_calls cs g1)"
    using assms(10) by (intro run_calls_still_tainted) force
  ultimately have "is_tainted_for_principal (ge_world env' AtTaint) (gw_redis (run_calls cs g1)) (Some (ca_client_id ca'))"
    using assms(6) by (simp add: still_tainted_def taint_bit.check_covered)
  with assms(7-9) have blocked: "\<not> gates_clear env' (run_calls cs g1) ca'"
    by (auto simp: gates_clear_def taint_clear_def Let_def)
  from assms(5) show ?thesis
  proof (cases rule: invoke_phases)
    case (stopped e)
    then show ?thesis using quiet_new by auto
  next
    case (checked c0 c i g2)
    with blocked gates_clear_call show ?thesis by blast
  qed
qed

theorem untrusted_result_bars_sensitive_calls_witness:
  "\<exists>j g1 r g'. invoke_tool example_up example_call example_gw = (Inr j, g1) \<and> invoke_tool example_up example_call g1 = (r, g') \<and> isl r"
proof -
  from example_up_call[OF example_gw_ready] obtain j g1 where run: "invoke_tool example_up example_call example_gw = (Inr j, g1)"
    "jlookup j ''meta'' \<noteq> None" by blast
  obtain r g' where second: "invoke_tool example_up example_call (run_calls [] g1) = (r, g')" by fastforce
  have floor: "TAINT_FLOOR_ENABLED (ge_settings example_up)" "TAINT_FLOOR_MODE (ge_settings example_up) = ''enforce''"
    by (simp_all add: example_up_def example_env_def)
  have tier: "result_taints_session (fst (server_trust example_up example_gw (ca_tool_record example_call)))"
    by (simp add: result_taints_session_def binary_integrity_def server_trust_def lookup_server_trust_def live_server_def example_gw_def
        example_row_def example_call_def example_tool_def server_id_of_def)
  have req: "1 \<le> required_integrity_of example_call d" for d
    by (simp add: required_integrity_of_def example_call_def example_tool_def effective_required_integrity_def)
  have "\<forall>v \<in> insert example_up (fst ` set []). now (ge_world example_up AtTaint) < now (ge_world v AtMark) + DEFAULT_TAINT_TTL_SECONDS"
    by (simp add: example_up_def example_env_def example_world_def DEFAULT_TAINT_TTL_SECONDS_def)
  from untrusted_result_bars_sensitive_calls[OF run floor(1) tier second refl floor req this] run(1) second show ?thesis by auto
qed

text \<open>
  Property C7. A server that keeps failing is taken out of service: after three answered calls in a row to a server whose upstream is
  dead, every call to it by a client who is neither its owner nor a maintainer is refused as in maintenance, with nothing sent and
  nothing changed.
\<close>

theorem failing_server_is_locked:
  assumes "dead_calls sid cs g" and "3 \<le> length cs" and "sid \<noteq> []"
    and "live_server (gw_db g) sid = Some row" and "0 \<le> sr_failure_count row"
    and "server_id_of (ca_tool_record ca) = sid" and "status_clear (ca_tool_record ca)" and "\<not> isl (build ca)"
    and "sr_owner_sub row \<noteq> Some (ca_client_id ca)" and "ca_client_id ca \<notin> set (sr_maintainers row)"
  shows "invoke_tool env ca (run_calls cs g) = (Inl (ServerInMaintenanceError sid), run_calls cs g)"
proof -
  from dead_calls_row[OF assms(1,3,4)] assms(2,5) obtain row' where row: "live_server (gw_db (run_calls cs g)) sid = Some row'"
    "sr_owner_sub row' = sr_owner_sub row" "sr_maintainers row' = sr_maintainers row" "sr_debug_mode row'"
    by (cases cs) auto
  from assms(8) obtain c where c: "build ca = Inr c" by (cases "build ca") auto
  note f = call_fields_of_build[OF c]
  have "cx_tool_server_id c = sid" using build_linked[OF c] f assms(6) by (simp add: linked_def)
  with row f assms(3,9,10) have "gate_maintenance env c (run_calls cs g) = (Inl (ServerInMaintenanceError sid), run_calls cs g)"
    by (auto simp: gate_maintenance_def)
  moreover have "gate_tool_status env c (run_calls cs g) = (Inr c, run_calls cs g)"
    using assms(7) f by (auto simp: gate_tool_status_def status_clear_def Let_def)
  ultimately show ?thesis by (simp add: invoke_tool_def c GATES_def andthen_def)
qed

theorem failing_server_is_locked_witness:
  "invoke_tool example_up example_call (run_calls [(example_down, example_call), (example_down, example_call), (example_down, example_call)] example_gw)
     = (Inl (ServerInMaintenanceError ''s1''),
        run_calls [(example_down, example_call), (example_down, example_call), (example_down, example_call)] example_gw)"
proof -
  have row: "live_server (gw_db example_gw) ''s1'' = Some example_row" by (simp add: live_server_def example_gw_def example_row_def)
  obtain j1 g1 where r1: "invoke_tool example_down example_call example_gw = (Inr j1, g1)" "gw_redis g1 = empty_redis"
    using example_down_call[OF example_gw_ready] by blast
  have n1: "example_ready g1" "sr_failure_count (the (live_server (gw_db g1) ''s1'')) = 1"
    using example_down_next[OF example_gw_ready _ _ r1, of 0] by (simp_all add: row example_row_def)
  obtain j2 g2 where r2: "invoke_tool example_down example_call g1 = (Inr j2, g2)" "gw_redis g2 = empty_redis"
    using example_down_call[OF n1(1)] by blast
  have n2: "example_ready g2" using example_down_next[OF n1 _ r2] by simp
  obtain j3 g3 where r3: "invoke_tool example_down example_call g2 = (Inr j3, g3)" using example_down_call[OF n2] by blast
  have "server_id_of (ca_tool_record example_call) = ''s1''" "status_clear (ca_tool_record example_call)" "\<not> isl (build example_call)"
    by (simp_all add: server_id_of_def status_clear_def build_def jget_or_def example_call_def example_tool_def)
  moreover have "dead_calls ''s1'' [(example_down, example_call), (example_down, example_call), (example_down, example_call)] example_gw"
    using r1(1) r2(1) r3 calculation(1) upstream_dead_example by (simp add: example_down_def example_env_def example_world_def)
  ultimately show ?thesis
    using row by (intro failing_server_is_locked[of "''s1''" _ example_gw example_row]) (simp_all add: example_row_def example_call_def)
qed

end
