(* ===== verification/JsonRoundTrip.thy ===== *)
theory JsonRoundTrip
  imports JsonParse
begin

section \<open>Reading back what was written\<close>

text \<open>
  \<open>json.loads(json.dumps(v))\<close> is \<open>v\<close>, with its keys in order where \<open>sort_keys\<close> was asked for: strings with
  every escape, integers, nested arrays and objects, whatever blanks follow the separators. Floats,
  whose text comes from the interpreter, and objects with a repeated key are left out.
\<close>

subsection \<open>Strings and numbers\<close>

lemma hex_char_digit:
  assumes "0 \<le> d" "d < 16"
  shows "is_hex (hex_char d)" "hex_val (hex_char d) = d"
  using assms by (auto simp: is_hex_def hex_val_def is_digit_def hex_char_def of_char_of)

lemma int_of_hex4:
  assumes "0 \<le> n" "n < 65536"
  shows "int_of_hex (hex4 n) = n"
proof -
  have val: "int_of_hex [hex_char a, hex_char b, hex_char c, hex_char d] = 4096 * a + 256 * b + 16 * c + d"
    if "0 \<le> a" "a < 16" "0 \<le> b" "b < 16" "0 \<le> c" "c < 16" "0 \<le> d" "d < 16" for a b c d
    using that by (simp add: int_of_hex_def hex_char_digit)
  show ?thesis unfolding hex4_def by (rule trans[OF val hex4_value[OF assms, symmetric]]) simp_all
qed

lemma hex4_hex: "list_all is_hex (hex4 n)"
  by (simp add: hex4_def hex_char_digit)

lemma unescape_short: "map_of short_escapes c = Some l \<Longrightarrow> unescape l = Some c"
  by (auto simp: short_escapes_def unescape_def split: if_splits)

lemma of_char_byte: "(of_char c :: int) < 256"
proof -
  have "(of_char c :: int) = of_char c mod 256" by simp
  moreover note pos_mod_bound[of "256::int" "of_char c"]
  ultimately show ?thesis by linarith
qed

lemma pstr_escape: "pstr (json_escape_char c @ x) = map_option (cons_fst c) (pstr x)"
proof (cases "map_of short_escapes c")
  case None
  note plain = short_escape_None[OF None]
  show ?thesis
  proof (cases "(of_char c :: int) < 32 \<or> 126 < (of_char c :: int)")
    case True
    obtain h1 h2 h3 h4 where h: "hex4 (of_char c) = [h1, h2, h3, h4]" unfolding hex4_def by blast
    then have "is_hex h1" "is_hex h2" "is_hex h3" "is_hex h4" using hex4_hex[of "of_char c"] by simp_all
    moreover have "int_of_hex [h1, h2, h3, h4] = of_char c" using int_of_hex4[of "of_char c"] of_char_range[of c] h by simp
    moreover have "json_escape_char c = CHR 0x5C # CHR ''u'' # [h1, h2, h3, h4]" using None True h by (simp add: json_escape_char_def)
    ultimately show ?thesis using of_char_byte[of c] by simp
  next
    case False
    with None plain show ?thesis by (simp add: json_escape_char_def)
  qed
next
  case (Some l)
  with unescape_short[OF Some] short_escape_letter[OF Some] show ?thesis by (simp add: json_escape_char_def)
qed

lemma pstr_chars: "pstr (concat (map json_escape_char s) @ CHR 0x22 # r) = Some (s, r)"
  by (induction s) (simp_all add: pstr_escape cons_fst_def)

lemma nat_digits_digits: "0 \<le> n \<Longrightarrow> list_all is_digit (nat_digits n)"
proof (induction n rule: nat_digits.induct)
  case (1 n)
  then show ?case by (cases "n < 10") (auto simp: nat_digits.simps[of n] is_digit_def of_char_of)
qed

lemma nat_digits_value: "0 \<le> n \<Longrightarrow> int_of_digits (nat_digits n) = n"
proof (induction n rule: nat_digits.induct)
  case (1 n)
  then show ?case by (cases "n < 10") (auto simp: nat_digits.simps[of n] int_of_digits_def digit_val_def of_char_of)
qed

lemma nat_digits_head:
  "0 \<le> n \<Longrightarrow> \<exists>c s. nat_digits n = c # s \<and> is_digit c \<and> (c = CHR ''0'' \<longrightarrow> s = [])"
proof (induction n rule: nat_digits.induct)
  case (1 n)
  show ?case
  proof (cases "n < 10")
    case True
    with 1 show ?thesis by (simp add: nat_digits.simps[of n] is_digit_def of_char_of)
  next
    case False
    then have pos: "0 < n div 10" by simp
    from 1(1)[OF False less_imp_le[OF pos]] obtain c s where c: "nat_digits (n div 10) = c # s" "is_digit c" "c = CHR ''0'' \<longrightarrow> s = []" by blast
    have "c \<noteq> CHR ''0''"
    proof
      assume "c = CHR ''0''"
      with c have "int_of_digits (nat_digits (n div 10)) = 0" by (simp add: int_of_digits_def digit_val_def)
      with nat_digits_value[of "n div 10"] pos show False by linarith
    qed
    with c False show ?thesis by (simp add: nat_digits.simps[of n])
  qed
qed

text \<open>A number ends where the text cannot continue it.\<close>

definition ends_number :: "string \<Rightarrow> bool" where
  "ends_number r = (case r of [] \<Rightarrow> True | c # _ \<Rightarrow> \<not> is_digit c \<and> c \<notin> {CHR ''.'', CHR ''e'', CHR ''E''})"

lemma take_digits_append: "list_all is_digit s \<Longrightarrow> ends_number r \<Longrightarrow> take_digits (s @ r) = (s, r)"
  by (cases r) (auto simp: take_digits_def ends_number_def list_all_iff takeWhile_append dropWhile_append)

lemma pint_int_text:
  assumes "ends_number r"
  shows "pint (int_text n @ r) = Some (int_text n, r)"
proof -
  have core: "(case nat_digits m @ r of [] \<Rightarrow> None
     | c # r' \<Rightarrow> if c = CHR ''0'' then Some (sign @ ''0'', r')
                 else if is_digit c then Some (sign @ fst (take_digits (nat_digits m @ r)), snd (take_digits (nat_digits m @ r))) else None)
    = Some (sign @ nat_digits m, r)" if "0 \<le> m" for m sign
    using nat_digits_head[OF that] take_digits_append[OF nat_digits_digits[OF that] assms] by auto
  show ?thesis
  proof (cases "n < 0")
    case True
    with core[of "- n" "''-''"] show ?thesis by (simp add: pint_def int_text_def)
  next
    case False
    then have "expect CHR ''-'' (nat_digits n @ r) = None" using nat_digits_head[of n] by (auto simp: is_digit_def)
    with False core[of n "[]"] show ?thesis by (simp add: pint_def int_text_def)
  qed
qed

lemma int_of_int_text: "int_of_text (int_text n) = n"
proof (cases "n < 0")
  case False
  then have "expect CHR ''-'' (nat_digits n) = None" using nat_digits_head[of n] by (auto simp: is_digit_def)
  with False show ?thesis by (simp add: int_of_text_def int_text_def nat_digits_value)
qed (simp add: int_of_text_def int_text_def nat_digits_value)

lemma no_fraction: "ends_number r \<Longrightarrow> pfrac r = ([], r)" "ends_number r \<Longrightarrow> pexp r = ([], r)"
  by (cases r; simp add: pfrac_def pexp_def ends_number_def)+

lemma pnum_int_text: "ends_number r \<Longrightarrow> pnum (int_text n @ r) = Some (JInt n, r)"
  by (simp add: pnum_def pint_int_text no_fraction int_of_int_text)

lemma int_text_head:
  obtains c s where "int_text n = c # s" "is_digit c" | c s where "int_text n = CHR ''-'' # c # s" "is_digit c"
  using nat_digits_head[of n] nat_digits_head[of "- n"] by (cases "n < 0") (auto simp: int_text_def)

lemma digit_no_constant:
  assumes "is_digit c"
  shows "find (\<lambda>kv. prefix (fst kv) (c # s)) json_constants = None"
    "find (\<lambda>kv. prefix (fst kv) (CHR ''-'' # c # s)) json_constants = None"
proof -
  have "c \<notin> {CHR ''n'', CHR ''t'', CHR ''f'', CHR ''N'', CHR ''I'', CHR ''-''}" using assms by (auto simp: is_digit_def)
  then show "find (\<lambda>kv. prefix (fst kv) (c # s)) json_constants = None"
    "find (\<lambda>kv. prefix (fst kv) (CHR ''-'' # c # s)) json_constants = None"
    by (auto simp: find_None_iff json_constants_def)
qed

lemma patom_int_text:
  assumes "ends_number r"
  shows "patom (int_text n @ r) = Some (JInt n, r)"
proof -
  have "find (\<lambda>kv. prefix (fst kv) (int_text n @ r)) json_constants = None"
    by (cases n rule: int_text_head) (simp_all add: digit_no_constant)
  then show ?thesis by (simp add: patom_def pnum_int_text[OF assms])
qed

lemma int_text_not_open: "hd (int_text n @ r) \<notin> {CHR 0x22, CHR ''['', CHR ''{''}"
proof -
  have "c \<notin> {CHR 0x22, CHR ''['', CHR ''{''}" if "is_digit c" for c using that by (auto simp: is_digit_def)
  then show ?thesis by (cases n rule: int_text_head) simp_all
qed

subsection \<open>Values\<close>

text \<open>The values that come back: no float, whose text is not this theory's, and no key twice.\<close>

fun plain_json :: "json \<Rightarrow> bool" where
  "plain_json (JFloat _) = False"
| "plain_json (JArr xs) = list_all plain_json xs"
| "plain_json (JObj kvs) = (distinct (map fst kvs) \<and> list_all (\<lambda>kv. plain_json (snd kv)) kvs)"
| "plain_json _ = True"

text \<open>What \<open>sort_keys\<close> does to the value.\<close>

fun sort_json :: "bool \<Rightarrow> json \<Rightarrow> json" where
  "sort_json sk (JArr xs) = JArr (map (sort_json sk) xs)"
| "sort_json sk (JObj kvs) =
     (let kvs' = map (\<lambda>kv. (fst kv, sort_json sk (snd kv))) kvs in JObj (if sk then sort_key fst kvs' else kvs'))"
| "sort_json sk j = j"

lemma insort_key_map: "(\<And>x. g (f x) = h x) \<Longrightarrow> insort_key g (f x) (map f xs) = map f (insort_key h x xs)"
  by (induction xs) simp_all

lemma sort_key_map: "(\<And>x. g (f x) = h x) \<Longrightarrow> sort_key g (map f xs) = map f (sort_key h xs)"
  by (induction xs) (simp_all add: insort_key_map)

definition in_key_order :: "bool \<Rightarrow> (string \<times> 'a) list \<Rightarrow> (string \<times> 'a) list" where
  "in_key_order sk kvs = (if sk then sort_key fst kvs else kvs)"

lemma in_key_order_map: "in_key_order sk (map (\<lambda>kv. (fst kv, f kv)) kvs) = map (\<lambda>kv. (fst kv, f kv)) (in_key_order sk kvs)"
  by (simp add: in_key_order_def sort_key_map)

lemma set_in_key_order [simp]: "set (in_key_order sk kvs) = set kvs"
  by (simp add: in_key_order_def)

lemma in_key_order_Nil [simp]: "in_key_order sk kvs = [] \<longleftrightarrow> kvs = []"
  by (metis set_empty set_in_key_order)

lemma distinct_in_key_order: "distinct (map fst kvs) \<Longrightarrow> distinct (map fst (in_key_order sk kvs))"
  by (simp add: in_key_order_def distinct_map)

lemma sort_json_obj: "sort_json sk (JObj kvs) = JObj (map (\<lambda>kv. (fst kv, sort_json sk (snd kv))) (in_key_order sk kvs))"
  using in_key_order_map[of sk "\<lambda>kv. sort_json sk (snd kv)" kvs] by (simp add: in_key_order_def Let_def)

lemma dumps_obj:
  "dumps sk isep ksep (JObj kvs) =
     ''{'' @ join isep (map (\<lambda>kv. json_string (fst kv) @ ksep @ dumps sk isep ksep (snd kv)) (in_key_order sk kvs)) @ ''}''"
  using in_key_order_map[of sk "\<lambda>kv. json_string (fst kv) @ ksep @ dumps sk isep ksep (snd kv)" kvs]
  by (simp add: in_key_order_def Let_def comp_def)

lemma update_new: "k \<notin> fst ` set d \<Longrightarrow> AList.update k v d = d @ [(k, v)]"
  by (induction d) auto

lemma dict_of_distinct:
  assumes "distinct (map fst kvs)"
  shows "dict_of kvs = kvs"
proof -
  have "foldl (\<lambda>d (k, v). AList.update k v d) acc kvs = acc @ kvs"
    if "distinct (map fst (acc @ kvs))" for acc
    using that
  proof (induction kvs arbitrary: acc)
    case (Cons kv kvs)
    have "AList.update (fst kv) (snd kv) acc = acc @ [kv]"
      using Cons.prems update_new[of "fst kv" acc "snd kv"] by simp
    with Cons.IH[of "acc @ [kv]"] Cons.prems show ?case by (simp add: case_prod_beta)
  qed simp
  from this[of "[]"] assms show ?thesis by (simp add: dict_of_def)
qed

subsection \<open>The round trip\<close>

text \<open>The separators: a comma or a colon, and blanks.\<close>

definition separator :: "char \<Rightarrow> string \<Rightarrow> bool" where
  "separator c sep \<longleftrightarrow> (\<exists>w. sep = c # w \<and> list_all is_ws w)"

lemma skip_ws_blanks: "list_all is_ws w \<Longrightarrow> skip_ws (w @ s) = skip_ws s"
  by (induction w) (simp_all add: skip_ws_def)

lemma skip_ws_Cons [simp]: "\<not> is_ws c \<Longrightarrow> skip_ws (c # s) = c # s"
  by (simp add: skip_ws_def)

lemma is_ws_simps [simp]: "\<not> is_ws CHR '',''" "\<not> is_ws CHR '':''" "\<not> is_ws CHR '']''" "\<not> is_ws CHR ''}''"
    "\<not> is_ws CHR 0x22" "\<not> is_ws CHR ''[''" "\<not> is_ws CHR ''{''"
  by (simp_all add: is_ws_def)

lemma dumps_head:
  assumes "plain_json j"
  shows "\<exists>c s. dumps sk isep ksep j = c # s \<and> \<not> is_ws c \<and> c \<noteq> CHR '']''"
proof (cases j)
  case (JInt n)
  have "\<not> is_ws c \<and> c \<noteq> CHR '']''" if "is_digit c" for c using that by (auto simp: is_digit_def is_ws_def)
  then show ?thesis unfolding JInt by (cases n rule: int_text_head) (simp_all add: is_ws_def)
qed (use assms in \<open>simp_all add: json_string_def is_ws_def Let_def\<close>)

definition reads_back :: "bool \<Rightarrow> string \<Rightarrow> string \<Rightarrow> json \<Rightarrow> bool" where
  "reads_back sk isep ksep j \<longleftrightarrow> (\<forall>r. ends_number r \<longrightarrow> reads pval (dumps sk isep ksep j @ r) (sort_json sk j) r)"

lemma reads_items:
  assumes "separator CHR '','' isep"
    and "xs \<noteq> []" and "\<And>x. x \<in> set xs \<Longrightarrow> plain_json x \<and> reads_back sk isep ksep x"
  shows "reads parr (join isep (map (dumps sk isep ksep) xs) @ CHR '']'' # r) (map (sort_json sk) xs) r"
  using assms(2,3)
proof (induction xs rule: induct_list012)
  case (2 x)
  have "reads pval (dumps sk isep ksep x @ CHR '']'' # r) (sort_json sk x) (CHR '']'' # r)"
    using 2 by (simp add: reads_back_def ends_number_def is_digit_def)
  then show ?case by (auto intro: reads_last)
next
  case (3 x y zs)
  obtain w where w: "isep = CHR '','' # w" "list_all is_ws w" using assms(1) by (auto simp: separator_def)
  let ?t = "join isep (map (dumps sk isep ksep) (y # zs)) @ CHR '']'' # r"
  have "reads pval (dumps sk isep ksep x @ isep @ ?t) (sort_json sk x) (isep @ ?t)"
    using 3(4) w by (simp add: reads_back_def ends_number_def is_digit_def)
  moreover have "skip_ws ?t = ?t"
    using dumps_head[of y sk isep ksep] 3(4)[of y] by (cases zs) (auto simp: skip_ws_def)
  then have "reads parr (skip_ws (w @ ?t)) (map (sort_json sk) (y # zs)) r"
    using 3(2,4) w by (simp add: skip_ws_blanks)
  moreover have "expect CHR '','' (skip_ws (isep @ ?t)) = Some (w @ ?t)" using w(1) by simp
  ultimately show ?case using reads_more[of "dumps sk isep ksep x @ isep @ ?t"] by simp
qed simp

lemma skip_ws_dumps: "plain_json j \<Longrightarrow> skip_ws (dumps sk isep ksep j @ r) = dumps sk isep ksep j @ r"
  using dumps_head[of j sk isep ksep] by auto

lemma reads_member:
  assumes "separator CHR '':'' ksep" and "plain_json v" and "reads_back sk isep ksep v" and "ends_number q"
  obtains s s2 s3 where "json_string k @ ksep @ dumps sk isep ksep v @ q = CHR 0x22 # s" "pstr s = Some (k, s2)"
    "expect CHR '':'' (skip_ws s2) = Some s3" "reads pval (skip_ws s3) (sort_json sk v) q"
proof -
  obtain w where w: "ksep = CHR '':'' # w" "list_all is_ws w" using assms(1) by (auto simp: separator_def)
  show ?thesis
  proof (rule that)
    show "json_string k @ ksep @ dumps sk isep ksep v @ q
        = CHR 0x22 # (concat (map json_escape_char k) @ CHR 0x22 # ksep @ dumps sk isep ksep v @ q)"
      by (simp add: json_string_def)
    show "pstr (concat (map json_escape_char k) @ CHR 0x22 # ksep @ dumps sk isep ksep v @ q)
        = Some (k, ksep @ dumps sk isep ksep v @ q)"
      by (rule pstr_chars)
    show "expect CHR '':'' (skip_ws (ksep @ dumps sk isep ksep v @ q)) = Some (w @ dumps sk isep ksep v @ q)"
      using w(1) by simp
    show "reads pval (skip_ws (w @ dumps sk isep ksep v @ q)) (sort_json sk v) q"
      using assms(2-4) w(2) by (simp add: skip_ws_blanks skip_ws_dumps reads_back_def)
  qed
qed

lemma reads_members:
  assumes "separator CHR '','' isep" and "separator CHR '':'' ksep"
    and "kvs \<noteq> []" and "\<And>kv. kv \<in> set kvs \<Longrightarrow> plain_json (snd kv) \<and> reads_back sk isep ksep (snd kv)"
  shows "reads pobj (join isep (map (\<lambda>kv. json_string (fst kv) @ ksep @ dumps sk isep ksep (snd kv)) kvs) @ CHR ''}'' # r)
           (map (\<lambda>kv. (fst kv, sort_json sk (snd kv))) kvs) r"
  using assms(3,4)
proof (induction kvs rule: induct_list012)
  case (2 kv)
  have e: "ends_number (CHR ''}'' # r)" by (simp add: ends_number_def is_digit_def)
  have "plain_json (snd kv)" "reads_back sk isep ksep (snd kv)" using 2 by simp_all
  from reads_member[OF assms(2) this e, of "fst kv"] show ?case
    by (rule, simp) (auto intro: reads_last_member)
next
  case (3 kv kv' zs)
  obtain w where w: "isep = CHR '','' # w" "list_all is_ws w" using assms(1) by (auto simp: separator_def)
  let ?m = "\<lambda>kv. json_string (fst kv) @ ksep @ dumps sk isep ksep (snd kv)"
  let ?t = "join isep (map ?m (kv' # zs)) @ CHR ''}'' # r"
  have e: "ends_number (isep @ ?t)" using w(1) by (simp add: ends_number_def is_digit_def)
  have "plain_json (snd kv)" "reads_back sk isep ksep (snd kv)" using 3(4) by simp_all
  from reads_member[OF assms(2) this e, of "fst kv"] obtain s s2 s3
    where s': "json_string (fst kv) @ ksep @ dumps sk isep ksep (snd kv) @ isep @ ?t = CHR 0x22 # s" and m: "pstr s = Some (fst kv, s2)"
      "expect CHR '':'' (skip_ws s2) = Some s3" "reads pval (skip_ws s3) (sort_json sk (snd kv)) (isep @ ?t)"
    by blast
  from s' have s: "?m kv @ isep @ ?t = CHR 0x22 # s" by simp
  have "skip_ws ?t = ?t" by (cases zs) (simp_all add: json_string_def)
  then have "reads pobj (skip_ws (w @ ?t)) (map (\<lambda>kv. (fst kv, sort_json sk (snd kv))) (kv' # zs)) r"
    using 3(2,4) w by (simp add: skip_ws_blanks)
  moreover have "expect CHR '','' (skip_ws (isep @ ?t)) = Some (w @ ?t)" using w(1) by simp
  ultimately have "reads pobj (?m kv @ isep @ ?t) ((fst kv, sort_json sk (snd kv)) # map (\<lambda>kv. (fst kv, sort_json sk (snd kv))) (kv' # zs)) r"
    unfolding s using reads_more_members[OF m] by blast
  then show ?case by simp
qed simp

lemma dumps_reads_back:
  assumes "separator CHR '','' isep" and "separator CHR '':'' ksep"
  shows "plain_json j \<Longrightarrow> reads_back sk isep ksep j"
proof (induction j)
  case JNull
  have "patom (''null'' @ r) = Some (JNull, r)" for r by (simp add: patom_def json_constants_def)
  then show ?case by (auto simp: reads_back_def intro!: reads_atom)
next
  case (JBool b)
  have "patom ((if b then ''true'' else ''false'') @ r) = Some (JBool b, r)" for r by (simp add: patom_def json_constants_def)
  then show ?case by (auto simp: reads_back_def intro!: reads_atom)
next
  case (JInt n)
  then show ?case using patom_int_text int_text_not_open by (auto simp: reads_back_def intro!: reads_atom)
next
  case (JStr t)
  show ?case using pstr_chars by (auto simp: reads_back_def json_string_def intro!: reads_string)
next
  case (JArr xs)
  show ?case
  proof (cases "xs = []")
    case True
    then show ?thesis by (auto simp: reads_back_def intro: reads_empty_array)
  next
    case False
    have items: "plain_json x \<and> reads_back sk isep ksep x" if "x \<in> set xs" for x
      using JArr that by (simp add: list_all_iff)
    have "reads pval (dumps sk isep ksep (JArr xs) @ r) (sort_json sk (JArr xs)) r" for r
    proof -
      let ?t = "join isep (map (dumps sk isep ksep) xs) @ CHR '']'' # r"
      obtain x ys where xs: "xs = x # ys" using False by (cases xs) auto
      have "skip_ws ?t = ?t \<and> expect CHR '']'' ?t = None"
        using dumps_head[of x sk isep ksep] items[of x] xs by (cases ys) auto
      with reads_items[OF assms(1) False items, where r = r] show ?thesis using reads_array[of ?t] by simp
    qed
    then show ?thesis by (simp add: reads_back_def)
  qed
next
  case (JObj kvs)
  show ?case
  proof (cases "kvs = []")
    case True
    then show ?thesis by (auto simp: reads_back_def intro: reads_empty_object)
  next
    case False
    let ?kvs = "in_key_order sk kvs"
    have members: "plain_json (snd kv) \<and> reads_back sk isep ksep (snd kv)" if "kv \<in> set ?kvs" for kv
      using JObj that by (cases kv) (auto simp: list_all_iff)
    have ne: "?kvs \<noteq> []" using False by simp
    have d: "dict_of (map (\<lambda>kv. (fst kv, sort_json sk (snd kv))) ?kvs) = map (\<lambda>kv. (fst kv, sort_json sk (snd kv))) ?kvs"
      using JObj.prems by (intro dict_of_distinct) (simp add: comp_def distinct_in_key_order)
    have "reads pval (dumps sk isep ksep (JObj kvs) @ r) (sort_json sk (JObj kvs)) r" for r
    proof -
      let ?t = "join isep (map (\<lambda>kv. json_string (fst kv) @ ksep @ dumps sk isep ksep (snd kv)) ?kvs) @ CHR ''}'' # r"
      obtain x ys where xs: "?kvs = x # ys" using ne by (cases ?kvs) auto
      have t: "skip_ws ?t = ?t" "expect CHR ''}'' ?t = None"
        unfolding xs by (cases ys; simp add: json_string_def)+
      have "reads pval (CHR ''{'' # ?t) (JObj (dict_of (map (\<lambda>kv. (fst kv, sort_json sk (snd kv))) ?kvs))) r"
        by (rule reads_object; unfold t) (rule reads_members[OF assms ne members], simp_all)
      then show ?thesis unfolding dumps_obj sort_json_obj d by simp
    qed
    then show ?thesis by (simp add: reads_back_def)
  qed
qed simp

lemma json_loads_reads:
  assumes "reads pval (skip_ws s) v r" and "skip_ws r = []"
  shows "json_loads s = Some v"
  using readsD[OF assms(1), of "Suc (length s)"] length_skip_ws[of s] assms(2) by (simp add: json_loads_def)

theorem json_loads_dumps:
  assumes "plain_json j" and "separator CHR '','' isep" and "separator CHR '':'' ksep"
  shows "json_loads (dumps sk isep ksep j) = Some (sort_json sk j)"
proof (rule json_loads_reads)
  have "ends_number []" by (simp add: ends_number_def)
  with dumps_reads_back[OF assms(2,3,1), of sk] have "reads pval (dumps sk isep ksep j @ []) (sort_json sk j) []"
    unfolding reads_back_def by blast
  with skip_ws_dumps[OF assms(1), of sk isep ksep "[]"] show "reads pval (skip_ws (dumps sk isep ksep j)) (sort_json sk j) []"
    by simp
qed (simp add: skip_ws_def)

end
