(* ===== verification/Consent.thy ===== *)
theory Consent
  imports JsonRoundTrip Sha256 Store
begin

section \<open>Consent tokens\<close>

text \<open>
  \<^verbatim>\<open>proxy/app/services/consent.py\<close>: the tokens an owner mints to consent to a server's approval or to a mode
  change, the enrollment attestation of the OAuth flow, and the table that makes a consent single-use;
  and \<^verbatim>\<open>proxy/app/core/redis_atomic.py\<close>, the Redis counterpart of that table.

  A token is the JSON of its payload, a dot, and the payload's HMAC. Verification splits at the last dot,
  compares the signature, parses the payload and checks its expiry and its binding. Each raise of the source
  is a value of \<open>consent_error\<close>; \<open>Uncaught\<close> holds what is not a \<open>ConsentTokenError\<close> there.
\<close>

datatype consent_error =
    ConsentTokenError string
  | ConsentTokenExpiredError string
  | ConsentTokenAlreadyConsumedError string
  | ConsentTokenMismatchError string
  | Uncaught exn

text \<open>
  The fields hold what the token's JSON holds: the dataclass does not check types.
\<close>

record ConsentPayload =
  cp_server_id :: json
  cp_old_mode :: json
  cp_new_mode :: json
  cp_owner_sub :: json
  cp_jti :: json
  cp_iat :: json
  cp_exp :: json
  cp_old_cred_ref :: json
  cp_new_cred_ref :: json

text \<open>
  What one call reads from outside: \<open>PROXY_SECRET_KEY\<close>, \<open>secrets.token_hex(16)\<close>, \<open>int(time.time())\<close>, and how a JSON
  float compares with an integer, which the interpreter's floats decide.
\<close>

record consent_env =
  ce_key :: string
  ce_jti :: string
  ce_now :: int
  ce_float_le :: "string \<Rightarrow> int \<Rightarrow> bool"

subsection \<open>Issuing\<close>

definition sorted_json :: "json \<Rightarrow> string" where
  "sorted_json j = dumps True '', '' '': '' j"

definition token_signature :: "consent_env \<Rightarrow> string \<Rightarrow> string" where
  "token_signature env payload_json = hmac_sha256 (utf8 (ce_key env)) (utf8 payload_json)"

definition sign_payload :: "consent_env \<Rightarrow> json \<Rightarrow> string" where
  "sign_payload env payload = (let payload_json = sorted_json payload in payload_json @ ''.'' @ token_signature env payload_json)"

definition consent_payload :: "consent_env \<Rightarrow> string \<Rightarrow> string \<Rightarrow> string \<Rightarrow> string \<Rightarrow> string option \<Rightarrow> string option \<Rightarrow> int \<Rightarrow> json" where
  "consent_payload env server_id old_mode new_mode owner_sub old_cred_ref new_cred_ref ttl_seconds = JObj (
     [(''server_id'', JStr server_id), (''old_mode'', JStr old_mode), (''new_mode'', JStr new_mode),
      (''owner_sub'', JStr owner_sub), (''jti'', JStr (ce_jti env)), (''iat'', JInt (ce_now env)),
      (''exp'', JInt (ce_now env + ttl_seconds))]
     @ (if str_true old_cred_ref then [(''old_cred_ref'', JStr (the old_cred_ref))] else [])
     @ (if str_true new_cred_ref then [(''new_cred_ref'', JStr (the new_cred_ref))] else []))"

definition issue_consent_token ::
  "consent_env \<Rightarrow> string \<Rightarrow> string \<Rightarrow> string \<Rightarrow> string \<Rightarrow> string option \<Rightarrow> string option \<Rightarrow> int \<Rightarrow> string \<times> string" where
  "issue_consent_token env server_id old_mode new_mode owner_sub old_cred_ref new_cred_ref ttl_seconds =
     (sign_payload env (consent_payload env server_id old_mode new_mode owner_sub old_cred_ref new_cred_ref ttl_seconds), ce_jti env)"

definition APPROVE_OLD_MODE :: string where
  "APPROVE_OLD_MODE = ''__approve_pending__''"

definition APPROVE_NEW_MODE :: string where
  "APPROVE_NEW_MODE = ''__approve_approved__''"

definition issue_approve_consent_token :: "consent_env \<Rightarrow> string \<Rightarrow> string \<Rightarrow> int \<Rightarrow> string \<times> string" where
  "issue_approve_consent_token env server_id owner_sub ttl_seconds =
     issue_consent_token env server_id APPROVE_OLD_MODE APPROVE_NEW_MODE owner_sub None None ttl_seconds"

subsection \<open>Verifying\<close>

text \<open>\<open>token.rsplit(".", 1)\<close> into two parts.\<close>

definition split_token :: "string \<Rightarrow> (string \<times> string) option" where
  "split_token token = (case rpartition_on CHR ''.'' token of (p, found, s) \<Rightarrow> if found then Some (p, s) else None)"

text \<open>
  The common beginning of both verifications: split, compare the signature (\<open>compare_digest\<close> raises
  on text that is not ASCII), parse; \<open>payload.get\<close> then needs a dictionary.
\<close>

definition open_token :: "consent_env \<Rightarrow> string \<Rightarrow> string \<Rightarrow> string \<Rightarrow> consent_error + json" where
  "open_token env malformed invalid token =
     (case split_token token of
        None \<Rightarrow> Inl (ConsentTokenError malformed)
      | Some (payload_json, sig) \<Rightarrow>
          if \<not> is_ascii sig then Inl (Uncaught (TypeError ''comparing strings with non-ASCII characters is not supported''))
          else if sig \<noteq> token_signature env payload_json then Inl (ConsentTokenMismatchError invalid)
          else (case json_loads payload_json of
                  None \<Rightarrow> Inl (Uncaught (ValueError ''JSONDecodeError''))
                | Some payload \<Rightarrow>
                    if is_obj payload then Inr payload else Inl (Uncaught (AttributeError ''get''))))"

text \<open>\<open>payload.get("exp", 0) <= now\<close>.\<close>

definition expired :: "consent_env \<Rightarrow> json \<Rightarrow> exn + bool" where
  "expired env payload =
     (case jlookup payload ''exp'' of
        None \<Rightarrow> Inr (0 \<le> ce_now env)
      | Some (JInt n) \<Rightarrow> Inr (n \<le> ce_now env)
      | Some (JBool b) \<Rightarrow> Inr ((if b then 1 else 0) \<le> ce_now env)
      | Some (JFloat s) \<Rightarrow> Inr (ce_float_le env s (ce_now env))
      | Some _ \<Rightarrow> Inl (TypeError ''<=''))"

text \<open>An optional expectation: \<open>expected is not None and payload.get(k) != expected\<close>.\<close>

definition unexpected :: "json \<Rightarrow> string \<Rightarrow> string option \<Rightarrow> bool" where
  "unexpected payload k expected = (case expected of None \<Rightarrow> False | Some e \<Rightarrow> jget payload k \<noteq> JStr e)"

definition payload_fields :: "json \<Rightarrow> ConsentPayload" where
  "payload_fields p = \<lparr>cp_server_id = jget p ''server_id'', cp_old_mode = jget p ''old_mode'', cp_new_mode = jget p ''new_mode'',
     cp_owner_sub = jget p ''owner_sub'', cp_jti = jget p ''jti'', cp_iat = jget p ''iat'', cp_exp = jget p ''exp'',
     cp_old_cred_ref = jget p ''old_cred_ref'', cp_new_cred_ref = jget p ''new_cred_ref''\<rparr>"

definition check_binding ::
  "json \<Rightarrow> string \<Rightarrow> string \<Rightarrow> string \<Rightarrow> string option \<Rightarrow> string option \<Rightarrow> string option \<Rightarrow> consent_error + ConsentPayload" where
  "check_binding payload expected_server_id expected_new_mode expected_owner_sub expected_old_mode expected_old_cred_ref expected_new_cred_ref =
     (if jget payload ''server_id'' \<noteq> JStr expected_server_id then Inl (ConsentTokenMismatchError ''Token server_id mismatch'')
      else if jget payload ''new_mode'' \<noteq> JStr expected_new_mode then Inl (ConsentTokenMismatchError ''Token new_mode mismatch'')
      else if jget payload ''owner_sub'' \<noteq> JStr expected_owner_sub then Inl (ConsentTokenMismatchError ''Token owner_sub mismatch'')
      else if unexpected payload ''old_mode'' expected_old_mode then Inl (ConsentTokenMismatchError ''Token old_mode mismatch'')
      else if unexpected payload ''old_cred_ref'' expected_old_cred_ref then Inl (ConsentTokenMismatchError ''Token old_cred_ref mismatch'')
      else if unexpected payload ''new_cred_ref'' expected_new_cred_ref then Inl (ConsentTokenMismatchError ''Token new_cred_ref mismatch'')
      else Inr (payload_fields payload))"

definition verify_consent_token ::
  "consent_env \<Rightarrow> string \<Rightarrow> string \<Rightarrow> string \<Rightarrow> string \<Rightarrow> string option \<Rightarrow> string option \<Rightarrow> string option \<Rightarrow> consent_error + ConsentPayload" where
  "verify_consent_token env token expected_server_id expected_new_mode expected_owner_sub expected_old_mode expected_old_cred_ref expected_new_cred_ref =
     (case open_token env ''Malformed consent token'' ''Consent token signature invalid'' token of
        Inl e \<Rightarrow> Inl e
      | Inr payload \<Rightarrow>
          (case expired env payload of
             Inl e \<Rightarrow> Inl (Uncaught e)
           | Inr True \<Rightarrow> Inl (ConsentTokenExpiredError ''Consent token has expired'')
           | Inr False \<Rightarrow> check_binding payload expected_server_id expected_new_mode expected_owner_sub
               expected_old_mode expected_old_cred_ref expected_new_cred_ref))"

definition verify_approve_consent_token :: "consent_env \<Rightarrow> string \<Rightarrow> string \<Rightarrow> string \<Rightarrow> consent_error + ConsentPayload" where
  "verify_approve_consent_token env token expected_server_id expected_owner_sub =
     verify_consent_token env token expected_server_id APPROVE_NEW_MODE expected_owner_sub (Some APPROVE_OLD_MODE) None None"

subsection \<open>Enrollment attestations\<close>

record EnrollmentConsentPayload =
  ep_client_id :: json
  ep_service :: json
  ep_scopes_hash :: json
  ep_jti :: json
  ep_iat :: json
  ep_exp :: json

definition canonical_scopes :: "string list \<Rightarrow> string" where
  "canonical_scopes scopes = join '' '' (sort_key id (map lower (filter (\<lambda>s. s \<noteq> []) scopes)))"

definition scopes_hash :: "string list \<Rightarrow> string" where
  "scopes_hash scopes = sha256 (utf8 (canonical_scopes scopes))"

definition enrollment_payload :: "consent_env \<Rightarrow> string \<Rightarrow> string \<Rightarrow> string list \<Rightarrow> int \<Rightarrow> json" where
  "enrollment_payload env client_id service scopes ttl_seconds = JObj
     [(''type'', JStr ''enrollment_consent''), (''client_id'', JStr client_id), (''service'', JStr service),
      (''scopes_hash'', JStr (scopes_hash scopes)), (''jti'', JStr (ce_jti env)), (''iat'', JInt (ce_now env)),
      (''exp'', JInt (ce_now env + ttl_seconds))]"

definition issue_enrollment_consent_token :: "consent_env \<Rightarrow> string \<Rightarrow> string \<Rightarrow> string list \<Rightarrow> int \<Rightarrow> string \<times> string" where
  "issue_enrollment_consent_token env client_id service scopes ttl_seconds =
     (sign_payload env (enrollment_payload env client_id service scopes ttl_seconds), ce_jti env)"

text \<open>\<open>payload[k]\<close> for each field in turn; a missing key is a \<open>KeyError\<close>.\<close>

definition enrollment_keys :: "string list" where
  "enrollment_keys = [''client_id'', ''service'', ''scopes_hash'', ''jti'', ''iat'', ''exp'']"

definition verify_enrollment_consent_token :: "consent_env \<Rightarrow> string \<Rightarrow> consent_error + EnrollmentConsentPayload" where
  "verify_enrollment_consent_token env token =
     (case open_token env ''Malformed enrollment consent token'' ''Enrollment consent token signature invalid'' token of
        Inl e \<Rightarrow> Inl e
      | Inr p \<Rightarrow>
          (case expired env p of
             Inl e \<Rightarrow> Inl (Uncaught e)
           | Inr True \<Rightarrow> Inl (ConsentTokenExpiredError ''Enrollment consent token has expired'')
           | Inr False \<Rightarrow>
               if jget p ''type'' \<noteq> JStr ''enrollment_consent''
               then Inl (ConsentTokenMismatchError ''Token type mismatch: expected enrollment_consent'')
               else if \<not> list_all (\<lambda>k. jlookup p k \<noteq> None) enrollment_keys then Inl (Uncaught (KeyError []))
               else Inr \<lparr>ep_client_id = jget p ''client_id'', ep_service = jget p ''service'', ep_scopes_hash = jget p ''scopes_hash'',
                          ep_jti = jget p ''jti'', ep_iat = jget p ''iat'', ep_exp = jget p ''exp''\<rparr>))"

subsection \<open>The consent table\<close>

record consent_row =
  cr_jti :: string
  cr_server_id :: string
  cr_old_mode :: string
  cr_new_mode :: string
  cr_old_cred_ref :: "string option"
  cr_new_cred_ref :: "string option"
  cr_owner_sub :: string
  cr_payload_hash :: string
  cr_expires_at :: rat
  cr_consumed_at :: "rat option"

text \<open>
  \<open>INSERT ... ON CONFLICT (jti) DO NOTHING\<close>, then the commit; \<open>ok\<close> is off where the database fails, and \<open>server_id\<close>
  references a row of \<open>server_registry\<close>. A new row has no \<open>consumed_at\<close>.
\<close>

definition persist_consent_token :: "bool \<Rightarrow> (string \<Rightarrow> bool) \<Rightarrow> consent_row \<Rightarrow> consent_row list \<Rightarrow> (exn + unit) \<times> consent_row list" where
  "persist_consent_token ok has_server row rows =
     (if \<not> ok then (Inl (RuntimeError ''database''), rows)
      else if cr_jti row \<in> set (map cr_jti rows) then (Inr (), rows)
      else if \<not> has_server (cr_server_id row) then (Inl (RuntimeError ''foreign key''), rows)
      else (Inr (), rows @ [row\<lparr>cr_consumed_at := None\<rparr>]))"

text \<open>\<open>UPDATE ... SET consumed_at = now WHERE jti = :jti AND consumed_at IS NULL\<close>; the row count decides.\<close>

definition mark_consumed :: "rat \<Rightarrow> string \<Rightarrow> consent_row \<Rightarrow> consent_row" where
  "mark_consumed t jti r = (if cr_jti r = jti \<and> cr_consumed_at r = None then r\<lparr>cr_consumed_at := Some t\<rparr> else r)"

definition consume_consent_token :: "bool \<Rightarrow> rat \<Rightarrow> string \<Rightarrow> consent_row list \<Rightarrow> (exn + bool) \<times> consent_row list" where
  "consume_consent_token ok t jti rows =
     (if \<not> ok then (Inl (RuntimeError ''database''), rows)
      else (Inr (\<exists>r \<in> set rows. cr_jti r = jti \<and> cr_consumed_at r = None),
            map (mark_consumed t jti) rows))"

text \<open>\<open>get_and_delete\<close>: \<open>GETDEL\<close>, or the script where the client has no \<open>getdel\<close>, which reads an empty value as missing.\<close>

definition get_and_delete :: "bool \<Rightarrow> bool \<Rightarrow> rat \<Rightarrow> string \<Rightarrow> redis \<Rightarrow> (exn + cval option) \<times> redis" where
  "get_and_delete ok has_getdel t key r =
     (if \<not> ok then (Inl (RuntimeError ''redis''), r)
      else (Inr (case redis_get r t key of
                   Some (CText []) \<Rightarrow> if has_getdel then Some (CText []) else None
                 | v \<Rightarrow> v),
            redis_delete r key))"

subsection \<open>Signed payloads are read back\<close>

lemma rpartition_last:
  assumes "c \<notin> set t"
  shows "rpartition_on c (s @ c # t) = (s, True, t)"
proof -
  have "takeWhile (\<lambda>x. x \<noteq> c) (rev t @ c # rev s) = rev t" "dropWhile (\<lambda>x. x \<noteq> c) (rev t @ c # rev s) = c # rev s"
    using assms by (simp_all add: takeWhile_append dropWhile_append)
  then show ?thesis by (simp add: rpartition_on_def)
qed

lemma token_signature_facts: "CHR ''.'' \<notin> set (token_signature env t)" "is_ascii (token_signature env t)"
  using hmac_sha256_hex[of "utf8 (ce_key env)" "utf8 t"] is_hex_facts
  by (auto simp: token_signature_def is_ascii_def list_all_iff)

lemma open_signed:
  assumes "ce_key env' = ce_key env" and "plain_json p" and "is_obj p"
  shows "open_token env' m i (sign_payload env p) = Inr (sort_json True p)"
proof -
  have "separator CHR '','' '', ''" "separator CHR '':'' '': ''" by (simp_all add: separator_def is_ws_def)
  then have "json_loads (sorted_json p) = Some (sort_json True p)"
    unfolding sorted_json_def by (rule json_loads_dumps[OF assms(2)])
  moreover have "is_obj (sort_json True p)" using assms(3) by (cases p) (simp_all add: Let_def)
  moreover have "token_signature env' t = token_signature env t" for t using assms(1) by (simp add: token_signature_def)
  ultimately show ?thesis
    by (simp add: open_token_def split_token_def sign_payload_def Let_def rpartition_last token_signature_facts)
qed

lemma map_of_in_key_order: "distinct (map fst kvs) \<Longrightarrow> map_of (in_key_order sk kvs) = map_of kvs"
  by (rule map_of_eqI) (auto simp: distinct_in_key_order intro: map_of_is_SomeI elim: map_of_SomeD)

lemma jlookup_sort:
  assumes "distinct (map fst kvs)"
  shows "jlookup (sort_json sk (JObj kvs)) k = map_option (sort_json sk) (jlookup (JObj kvs) k)"
proof -
  have "map_of (map (\<lambda>kv. (fst kv, f (snd kv))) xs) k = map_option f (map_of xs k)" for f :: "json \<Rightarrow> json" and xs
    by (induction xs) auto
  with map_of_in_key_order[OF assms, of sk] show ?thesis unfolding sort_json_obj by simp
qed

lemma jget_sort:
  assumes "distinct (map fst kvs)"
  shows "jget (sort_json sk (JObj kvs)) k = sort_json sk (jget (JObj kvs) k)"
  unfolding jget_def jlookup_sort[OF assms] by (simp split: option.split)

lemma consent_payload_plain:
  "plain_json (consent_payload env sid old_mode new_mode owner oc nc ttl)" "is_obj (consent_payload env sid old_mode new_mode owner oc nc ttl)"
  by (simp_all add: consent_payload_def)

lemma consent_payload_get:
  "jget (consent_payload env sid old_mode new_mode owner oc nc ttl) k =
     (if k = ''server_id'' then JStr sid else if k = ''old_mode'' then JStr old_mode else if k = ''new_mode'' then JStr new_mode
      else if k = ''owner_sub'' then JStr owner else if k = ''jti'' then JStr (ce_jti env) else if k = ''iat'' then JInt (ce_now env)
      else if k = ''exp'' then JInt (ce_now env + ttl)
      else if k = ''old_cred_ref'' then (if str_true oc then JStr (the oc) else JNull)
      else if k = ''new_cred_ref'' then (if str_true nc then JStr (the nc) else JNull) else JNull)"
  by (simp add: consent_payload_def jget_def)

lemma consent_payload_sorted:
  "jget (sort_json True (consent_payload env sid old_mode new_mode owner oc nc ttl)) k
   = jget (consent_payload env sid old_mode new_mode owner oc nc ttl) k"
  "jlookup (sort_json True (consent_payload env sid old_mode new_mode owner oc nc ttl)) ''exp'' = Some (JInt (ce_now env + ttl))"
proof -
  obtain kvs where kvs: "consent_payload env sid old_mode new_mode owner oc nc ttl = JObj kvs" "distinct (map fst kvs)"
    by (simp add: consent_payload_def)
  have "sort_json True (jget (JObj kvs) k) = jget (JObj kvs) k"
    using consent_payload_get[of env sid old_mode new_mode owner oc nc ttl k] unfolding kvs(1) by simp
  then show "jget (sort_json True (consent_payload env sid old_mode new_mode owner oc nc ttl)) k
      = jget (consent_payload env sid old_mode new_mode owner oc nc ttl) k"
    unfolding kvs(1) jget_sort[OF kvs(2)] .
  have "map_of kvs ''exp'' = Some (JInt (ce_now env + ttl))"
    using kvs(1) by (simp add: consent_payload_def split: if_splits) auto
  then show "jlookup (sort_json True (consent_payload env sid old_mode new_mode owner oc nc ttl)) ''exp'' = Some (JInt (ce_now env + ttl))"
    unfolding kvs(1) jlookup_sort[OF kvs(2)] by simp
qed

text \<open>What an optional credential reference becomes in the token: the empty string is no reference.\<close>

definition ref_json :: "string option \<Rightarrow> json" where
  "ref_json r = (if str_true r then JStr (the r) else JNull)"

text \<open>
  Property C19. Issuing and verifying a consent token are inverse, and a token consents to one transition only. Verified
  under the same key, an issued token gives back its payload exactly when its time has not run out and the server, the
  target mode and the owner are the expected ones, as are the old mode and the credential references where the caller names
  them; otherwise the error is the first of these that fails, in the order of the code.
\<close>

theorem issued_consent_exact:
  assumes "ce_key env' = ce_key env"
  shows "verify_consent_token env' (fst (issue_consent_token env sid old_mode new_mode owner oc nc ttl)) sid' new_mode' owner' eold eoc enc =
    (if ce_now env + ttl \<le> ce_now env' then Inl (ConsentTokenExpiredError ''Consent token has expired'')
     else if sid \<noteq> sid' then Inl (ConsentTokenMismatchError ''Token server_id mismatch'')
     else if new_mode \<noteq> new_mode' then Inl (ConsentTokenMismatchError ''Token new_mode mismatch'')
     else if owner \<noteq> owner' then Inl (ConsentTokenMismatchError ''Token owner_sub mismatch'')
     else if eold \<notin> {None, Some old_mode} then Inl (ConsentTokenMismatchError ''Token old_mode mismatch'')
     else if eoc \<noteq> None \<and> ref_json oc \<noteq> JStr (the eoc) then Inl (ConsentTokenMismatchError ''Token old_cred_ref mismatch'')
     else if enc \<noteq> None \<and> ref_json nc \<noteq> JStr (the enc) then Inl (ConsentTokenMismatchError ''Token new_cred_ref mismatch'')
     else Inr \<lparr>cp_server_id = JStr sid, cp_old_mode = JStr old_mode, cp_new_mode = JStr new_mode, cp_owner_sub = JStr owner,
                cp_jti = JStr (ce_jti env), cp_iat = JInt (ce_now env), cp_exp = JInt (ce_now env + ttl),
                cp_old_cred_ref = ref_json oc, cp_new_cred_ref = ref_json nc\<rparr>)"
proof -
  let ?p = "consent_payload env sid old_mode new_mode owner oc nc ttl"
  have "expired env' (sort_json True ?p) = Inr (ce_now env + ttl \<le> ce_now env')"
    by (simp add: expired_def consent_payload_sorted)
  moreover have "payload_fields (sort_json True ?p) = payload_fields ?p"
    by (simp add: payload_fields_def consent_payload_sorted)
  ultimately show ?thesis
    by (cases eold; cases eoc; cases enc)
      (auto simp: verify_consent_token_def issue_consent_token_def open_signed[OF assms consent_payload_plain] check_binding_def
        unexpected_def consent_payload_sorted consent_payload_get payload_fields_def ref_json_def split: bool.split)
qed

abbreviation consent_example_env :: "int \<Rightarrow> consent_env" where
  "consent_example_env t \<equiv> \<lparr>ce_key = ''secret'', ce_jti = ''5f'', ce_now = t, ce_float_le = (\<lambda>_ _. False)\<rparr>"

theorem issued_consent_exact_witness:
  "verify_consent_token (consent_example_env 200)
      (fst (issue_consent_token (consent_example_env 100) ''srv.1'' ''none'' ''user'' ''alice'' (Some []) None 600)) ''srv.1'' ''user'' ''alice'' (Some ''none'') None None
    = Inr \<lparr>cp_server_id = JStr ''srv.1'', cp_old_mode = JStr ''none'', cp_new_mode = JStr ''user'', cp_owner_sub = JStr ''alice'',
           cp_jti = JStr ''5f'', cp_iat = JInt 100, cp_exp = JInt 700, cp_old_cred_ref = JNull, cp_new_cred_ref = JNull\<rparr>
   \<and> verify_consent_token (consent_example_env 200)
      (fst (issue_consent_token (consent_example_env 100) ''srv.1'' ''none'' ''user'' ''alice'' None None 600)) ''srv.2'' ''user'' ''alice'' None None None
    = Inl (ConsentTokenMismatchError ''Token server_id mismatch'')"
  using issued_consent_exact[of "consent_example_env 200" "consent_example_env 100"] by (simp add: ref_json_def)

lemma enrollment_payload_facts:
  "plain_json (enrollment_payload env c svc scopes ttl)" "is_obj (enrollment_payload env c svc scopes ttl)"
  "jlookup (sort_json True (enrollment_payload env c svc scopes ttl)) k = jlookup (enrollment_payload env c svc scopes ttl) k"
proof -
  obtain kvs where kvs: "enrollment_payload env c svc scopes ttl = JObj kvs" "distinct (map fst kvs)"
    by (simp add: enrollment_payload_def)
  have "map_option (sort_json True) (jlookup (JObj kvs) k) = jlookup (JObj kvs) k"
    using kvs(1) by (auto simp: enrollment_payload_def)
  then show "jlookup (sort_json True (enrollment_payload env c svc scopes ttl)) k = jlookup (enrollment_payload env c svc scopes ttl) k"
    unfolding kvs(1) jlookup_sort[OF kvs(2)] .
qed (simp_all add: enrollment_payload_def)

text \<open>
  Property C21. The two kinds of token do not stand in for each other: under one key, an enrollment attestation never verifies as
  consent to a server change, and a consent token never verifies as an enrollment attestation, whatever either is compared with
  and at whatever time; while an attestation does verify as one, until it expires, with the hash of its scopes.
\<close>

theorem token_kinds_do_not_mix:
  assumes "ce_key env' = ce_key env"
  shows "isl (verify_consent_token env' (fst (issue_enrollment_consent_token env c svc scopes ttl)) sid new_mode owner eold eoc enc)
    \<and> isl (verify_enrollment_consent_token env' (fst (issue_consent_token env sid old_mode new_mode owner oc nc ttl)))
    \<and> verify_enrollment_consent_token env' (fst (issue_enrollment_consent_token env c svc scopes ttl)) =
      (if ce_now env + ttl \<le> ce_now env' then Inl (ConsentTokenExpiredError ''Enrollment consent token has expired'')
       else Inr \<lparr>ep_client_id = JStr c, ep_service = JStr svc, ep_scopes_hash = JStr (scopes_hash scopes),
                  ep_jti = JStr (ce_jti env), ep_iat = JInt (ce_now env), ep_exp = JInt (ce_now env + ttl)\<rparr>)"
    (is "?mix \<and> ?mix' \<and> ?same")
proof (intro conjI)
  let ?p = "enrollment_payload env c svc scopes ttl"
  note opened = open_signed[OF assms enrollment_payload_facts(1,2)] open_signed[OF assms consent_payload_plain]
  have e: "jlookup ?p ''exp'' = Some (JInt (ce_now env + ttl))" "jlookup ?p ''server_id'' = None"
    "jlookup ?p ''type'' = Some (JStr ''enrollment_consent'')" "jlookup ?p ''client_id'' = Some (JStr c)"
    "jlookup ?p ''service'' = Some (JStr svc)" "jlookup ?p ''scopes_hash'' = Some (JStr (scopes_hash scopes))"
    "jlookup ?p ''jti'' = Some (JStr (ce_jti env))" "jlookup ?p ''iat'' = Some (JInt (ce_now env))"
    by (simp_all add: enrollment_payload_def)
  show ?mix
    by (simp add: verify_consent_token_def issue_enrollment_consent_token_def opened expired_def enrollment_payload_facts(3) e
      check_binding_def jget_def split: bool.split)
  show ?mix'
    by (simp add: verify_enrollment_consent_token_def issue_consent_token_def opened expired_def consent_payload_sorted
      consent_payload_get split: bool.split)
  show ?same
    by (simp add: verify_enrollment_consent_token_def issue_enrollment_consent_token_def opened expired_def jget_def
      enrollment_payload_facts(3) enrollment_keys_def e split: bool.split)
qed

theorem token_kinds_do_not_mix_witness:
  "isl (verify_consent_token (consent_example_env 200) (fst (issue_enrollment_consent_token (consent_example_env 100) ''c'' ''m365'' [''a''] 300))
      ''srv'' ''user'' ''alice'' None None None)
   \<and> isl (verify_enrollment_consent_token (consent_example_env 200)
      (fst (issue_consent_token (consent_example_env 100) ''srv'' ''none'' ''user'' ''alice'' None None 300)))"
  using token_kinds_do_not_mix[of "consent_example_env 200" "consent_example_env 100" "''c''" "''m365''" "[''a'']" 300] by simp

subsection \<open>Single use\<close>

text \<open>A run of operations, each with an answer.\<close>

fun run_steps :: "('op \<Rightarrow> 's \<Rightarrow> 'r \<times> 's) \<Rightarrow> 'op list \<Rightarrow> 's \<Rightarrow> 'r list \<times> 's" where
  "run_steps step [] s = ([], s)"
| "run_steps step (x # xs) s = (let (r, s1) = step x s; (rs, s2) = run_steps step xs s1 in (r # rs, s2))"

text \<open>
  A store of single-use keys: a step may take a key, which makes it spent, and a spent key stays spent and is not taken again by
  any operation that does not create it anew.
\<close>

locale single_use =
  fixes step :: "'op \<Rightarrow> 's \<Rightarrow> 'k option \<times> 's"
    and spent :: "'s \<Rightarrow> 'k \<Rightarrow> bool"
    and creates :: "'op \<Rightarrow> 'k \<Rightarrow> bool"
  assumes taken_spent: "step x s = (Some k, s') \<Longrightarrow> spent s' k"
    and stays_spent: "spent s k \<Longrightarrow> \<not> creates x k \<Longrightarrow> step x s = (r, s') \<Longrightarrow> spent s' k \<and> r \<noteq> Some k"
begin

lemma spent_not_taken:
  "spent s k \<Longrightarrow> list_all (\<lambda>x. \<not> creates x k) xs \<Longrightarrow> count_list (fst (run_steps step xs s)) (Some k) = 0"
proof (induction xs arbitrary: s)
  case (Cons x xs)
  obtain r s1 where s1: "step x s = (r, s1)" by fastforce
  with Cons.prems stays_spent[of s k x] have "spent s1 k" "r \<noteq> Some k" by simp_all
  with Cons s1 show ?case by (simp add: case_prod_beta)
qed simp

lemma taken_once:
  "list_all (\<lambda>x. \<not> creates x k) xs \<Longrightarrow> count_list (fst (run_steps step xs s)) (Some k) \<le> 1"
proof (induction xs arbitrary: s)
  case (Cons x xs)
  obtain r s1 where s1: "step x s = (r, s1)" by fastforce
  show ?case
  proof (cases "r = Some k")
    case True
    with taken_spent s1 have "spent s1 k" by blast
    with spent_not_taken[of s1 k xs] Cons.prems True s1 show ?thesis by (simp add: case_prod_beta)
  next
    case False
    with Cons s1 show ?thesis by (simp add: case_prod_beta)
  qed
qed simp

end

text \<open>The operations on the consent table, with whether the database works and the referenced server exists.\<close>

datatype consent_op =
    Persist bool bool consent_row
  | Consume bool rat string

fun consent_step :: "consent_op \<Rightarrow> consent_row list \<Rightarrow> string option \<times> consent_row list" where
  "consent_step (Persist ok has_server row) rows = (None, snd (persist_consent_token ok (\<lambda>_. has_server) row rows))"
| "consent_step (Consume ok t jti) rows =
     (let (r, rows') = consume_consent_token ok t jti rows in (if r = Inr True then Some jti else None, rows'))"

definition jti_used :: "consent_row list \<Rightarrow> string \<Rightarrow> bool" where
  "jti_used rows jti \<longleftrightarrow> jti \<in> set (map cr_jti rows) \<and> (\<forall>r \<in> set rows. cr_jti r = jti \<longrightarrow> cr_consumed_at r \<noteq> None)"

lemma mark_consumed_simps [simp]:
  "cr_jti (mark_consumed t jti r) = cr_jti r"
  "cr_consumed_at (mark_consumed t jti r) = (if cr_jti r = jti \<and> cr_consumed_at r = None then Some t else cr_consumed_at r)"
  by (simp_all add: mark_consumed_def)

lemma jti_used_mark: "jti_used (map (mark_consumed t jti) rows) k \<longleftrightarrow> k \<in> cr_jti ` set rows \<and> (k = jti \<or> jti_used rows k)"
  by (auto simp: jti_used_def comp_def)

lemma consume_used:
  assumes "consume_consent_token ok t jti rows = (r, rows')"
  shows "r = Inr True \<Longrightarrow> jti_used rows' jti" and "jti_used rows k \<Longrightarrow> jti_used rows' k \<and> (jti = k \<longrightarrow> r \<noteq> Inr True)"
  using assms by (auto simp: consume_consent_token_def jti_used_mark split: if_splits) (auto simp: jti_used_def)

interpretation consents: single_use consent_step jti_used "\<lambda>_ _. False"
proof
  fix x s k s' assume "consent_step x s = (Some k, s')"
  then show "jti_used s' k"
    by (cases x) (auto simp: Let_def case_prod_beta intro: consume_used(1)[OF prod.collapse[symmetric]] split: if_splits)
next
  fix s k x r s' assume "jti_used s k" and "consent_step x s = (r, s')"
  then show "jti_used s' k \<and> r \<noteq> Some k"
  proof (cases x)
    case (Persist ok has_server row)
    with \<open>jti_used s k\<close> \<open>consent_step x s = (r, s')\<close> show ?thesis
      by (auto simp: jti_used_def persist_consent_token_def split: if_splits)
  next
    case (Consume ok t jti)
    with \<open>jti_used s k\<close> \<open>consent_step x s = (r, s')\<close> show ?thesis
      using consume_used(2)[OF prod.collapse[symmetric], of s k ok t jti] by (auto simp: case_prod_beta Let_def split: if_splits)
  qed
qed

definition jti_fresh :: "consent_row list \<Rightarrow> string \<Rightarrow> bool" where
  "jti_fresh rows jti \<longleftrightarrow> (\<exists>r \<in> set rows. cr_jti r = jti \<and> cr_consumed_at r = None)"

lemma jti_fresh_mark: "jti_fresh (map (mark_consumed t jti) rows) k \<longleftrightarrow> jti_fresh rows k \<and> k \<noteq> jti"
  by (auto simp: jti_fresh_def)

lemma consume_exact: "consume_consent_token True t jti rows = (Inr (jti_fresh rows jti), map (mark_consumed t jti) rows)"
  by (simp add: consume_consent_token_def jti_fresh_def)

lemma fresh_step:
  assumes "jti_fresh rows jti"
  shows "(\<exists>t. x = Consume True t jti) \<and> fst (consent_step x rows) = Some jti \<and> jti_used (snd (consent_step x rows)) jti
    \<or> (\<nexists>t. x = Consume True t jti) \<and> fst (consent_step x rows) \<noteq> Some jti \<and> jti_fresh (snd (consent_step x rows)) jti"
proof (cases x)
  case (Persist ok has_server row)
  with assms show ?thesis by (auto simp: persist_consent_token_def jti_fresh_def)
next
  case (Consume ok t k)
  with assms consume_used(1)[of True t jti rows] show ?thesis
    by (cases ok) (auto simp: consume_exact jti_fresh_mark consume_consent_token_def[of False] Let_def)
qed

lemma fresh_taken:
  "jti_fresh rows jti \<Longrightarrow>
     count_list (fst (run_steps consent_step ops rows)) (Some jti) = (if \<exists>t. Consume True t jti \<in> set ops then 1 else 0)"
proof (induction ops arbitrary: rows)
  case (Cons x ops)
  obtain r rows' where x: "consent_step x rows = (r, rows')" by fastforce
  from fresh_step[OF Cons.prems, of x] show ?case
  proof
    assume "(\<exists>t. x = Consume True t jti) \<and> fst (consent_step x rows) = Some jti \<and> jti_used (snd (consent_step x rows)) jti"
    with x consents.spent_not_taken[of rows' jti ops] show ?thesis by (auto simp: case_prod_beta list_all_iff)
  next
    assume "(\<nexists>t. x = Consume True t jti) \<and> fst (consent_step x rows) \<noteq> Some jti \<and> jti_fresh (snd (consent_step x rows)) jti"
    with x Cons.IH[of rows'] show ?thesis by (auto simp: case_prod_beta)
  qed
qed simp

definition granted :: "string \<Rightarrow> consent_op list \<Rightarrow> bool" where
  "granted jti ops \<longleftrightarrow> (\<exists>xs row ys t zs. ops = xs @ Persist True True row # ys @ Consume True t jti # zs \<and> cr_jti row = jti)"

lemma granted_Cons:
  "granted jti (x # ops) \<longleftrightarrow>
     (\<exists>row t. x = Persist True True row \<and> cr_jti row = jti \<and> Consume True t jti \<in> set ops) \<or> granted jti ops" (is "?l \<longleftrightarrow> ?r")
proof
  assume ?l
  then obtain xs row ys t zs where d: "x # ops = xs @ Persist True True row # ys @ Consume True t jti # zs" "cr_jti row = jti"
    unfolding granted_def by blast
  show ?r
  proof (cases xs)
    case (Cons y xs')
    with d have "ops = xs' @ Persist True True row # ys @ Consume True t jti # zs" by simp
    with d(2) show ?thesis unfolding granted_def by blast
  qed (use d in auto)
next
  assume ?r
  then show ?l
  proof
    assume "\<exists>row t. x = Persist True True row \<and> cr_jti row = jti \<and> Consume True t jti \<in> set ops"
    then show ?l unfolding granted_def by (metis append_Nil in_set_conv_decomp)
  next
    assume "granted jti ops"
    then show ?l unfolding granted_def by (metis append_Cons)
  qed
qed

lemma absent_taken:
  "jti \<notin> cr_jti ` set rows \<Longrightarrow>
     count_list (fst (run_steps consent_step ops rows)) (Some jti) = (if granted jti ops then 1 else 0)"
proof (induction ops arbitrary: rows)
  case (Cons x ops)
  obtain r rows' where x: "consent_step x rows = (r, rows')" by fastforce
  show ?case
  proof (cases "\<exists>row. x = Persist True True row \<and> cr_jti row = jti")
    case True
    with x Cons.prems have "jti_fresh rows' jti" "r = None" by (auto simp: persist_consent_token_def jti_fresh_def)
    moreover have "granted jti ops \<Longrightarrow> \<exists>t. Consume True t jti \<in> set ops" unfolding granted_def by auto
    ultimately show ?thesis using True fresh_taken[of rows' jti ops] x by (auto simp: granted_Cons case_prod_beta)
  next
    case False
    with x Cons.prems have "jti \<notin> cr_jti ` set rows'" "r \<noteq> Some jti"
      by (cases x; auto simp: persist_consent_token_def consume_consent_token_def Let_def split: if_splits)+
    with False Cons.IH[of rows'] x show ?thesis by (auto simp: granted_Cons case_prod_beta)
  qed
qed (simp add: granted_def)

text \<open>
  Property C20. A consent is used at most once, and once exactly when it should be: starting from an empty table and whatever
  calls follow, of any owners and tokens, in any order and with any database failures, consuming an identifier succeeds at most
  one time. It does succeed one time exactly when a working insert of that identifier for an existing server comes before a
  working attempt to consume it. Inserting it again after its use does not revive it.
\<close>

theorem consent_single_use:
  "count_list (fst (run_steps consent_step ops [])) (Some jti) =
     (if \<exists>xs row ys t zs. ops = xs @ Persist True True row # ys @ Consume True t jti # zs \<and> cr_jti row = jti then 1 else 0)"
  using absent_taken[of jti "[]" ops] by (simp add: granted_def)

text \<open>The operations on Redis keys: \<open>SETEX\<close> of a key and \<open>get_and_delete\<close>.\<close>

datatype take_op =
    Put rat string rat cval
  | Take bool bool rat string

fun take_step :: "take_op \<Rightarrow> redis \<Rightarrow> string option \<times> redis" where
  "take_step (Put t k ttl v) r = (None, redis_setex r t k ttl v)"
| "take_step (Take ok has_getdel t k) r =
     (let (x, r') = get_and_delete ok has_getdel t k r in (case x of Inr (Some _) \<Rightarrow> Some k | _ \<Rightarrow> None, r'))"

fun puts :: "take_op \<Rightarrow> string \<Rightarrow> bool" where
  "puts (Put _ k' _ _) k = (k' = k)"
| "puts (Take _ _ _ _) k = False"

interpretation redis_keys: single_use take_step "\<lambda>r k. r_kv r k = None" puts
proof
  fix x r k r' assume "take_step x r = (Some k, r')"
  then show "r_kv r' k = None"
    by (cases x) (auto simp: get_and_delete_def redis_delete_def Let_def split: if_splits sum.splits option.splits)
next
  fix r k x y r' assume "r_kv r k = None" and "\<not> puts x k" and "take_step x r = (y, r')"
  then show "r_kv r' k = None \<and> y \<noteq> Some k"
    by (cases x) (auto simp: get_and_delete_def redis_delete_def redis_setex_def redis_get_def Let_def
        split: if_splits sum.splits option.splits cval.splits list.splits)
qed

text \<open>A key set once is taken at most once, whoever asks and when.\<close>

lemma enrollment_key_single_use:
  "list_all (\<lambda>x. \<not> puts x k) ops \<Longrightarrow> count_list (fst (run_steps take_step ops r)) (Some k) \<le> 1"
  by (rule redis_keys.taken_once)

end
