(* ===== verification/Compliance.thy ===== *)
theory Compliance
  imports AuditLog
begin

section \<open>The compliance checker\<close>

text \<open>
  \<^verbatim>\<open>observability/compliance-checker/checker.py\<close>: the verifier of the audit rows, the daily check
  and the nightly archival. PostgreSQL and MinIO are state with a fault bit per call; the random
  sample of the daily check is an argument.
\<close>

subsection \<open>Patterns and verification\<close>

definition compliance_db_connection :: rx where
  "compliance_db_connection = seqs
     [alts [ilit ''postgres'', ilit ''mysql'', ilit ''mongodb'', ilit ''redis''],
      lit ''://'', plus (Cls (\<lambda>c. c \<noteq> CHR '':'')), lit '':'', plus (Cls (\<lambda>c. c \<noteq> CHR ''@'')), lit ''@'']"

definition COMPLIANCE_PATTERNS :: "(string \<times> rx) list" where
  "COMPLIANCE_PATTERNS =
     [(''aws_access_key'', aws_access_key), (''aws_secret_key'', aws_secret_key), (''github_token'', github_token),
      (''private_key'', private_key), (''url_password'', url_password_rx), (''jwt_token'', jwt_token),
      (''db_connection_string'', compliance_db_connection), (''email_address'', email_address),
      (''ip_address'', ip_address_rx), (''api_key'', api_key_rx)]"

definition check_event_for_violations :: "json \<Rightarrow> string list" where
  "check_event_for_violations event =
     (let event_str = json_dumps event in map fst (filter (\<lambda>cp. search (snd cp) event_str) COMPLIANCE_PATTERNS))"

definition upper_char :: "char \<Rightarrow> char" where
  "upper_char c = (if is_lower c then char_of (of_char c - 32 :: int) else c)"

text \<open>\<open>os.environ\<close> is a map from names to values.\<close>

definition get_hmac_key :: "(string \<Rightarrow> string option) \<Rightarrow> json \<Rightarrow> string option" where
  "get_hmac_key environ key_id =
     (case key_id of
        JStr k \<Rightarrow> if k = ''default'' \<or> k = [] then environ ''AUDIT_LOG_HMAC_KEY''
                   else environ (''AUDIT_LOG_HMAC_KEY__'' @ map upper_char k)
      | _ \<Rightarrow> environ ''AUDIT_LOG_HMAC_KEY'')"

datatype integrity = HashOk | HashBad | LegacyRow

definition verdict :: "bool \<Rightarrow> integrity" where
  "verdict b = (if b then HashOk else HashBad)"

definition verify_hash_integrity :: "(string \<Rightarrow> string option) \<Rightarrow> json \<Rightarrow> integrity" where
  "verify_hash_integrity environ event =
     (if (\<forall>k \<in> set [''event_type'', ''timestamp'', ''platform_version'', ''original_outcome'']. jget event k = JNull) then LegacyRow
      else if jget event ''timestamp'' = JNull then LegacyRow
      else
        let stored_hash = jget event ''sha256_hash'' in
        if \<not> truthy stored_hash then HashBad
        else
          let canonical = canonical_audit_json event;
              computed_plain = JStr (sha256 canonical);
              hmac_sig = jget event ''hmac_signature''
          in
          if truthy hmac_sig then
            (case get_hmac_key environ (case jlookup event ''hmac_key_id'' of None \<Rightarrow> JStr ''default'' | Some k \<Rightarrow> k) of
               None \<Rightarrow> verdict (computed_plain = stored_hash)
             | Some hmac_key \<Rightarrow>
                 if JStr (hmac_sha256 hmac_key canonical) \<noteq> hmac_sig then HashBad
                 else verdict (computed_plain = stored_hash))
          else verdict (computed_plain = stored_hash))"

text \<open>A row as the query of the daily check selects it; \<open>event_ts_iso AS timestamp\<close>.\<close>

definition row_event :: "(rat \<Rightarrow> string) \<Rightarrow> audit_row \<Rightarrow> json" where
  "row_event ts_text r = JObj
     [(''event_id'', JStr (ar_event_id r)), (''client_id'', JStr (ar_client_id r)), (''tool_name'', JStr (ar_tool_name r)),
      (''tool_id'', jopt JStr (ar_tool_id r)), (''outcome'', JStr (ar_outcome r)),
      (''sha256_hash'', JStr (ar_sha256_hash r)), (''request_id'', JStr (ar_request_id r)),
      (''created_at'', JStr (ts_text (ar_created_at r))), (''event_type'', jopt JStr (ar_event_type r)),
      (''timestamp'', jopt JStr (ar_event_ts_iso r)), (''platform_version'', jopt JStr (ar_platform_version r)),
      (''original_outcome'', jopt JStr (ar_original_outcome r)), (''hmac_signature'', jopt JStr (ar_hmac_signature r)),
      (''hmac_key_id'', jopt JStr (ar_hmac_key_id r))]"

subsection \<open>State of the checker\<close>

record bucket_object =
  bo_bucket :: string
  bo_key :: string
  bo_body :: string
  bo_lock_mode :: string

text \<open>A row of \<open>audit_events_archive\<close>: the columns of the first schema.\<close>

record archive_row =
  ac_event_id :: string
  ac_event_ts :: rat
  ac_client_id :: string
  ac_tool_name :: string
  ac_tool_id :: "string option"
  ac_outcome :: string
  ac_latency_ms :: int
  ac_sha256_hash :: string
  ac_anomaly_score :: rat
  ac_opa_reasons :: string
  ac_request_id :: string
  ac_source_ip :: "string option"
  ac_created_at :: rat

record compliance_report =
  cr_report_id :: string
  cr_status :: string
  cr_categories_failed :: int
  cr_category_results :: "(string \<times> int) list"
  cr_events_checked :: int
  cr_hash_mismatches :: int
  cr_unverifiable_legacy :: int

record checker_state =
  ck_audit_events :: "audit_row list"
  ck_archive :: "archive_row list"
  ck_objects :: "bucket_object list"
  ck_reports :: "compliance_report list"
  ck_alerts :: "(string \<times> int) list"   \<comment> \<open>report and number of failed categories\<close>
  ck_stdout :: "json list"

record checker_env =
  ce_now :: rat
  ce_id :: string   \<comment> \<open>the fresh \<open>uuid4\<close>\<close>
  ce_iso :: "rat \<Rightarrow> string"
  ce_ts_text :: "rat \<Rightarrow> string"   \<comment> \<open>\<open>str\<close> of a timestamp\<close>
  ce_date_path :: "rat \<Rightarrow> string"
  ce_float_repr :: "rat \<Rightarrow> string"
  ce_environ :: "string \<Rightarrow> string option"
  ce_lock_mode :: string   \<comment> \<open>\<open>MINIO_OBJECT_LOCK_MODE\<close>\<close>
  ce_connect_ok :: bool
  ce_fetch_ok :: bool
  ce_put_ok :: bool
  ce_insert_ok :: "string \<Rightarrow> bool"   \<comment> \<open>by event\<close>
  ce_delete_ok :: "string list \<Rightarrow> bool"   \<comment> \<open>by chunk\<close>
  ce_report_ok :: bool
  ce_post_ok :: bool
  ce_object_lock :: "string + json"   \<comment> \<open>the object-lock answer of MinIO\<close>

subsection \<open>Object lock\<close>

record object_lock =
  ol_enabled :: bool
  ol_mode :: json
  ol_retention_days :: json
  ol_error :: "string option"

text \<open>The answer of \<open>get_bucket_object_lock_configuration\<close>: an error, or a dictionary.\<close>

definition get_dict :: "json \<Rightarrow> string \<Rightarrow> json" where
  "get_dict d k = (case jlookup d k of None \<Rightarrow> JObj [] | Some v \<Rightarrow> v)"

definition verify_object_lock_startup :: "string + json \<Rightarrow> object_lock" where
  "verify_object_lock_startup answer =
     (case answer of
        Inl err \<Rightarrow> \<lparr>ol_enabled = False, ol_mode = JNull, ol_retention_days = JNull, ol_error = Some err\<rparr>
      | Inr resp \<Rightarrow>
          let config = get_dict resp ''ObjectLockConfiguration'';
              rule = get_dict (get_dict config ''Rule'') ''DefaultRetention''
          in \<lparr>ol_enabled = (jget config ''ObjectLockEnabled'' = JStr ''Enabled''), ol_mode = jget rule ''Mode'',
              ol_retention_days = jget rule ''Days'', ol_error = None\<rparr>)"

subsection \<open>Archival\<close>

definition AUDIT_ARCHIVAL_CUTOFF_SECONDS :: rat where
  "AUDIT_ARCHIVAL_CUTOFF_SECONDS = 90 * 86400"

definition archive_of_row :: "audit_row \<Rightarrow> archive_row" where
  "archive_of_row r = \<lparr>ac_event_id = ar_event_id r, ac_event_ts = ar_event_ts r, ac_client_id = ar_client_id r,
     ac_tool_name = ar_tool_name r, ac_tool_id = ar_tool_id r, ac_outcome = ar_outcome r, ac_latency_ms = ar_latency_ms r,
     ac_sha256_hash = ar_sha256_hash r, ac_anomaly_score = ar_anomaly_score r, ac_opa_reasons = ar_opa_reasons r,
     ac_request_id = ar_request_id r, ac_source_ip = ar_source_ip r, ac_created_at = ar_created_at r\<rparr>"

text \<open>One line of the uploaded object; the byte counts are never written by the proxy.\<close>

definition archive_json :: "checker_env \<Rightarrow> archive_row \<Rightarrow> json" where
  "archive_json v r = JObj
     [(''event_id'', JStr (ac_event_id r)), (''event_ts'', JStr (ce_ts_text v (ac_event_ts r))),
      (''client_id'', JStr (ac_client_id r)), (''tool_name'', JStr (ac_tool_name r)), (''tool_id'', jopt JStr (ac_tool_id r)),
      (''outcome'', JStr (ac_outcome r)), (''latency_ms'', JInt (ac_latency_ms r)), (''bytes_in'', JNull), (''bytes_out'', JNull),
      (''sha256_hash'', JStr (ac_sha256_hash r)), (''anomaly_score'', JFloat (ce_float_repr v (ac_anomaly_score r))),
      (''opa_reasons'', JStr (ac_opa_reasons r)), (''request_id'', JStr (ac_request_id r)),
      (''source_ip'', jopt JStr (ac_source_ip r)), (''created_at'', JStr (ce_ts_text v (ac_created_at r)))]"

definition old_rows :: "checker_env \<Rightarrow> audit_row list \<Rightarrow> audit_row list" where
  "old_rows v rows = sort_key ar_event_ts (filter (\<lambda>r. ar_event_ts r < ce_now v - AUDIT_ARCHIVAL_CUTOFF_SECONDS) rows)"

definition jsonl_body :: "checker_env \<Rightarrow> archive_row list \<Rightarrow> string" where
  "jsonl_body v rs = join [CHR 0x0A] (map (\<lambda>r. json_dumps (archive_json v r)) rs)"

definition lock_mode_of :: "string \<Rightarrow> string" where
  "lock_mode_of m = (let u = map upper_char m in if u \<in> {''COMPLIANCE'', ''GOVERNANCE''} then u else ''GOVERNANCE'')"

definition object_key_of :: "checker_env \<Rightarrow> string" where
  "object_key_of v = ''audit-events/'' @ ce_date_path v (ce_now v) @ ''/'' @ ce_id v @ ''.jsonl''"

definition archival_event :: "checker_env \<Rightarrow> int \<Rightarrow> string option \<Rightarrow> string \<Rightarrow> json" where
  "archival_event v rows_archived archive_url status = JObj
     [(''event_type'', JStr ''AUDIT_ARCHIVAL_RUN''), (''level'', JStr (if status = ''ok'' then ''info'' else ''error'')),
      (''run_id'', JStr (ce_id v)), (''rows_archived'', JInt rows_archived), (''archive_url'', jopt JStr archive_url),
      (''status'', JStr status), (''timestamp'', JStr (ce_iso v (ce_now v))), (''component'', JStr ''compliance-checker''),
      (''control'', JStr ''LOG-F09''), (''check_result'', JStr status), (''category'', JStr ''archival'')]"

text \<open>\<open>INSERT ... ON CONFLICT (event_id) DO NOTHING\<close> for each row; a failed row is skipped.\<close>

fun copy_rows :: "checker_env \<Rightarrow> archive_row list \<Rightarrow> archive_row list \<Rightarrow> int \<times> archive_row list" where
  "copy_rows v [] tab = (0, tab)"
| "copy_rows v (r # rs) tab =
     (if ce_insert_ok v (ac_event_id r) then
        let tab' = (if ac_event_id r \<in> set (map ac_event_id tab) then tab else tab @ [r]);
            (n, tab'') = copy_rows v rs tab'
        in (n + 1, tab'')
      else copy_rows v rs tab)"

text \<open>The deletion in chunks of 500; a chunk that fails raises.\<close>

definition delete_ids :: "string list \<Rightarrow> audit_row list \<Rightarrow> audit_row list" where
  "delete_ids ids rows = filter (\<lambda>r. ar_event_id r \<notin> set ids) rows"

function delete_chunks :: "checker_env \<Rightarrow> string list \<Rightarrow> audit_row list \<Rightarrow> bool \<times> audit_row list" where
  "delete_chunks v ids rows =
     (if ids = [] then (True, rows)
      else if ce_delete_ok v (take 500 ids) then delete_chunks v (drop 500 ids) (delete_ids (take 500 ids) rows)
      else (False, rows))"
  by pat_completeness auto
termination
  by (relation "measure (\<lambda>(v, ids, rows). length ids)") auto

declare delete_chunks.simps [simp del]

record archival_result =
  rs_rows_archived :: int
  rs_object_key :: "string option"
  rs_archive_url :: "string option"
  rs_status :: string

abbreviation failed_archival :: archival_result where
  "failed_archival \<equiv> \<lparr>rs_rows_archived = 0, rs_object_key = None, rs_archive_url = None, rs_status = ''error''\<rparr>"

text \<open>Steps 1 to 5: the run inside the \<open>try\<close>.\<close>

definition archive_rows :: "checker_env \<Rightarrow> checker_state \<Rightarrow> archival_result \<times> checker_state" where
  "archive_rows v st =
     (if \<not> (ce_connect_ok v \<and> ce_fetch_ok v) then (failed_archival, st)
      else
        let rows = old_rows v (ck_audit_events st) in
        if rows = [] then (failed_archival\<lparr>rs_status := ''ok''\<rparr>, st)
        else if \<not> ce_put_ok v then (failed_archival, st)
        else
          let object_key = object_key_of v;
              st1 = st\<lparr>ck_objects := ck_objects st @ [\<lparr>bo_bucket = ''compliance-archive'', bo_key = object_key,
                       bo_body = jsonl_body v (map archive_of_row rows), bo_lock_mode = lock_mode_of (ce_lock_mode v)\<rparr>]\<rparr>;
              (archived_count, tab) = copy_rows v (map archive_of_row rows) (ck_archive st1);
              st2 = st1\<lparr>ck_archive := tab\<rparr>;
              ok = \<lparr>rs_rows_archived = archived_count, rs_object_key = Some object_key,
                    rs_archive_url = Some (''s3://compliance-archive/'' @ object_key), rs_status = ''ok''\<rparr>
          in
          if ce_environ v ''ENABLE_AUDIT_DELETE_AFTER_ARCHIVE'' = Some ''1'' \<and> archived_count = int (length rows) then
            let (done, left) = delete_chunks v (map ar_event_id rows) (ck_audit_events st2);
                st3 = st2\<lparr>ck_audit_events := left\<rparr>
            in (if done then ok else failed_archival, st3)
          else (ok, st2))"

definition archive_old_audit_events :: "checker_env \<Rightarrow> checker_state \<Rightarrow> archival_result \<times> checker_state" where
  "archive_old_audit_events v st =
     (let (result, st1) = archive_rows v st in
      (result, st1\<lparr>ck_stdout := ck_stdout st1 @
         [archival_event v (rs_rows_archived result) (rs_archive_url result) (rs_status result)]\<rparr>))"

subsection \<open>The daily check\<close>

fun bump :: "string \<Rightarrow> (string \<times> int) list \<Rightarrow> (string \<times> int) list" where
  "bump c [] = []"
| "bump c ((d, n) # r) = (if c = d then (d, n + 1) # r else (d, n) # bump c r)"

record tally =
  ta_violations :: "(string \<times> int) list"
  ta_mismatches :: int
  ta_legacy :: int

definition check_event :: "(string \<Rightarrow> string option) \<Rightarrow> tally \<Rightarrow> json \<Rightarrow> tally" where
  "check_event environ t event =
     (let t1 = t\<lparr>ta_violations := foldl (\<lambda>vs c. bump c vs) (ta_violations t) (check_event_for_violations event)\<rparr> in
      case verify_hash_integrity environ event of
        LegacyRow \<Rightarrow> t1\<lparr>ta_legacy := ta_legacy t1 + 1\<rparr>
      | HashBad \<Rightarrow> t1\<lparr>ta_mismatches := ta_mismatches t1 + 1\<rparr>
      | HashOk \<Rightarrow> t1)"

definition check_events :: "(string \<Rightarrow> string option) \<Rightarrow> json list \<Rightarrow> tally" where
  "check_events environ events =
     foldl (check_event environ)
       \<lparr>ta_violations = map (\<lambda>cp. (fst cp, 0)) COMPLIANCE_PATTERNS, ta_mismatches = 0, ta_legacy = 0\<rparr> events"

definition categories_failed :: "tally \<Rightarrow> int" where
  "categories_failed t =
     int (length (filter (\<lambda>cn. 0 < snd cn) (ta_violations t))) + (if 0 < ta_mismatches t then 1 else 0)"

definition report_of :: "string \<Rightarrow> json list \<Rightarrow> tally \<Rightarrow> compliance_report" where
  "report_of report_id events t = \<lparr>cr_report_id = report_id,
     cr_status = (if categories_failed t = 0 then ''pass'' else ''fail''), cr_categories_failed = categories_failed t,
     cr_category_results = ta_violations t, cr_events_checked = int (length events),
     cr_hash_mismatches = ta_mismatches t, cr_unverifiable_legacy = ta_legacy t\<rparr>"

definition COMPLIANCE_SAMPLE_SIZE :: int where
  "COMPLIANCE_SAMPLE_SIZE = 1000"

definition object_lock_json :: "object_lock \<Rightarrow> json" where
  "object_lock_json lock = JObj [(''enabled'', JBool (ol_enabled lock)), (''mode'', ol_mode lock),
     (''retention_days'', ol_retention_days lock), (''error'', jopt JStr (ol_error lock))]"

definition report_json :: "checker_env \<Rightarrow> compliance_report \<Rightarrow> json" where
  "report_json v r = JObj
     [(''report_id'', JStr (cr_report_id r)), (''run_at'', JStr (ce_iso v (ce_now v))), (''status'', JStr (cr_status r)),
      (''sample_size'', JInt COMPLIANCE_SAMPLE_SIZE), (''period_start'', JStr (ce_iso v (ce_now v - 86400))),
      (''period_end'', JStr (ce_iso v (ce_now v))),
      (''categories_checked'', JInt (int (length COMPLIANCE_PATTERNS))), (''categories_failed'', JInt (cr_categories_failed r)),
      (''categories'', JArr (map (\<lambda>(c, n). JObj [(''category'', JStr c), (''events_checked'', JInt (cr_events_checked r)),
         (''violations_found'', JInt n), (''status'', JStr (if n = 0 then ''pass'' else ''fail''))]) (cr_category_results r))),
      (''hash_integrity'', JObj [(''events_checked'', JInt (cr_events_checked r)),
         (''hash_mismatches'', JInt (cr_hash_mismatches r)), (''unverifiable_legacy'', JInt (cr_unverifiable_legacy r)),
         (''status'', JStr (if cr_hash_mismatches r = 0 then ''pass'' else ''fail''))]),
      (''object_lock'', object_lock_json (verify_object_lock_startup (ce_object_lock v)))]"

definition post_alert :: "checker_env \<Rightarrow> string \<Rightarrow> int \<Rightarrow> checker_state \<Rightarrow> checker_state" where
  "post_alert v report_id n st = (if ce_post_ok v then st\<lparr>ck_alerts := ck_alerts st @ [(report_id, n)]\<rparr> else st)"

text \<open>\<open>_run_async\<close> on the sample the query returned, with its exit code.\<close>

definition compliance_run :: "checker_env \<Rightarrow> audit_row list \<Rightarrow> checker_state \<Rightarrow> int \<times> checker_state" where
  "compliance_run v sample st =
     (if \<not> (ce_connect_ok v \<and> ce_fetch_ok v) then (1, st)
      else
        let events = map (row_event (ce_ts_text v)) sample;
            report = report_of (ce_id v) events (check_events (ce_environ v) events);
            st1 = (if ce_report_ok v then st\<lparr>ck_reports := ck_reports st @ [report]\<rparr> else st);
            st2 = (if ce_put_ok v then st1\<lparr>ck_objects := ck_objects st1 @
                     [\<lparr>bo_bucket = ''mcp-audit-archive'', bo_key = ''compliance/'' @ ce_date_path v (ce_now v) @ ''/'' @ ce_id v @ ''.json'',
                       bo_body = json_dumps (report_json v report), bo_lock_mode = ''GOVERNANCE''\<rparr>]\<rparr> else st1)
        in
        if cr_status report = ''fail'' then (1, post_alert v (ce_id v) (cr_categories_failed report) st2)
        else (0, st2\<lparr>ck_stdout := ck_stdout st2 @ [JObj [(''status'', JStr ''pass''), (''report_id'', JStr (ce_id v)),
                (''events_sampled'', JInt (int (length events)))]]\<rparr>))"

subsection \<open>What the writer writes, the verifier accepts\<close>

lemma jget_Cons [simp]: "jget (JObj ((k, v) # kvs)) k' = (if k' = k then v else jget (JObj kvs) k')"
  and jget_Nil [simp]: "jget (JObj []) k' = JNull"
  by (simp_all add: jget_def)

lemma jopt_simps [simp]: "jopt f None = JNull" "jopt f (Some x) = f x"
  by (simp_all add: jopt_def)

lemma core_values_event:
  "core_values (canonical_entry e) = core_values (JObj (to_dict fr e))"
  by (simp add: core_values_def outcome_value_def canonical_entry_def to_dict_def)

lemma core_values_row:
  assumes "row_checks (row_of_event v a e h)" and "e = event_of_args v a"
  shows "core_values (row_event tt (row_of_event v a (e\<lparr>ae_sha256_hash := x\<rparr>) h)) = core_values (canonical_entry e)"
  using assms by (auto simp: core_values_def outcome_value_def canonical_entry_def row_event_def row_of_event_def
      event_of_args_def row_checks_def outcome_map_def)

lemma canonical_cong: "core_values d = core_values d' \<Longrightarrow> canonical_audit_json d = canonical_audit_json d'"
  by (simp add: canonical_audit_text)

lemma jget_update [simp]:
  "jget (JObj (AList.update k v kvs)) k' = (if k' = k then v else jget (JObj kvs) k')"
  by (simp add: jget_def update_conv')

lemma sha256_not_Nil [simp]: "sha256 s \<noteq> []"
  using length_sha256[of s] by fastforce

text \<open>The row that a successful emission appends.\<close>

definition written_row :: "audit_env \<Rightarrow> audit_args \<Rightarrow> audit_row" where
  "written_row v a =
     (let e = event_of_args v a in row_of_event v a (e\<lparr>ae_sha256_hash := compute_hash e\<rparr>) (compute_hash e))"

lemma logger_hash: "fst (logger_emit v (e\<lparr>ae_sha256_hash := x\<rparr>) st) = compute_hash e"
proof -
  have "core_values (JObj (to_dict (av_float_repr v) (e\<lparr>ae_sha256_hash := x\<rparr>))) = core_values (canonical_entry e)"
    by (simp add: core_values_def outcome_value_def canonical_entry_def to_dict_def)
  then show ?thesis
    by (simp add: logger_emit_def Let_def hash_audit_entry_def compute_hash_def canonical_audit_text)
qed

lemma logger_events [simp]: "audit_events (snd (logger_emit v e st)) = audit_events st"
  by (simp add: logger_emit_def write_line_def Let_def)

lemma emit_cases:
  assumes "\<not> av_skip_db_write v"
  obtains (raised) m where "fst (emit_audit_event v a st) = Inl (AuditEmissionError m)"
      "audit_events (snd (emit_audit_event v a st)) = audit_events st"
  | (written) "fst (emit_audit_event v a st) = Inr (av_event_id v)" "row_checks (written_row v a)"
      "audit_events (snd (emit_audit_event v a st)) = audit_events st @ [written_row v a]"
proof (cases "validate_event (event_of_args v a)")
  case (Some x)
  then show ?thesis using raised by (simp add: emit_audit_event_def post_init_def)
next
  case None
  obtain h st1 where l: "logger_emit v ((event_of_args v a)\<lparr>ae_sha256_hash := compute_hash (event_of_args v a)\<rparr>) st = (h, st1)"
    by fastforce
  then have h: "h = compute_hash (event_of_args v a)" and st1: "audit_events st1 = audit_events st"
    using logger_hash[of v _ _ st] logger_events[of v _ st] by (metis fst_conv, metis snd_conv)
  show ?thesis
  proof (cases "row_checks (written_row v a) \<and> av_insert_ok v (written_row v a)")
    case True
    with None l h st1 assms show ?thesis
      by (intro written) (simp_all add: emit_audit_event_def post_init_def Let_def written_row_def syslog_emit_def event_of_args_def)
  next
    case False
    with None l h st1 assms show ?thesis
      by (intro raised) (auto simp add: emit_audit_event_def post_init_def Let_def written_row_def)
  qed
qed

lemma canonical_written:
  assumes "row_checks (written_row v a)"
  shows "canonical_audit_json (row_event tt (written_row v a)) = canonical_audit_json (canonical_entry (event_of_args v a))"
proof -
  from assms have "row_checks (row_of_event v a (event_of_args v a) (compute_hash (event_of_args v a)))"
    by (simp add: written_row_def Let_def row_of_event_def row_checks_def)
  then show ?thesis unfolding written_row_def Let_def by (intro canonical_cong core_values_row refl)
qed

lemma written_row_verifies:
  assumes "row_checks (written_row v a)" and "environ ''AUDIT_LOG_HMAC_KEY'' = av_hmac_key v"
  shows "verify_hash_integrity environ (row_event tt (written_row v a)) = HashOk"
proof -
  let ?e = "event_of_args v a" and ?d = "row_event tt (written_row v a)"
  have t: "jget ?d ''timestamp'' \<noteq> JNull" and h: "jget ?d ''sha256_hash'' = JStr (sha256 (canonical_audit_json ?d))"
    and s: "jget ?d ''hmac_signature'' = jopt JStr (compute_hmac_signature (av_hmac_key v) ?e)"
    and k: "jlookup ?d ''hmac_key_id'' = Some (JStr ''default'')"
    using canonical_written[OF assms(1)]
    by (simp_all add: row_event_def written_row_def Let_def row_of_event_def compute_hash_def compute_hmac_signature_def
        canonical_entry_def)
  show ?thesis
  proof (cases "str_true (av_hmac_key v)")
    case True
    then obtain key where key: "av_hmac_key v = Some key" "key \<noteq> []" by (cases "av_hmac_key v") auto
    then have "jget ?d ''hmac_signature'' = JStr (hmac_sha256 key (canonical_audit_json ?d))"
      using s canonical_written[OF assms(1)] by (simp add: compute_hmac_signature_def)
    with key t h k assms(2) show ?thesis
      by (simp add: verify_hash_integrity_def Let_def get_hmac_key_def verdict_def)
  next
    case False
    then have "jget ?d ''hmac_signature'' = JNull"
      using s by (cases "av_hmac_key v") (simp_all add: compute_hmac_signature_def)
    with t h show ?thesis by (simp add: verify_hash_integrity_def Let_def verdict_def)
  qed
qed

text \<open>
  Property C37. Every audited action leaves a row that the compliance checker accepts, or the caller is
  told: an emission either raises \<open>AuditEmissionError\<close> and writes no row, or appends exactly one row with
  the returned identifier, and the checker with the same key verifies the hash and the signature of
  that row, also after the outcome \<open>error\<close> was stored as \<open>deny\<close>.
\<close>

theorem audit_round_trip:
  assumes "\<not> av_skip_db_write v" and "environ ''AUDIT_LOG_HMAC_KEY'' = av_hmac_key v"
  shows "case emit_audit_event v a st of
      (Inl x, st') \<Rightarrow> (\<exists>m. x = AuditEmissionError m) \<and> audit_events st' = audit_events st
    | (Inr event_id, st') \<Rightarrow> \<exists>row. audit_events st' = audit_events st @ [row] \<and> ar_event_id row = event_id
        \<and> ar_client_id row = aa_client_id a \<and> ar_original_outcome row = Some (aa_outcome a)
        \<and> verify_hash_integrity environ (row_event ts_text row) = HashOk"
proof (cases rule: emit_cases[OF assms(1), of a st])
  case (1 m)
  then show ?thesis by (simp add: case_prod_beta split: prod.split)
next
  case 2
  moreover have "ar_event_id (written_row v a) = av_event_id v" "ar_client_id (written_row v a) = aa_client_id a"
    "ar_original_outcome (written_row v a) = Some (aa_outcome a)"
    by (simp_all add: written_row_def Let_def row_of_event_def event_of_args_def)
  ultimately show ?thesis
    using written_row_verifies[of v a environ ts_text, OF 2(2) assms(2)] by (simp add: case_prod_beta split: prod.split)
qed

definition audit_example_env :: audit_env where
  "audit_example_env = \<lparr>av_event_id = ''e1'', av_timestamp = ''2026-01-01T00:00:00+00:00'', av_time = 0, av_syslog_ts = ''Jan 01 00:00:00'',
     av_float_repr = (\<lambda>_. ''0.0''), av_stdout_ok = True, av_insert_ok = (\<lambda>_. True), av_sendto_ok = False,
     av_hmac_key = Some ''k'', av_wazuh_host = None, av_skip_db_write = False\<rparr>"

definition audit_example_args :: audit_args where
  "audit_example_args = \<lparr>aa_tool_id = Some ''t1'', aa_tool_name = ''read'', aa_tool_version = None, aa_client_id = ''alice'',
     aa_outcome = ''error'', aa_deny_reasons = [], aa_request_id = ''r1'', aa_latency_ms = 5, aa_anomaly_score = 0,
     aa_opa_decision_id = ''d1'', aa_is_testing = False, aa_source_ip = None, aa_principal_type = Some ''human'',
     aa_roles = None, aa_session_jti = None, aa_tainted = None, aa_principal_id = None, aa_notices = None\<rparr>"

lemmas audit_example_defs = audit_example_env_def audit_example_args_def

lemma audit_example_row: "row_checks (written_row audit_example_env audit_example_args)"
  by (simp add: row_checks_def written_row_def Let_def row_of_event_def audit_example_defs)

theorem audit_round_trip_witness:
  "\<exists>row. audit_events (snd (emit_audit_event audit_example_env audit_example_args \<lparr>log_lines = [], audit_events = [], syslog = []\<rparr>)) = [row]
     \<and> ar_original_outcome row = Some ''error''
     \<and> verify_hash_integrity (\<lambda>_. Some ''k'') (row_event (\<lambda>_. []) row) = HashOk"
proof -
  let ?r = "emit_audit_event audit_example_env audit_example_args \<lparr>log_lines = [], audit_events = [], syslog = []\<rparr>"
  have "fst ?r = Inr ''e1''"
    by (simp add: emit_audit_event_def post_init_def validate_event_def event_of_args_def outcome_map_def logger_emit_def Let_def
        row_checks_def row_of_event_def audit_example_defs)
  then obtain st' where r: "?r = (Inr ''e1'', st')" by (metis prod.collapse)
  have "\<not> av_skip_db_write audit_example_env" "(\<lambda>_. Some ''k'') ''AUDIT_LOG_HMAC_KEY'' = av_hmac_key audit_example_env"
    "aa_outcome audit_example_args = ''error''"
    by (simp_all add: audit_example_defs)
  from audit_round_trip[OF this(1,2), where a = audit_example_args
      and st = "\<lparr>log_lines = [], audit_events = [], syslog = []\<rparr>" and ts_text = "\<lambda>_. []"] this(3)
  show ?thesis unfolding r by auto
qed

subsection \<open>What tampering needs\<close>

lemma verified_hash:
  assumes "verify_hash_integrity environ d = HashOk"
  shows "jget d ''sha256_hash'' = JStr (sha256 (canonical_audit_json d))"
  using assms by (auto simp: verify_hash_integrity_def Let_def verdict_def split: if_splits option.splits)

lemma verify_stable:
  assumes "verify_hash_integrity environ d = HashOk" and "canonical_audit_json d' = canonical_audit_json d"
    and "jget d' ''timestamp'' \<noteq> JNull" and "jget d' ''sha256_hash'' = jget d ''sha256_hash''"
    and "jget d' ''hmac_signature'' = jget d ''hmac_signature''" and "jlookup d' ''hmac_key_id'' = jlookup d ''hmac_key_id''"
  shows "verify_hash_integrity environ d' = HashOk"
  using assms by (auto simp: verify_hash_integrity_def Let_def verdict_def split: if_splits option.splits)





subsection \<open>Archival loses nothing\<close>

lemma copy_rows_sound:
  assumes "copy_rows v rs tab = (n, tab')"
  shows "prefix tab tab' \<and> n \<le> int (length rs)
    \<and> (n = int (length rs) \<longrightarrow> ac_event_id ` set rs \<subseteq> ac_event_id ` set tab')"
  using assms
proof (induction v rs tab arbitrary: n tab' rule: copy_rows.induct)
  case (2 v r rs tab)
  show ?case
  proof (cases "ce_insert_ok v (ac_event_id r)")
    case True
    define t1 where "t1 = (if ac_event_id r \<in> set (map ac_event_id tab) then tab else tab @ [r])"
    from True 2(3) obtain m where m: "copy_rows v rs t1 = (m, tab')" "n = m + 1"
      unfolding t1_def by (auto simp: Let_def split: prod.splits)
    have "prefix tab t1" and id: "ac_event_id r \<in> ac_event_id ` set t1" by (auto simp: t1_def)
    moreover have ih: "prefix t1 tab' \<and> m \<le> int (length rs)
        \<and> (m = int (length rs) \<longrightarrow> ac_event_id ` set rs \<subseteq> ac_event_id ` set tab')"
      by (rule 2(1)[OF True t1_def m(1)])
    moreover from ih id have "ac_event_id r \<in> ac_event_id ` set tab'"
      using set_mono_prefix by blast
    ultimately show ?thesis using m(2) by auto
  next
    case False
    with 2(2)[OF False] 2(3) show ?thesis by auto
  qed
qed auto

lemma delete_chunks_sound:
  "delete_chunks v ids rows = (b, left) \<Longrightarrow> set left \<subseteq> set rows \<and> (\<forall>r \<in> set rows. r \<in> set left \<or> ar_event_id r \<in> set ids)"
proof (induction v ids rows arbitrary: b left rule: delete_chunks.induct)
  case (1 v ids rows)
  show ?case
  proof (cases "ids \<noteq> [] \<and> ce_delete_ok v (take 500 ids)")
    case True
    with 1(2) have d: "delete_chunks v (drop 500 ids) (delete_ids (take 500 ids) rows) = (b, left)"
      by (simp add: delete_chunks.simps[of v ids])
    have "set left \<subseteq> set (delete_ids (take 500 ids) rows)
      \<and> (\<forall>r \<in> set (delete_ids (take 500 ids) rows). r \<in> set left \<or> ar_event_id r \<in> set (drop 500 ids))"
      using 1(1)[OF _ _ d] True by simp
    then show ?thesis by (auto simp: delete_ids_def dest: in_set_takeD in_set_dropD)
  next
    case False
    with 1(2) show ?thesis by (auto simp: delete_chunks.simps[of v ids] split: if_splits)
  qed
qed

definition archived_in :: "checker_env \<Rightarrow> checker_state \<Rightarrow> audit_row \<Rightarrow> bool" where
  "archived_in v st r \<longleftrightarrow> ar_event_id r \<in> ac_event_id ` set (ck_archive st)
     \<and> (\<exists>obj \<in> set (ck_objects st). \<exists>rs. bo_body obj = jsonl_body v rs \<and> archive_of_row r \<in> set rs)"

lemma archive_rows_sound:
  assumes "archive_rows v st = (res, st')" and "distinct (map ar_event_id (ck_audit_events st))"
    and "r \<in> set (ck_audit_events st)"
  shows "prefix (ck_archive st) (ck_archive st') \<and> prefix (ck_objects st) (ck_objects st') \<and> ck_stdout st' = ck_stdout st
    \<and> (r \<in> set (ck_audit_events st')
       \<or> archived_in v st' r \<and> ar_event_ts r < ce_now v - AUDIT_ARCHIVAL_CUTOFF_SECONDS)"
proof (cases "ce_connect_ok v \<and> ce_fetch_ok v \<and> old_rows v (ck_audit_events st) \<noteq> [] \<and> ce_put_ok v")
  case False
  with assms show ?thesis by (auto simp: archive_rows_def Let_def split: if_splits)
next
  case True
  let ?rows = "old_rows v (ck_audit_events st)"
  obtain n tab where copy: "copy_rows v (map archive_of_row ?rows) (ck_archive st) = (n, tab)" by fastforce
  note sound = copy_rows_sound[OF copy]
  define st2 where "st2 = st\<lparr>ck_objects := ck_objects st @ [\<lparr>bo_bucket = ''compliance-archive'', bo_key = object_key_of v,
      bo_body = jsonl_body v (map archive_of_row ?rows), bo_lock_mode = lock_mode_of (ce_lock_mode v)\<rparr>], ck_archive := tab\<rparr>"
  show ?thesis
  proof (cases "ce_environ v ''ENABLE_AUDIT_DELETE_AFTER_ARCHIVE'' = Some ''1'' \<and> n = int (length ?rows)")
    case del: True
    obtain b left where d: "delete_chunks v (map ar_event_id ?rows) (ck_audit_events st) = (b, left)" by fastforce
    from True del copy d assms(1) have st': "st' = st2\<lparr>ck_audit_events := left\<rparr>"
      by (auto simp: archive_rows_def Let_def st2_def)
    show ?thesis
    proof (cases "r \<in> set left")
      case True
      then show ?thesis using st' sound by (simp add: st2_def)
    next
      case False
      with delete_chunks_sound[OF d] assms(3) have "ar_event_id r \<in> ar_event_id ` set ?rows" by auto
      then obtain q where q: "q \<in> set ?rows" "ar_event_id q = ar_event_id r" by auto
      then have "q \<in> set (ck_audit_events st)" by (simp add: old_rows_def)
      with q(2) assms(2,3) have "q = r" by (auto simp: distinct_map inj_on_def)
      with q have r: "r \<in> set ?rows" by simp
      then have "ar_event_id r \<in> ac_event_id ` set (map archive_of_row ?rows)" by (force simp: archive_of_row_def)
      with sound del have "ar_event_id r \<in> ac_event_id ` set tab" by auto
      with r st' sound show ?thesis by (auto simp: st2_def archived_in_def old_rows_def)
    qed
  next
    case False
    with True copy assms(1) have "st' = st2" by (auto simp: archive_rows_def Let_def st2_def)
    with assms(3) sound show ?thesis by (simp add: st2_def)
  qed
qed

text \<open>
  Property C40. Archival loses no event: whatever call fails, an event of the live table is still there after
  a run, or it is older than the cutoff, its identifier is in the archive table and its line is in an uploaded
  object. The archive table and the bucket only grow, and every run leaves one archival event on
  the standard output.
\<close>

theorem archival_loses_nothing:
  assumes "archive_old_audit_events v st = (res, st')" and "distinct (map ar_event_id (ck_audit_events st))"
    and "r \<in> set (ck_audit_events st)"
  shows "(r \<in> set (ck_audit_events st')
       \<or> archived_in v st' r \<and> ar_event_ts r < ce_now v - AUDIT_ARCHIVAL_CUTOFF_SECONDS)
    \<and> prefix (ck_archive st) (ck_archive st') \<and> prefix (ck_objects st) (ck_objects st')
    \<and> length (ck_stdout st') = Suc (length (ck_stdout st))"
proof -
  obtain res1 st1 where run: "archive_rows v st = (res1, st1)" by fastforce
  with assms(1) have st': "st' = st1\<lparr>ck_stdout := ck_stdout st1 @
      [archival_event v (rs_rows_archived res1) (rs_archive_url res1) (rs_status res1)]\<rparr>"
    by (auto simp: archive_old_audit_events_def)
  from archive_rows_sound[OF run assms(2,3)] st' show ?thesis by (auto simp: archived_in_def)
qed

definition archival_example_env :: checker_env where
  "archival_example_env = \<lparr>ce_now = 10000000, ce_id = ''run1'', ce_iso = (\<lambda>_. []), ce_ts_text = (\<lambda>_. []), ce_date_path = (\<lambda>_. ''2026/01/01''),
     ce_float_repr = (\<lambda>_. ''0.0''), ce_environ = (\<lambda>k. if k = ''ENABLE_AUDIT_DELETE_AFTER_ARCHIVE'' then Some ''1'' else None),
     ce_lock_mode = ''GOVERNANCE'', ce_connect_ok = True, ce_fetch_ok = True, ce_put_ok = True, ce_insert_ok = (\<lambda>_. True),
     ce_delete_ok = (\<lambda>_. True), ce_report_ok = True, ce_post_ok = True, ce_object_lock = Inl []\<rparr>"

definition archival_example_row :: audit_row where
  "archival_example_row = \<lparr>ar_event_id = ''e1'', ar_client_id = ''alice'', ar_tool_name = ''read'', ar_tool_id = None, ar_outcome = ''allow'',
     ar_latency_ms = 5, ar_sha256_hash = ''ab'', ar_anomaly_score = 0, ar_opa_reasons = ''[]'', ar_request_id = ''r1'',
     ar_event_type = None, ar_event_ts_iso = None, ar_platform_version = None, ar_original_outcome = None,
     ar_hmac_signature = None, ar_hmac_key_id = None, ar_source_ip = None, ar_principal_type = None, ar_caller_roles = None,
     ar_session_jti = None, ar_opa_decision_id = None, ar_principal_id = None, ar_notices = ''[]'', ar_event_ts = 5, ar_created_at = 5\<rparr>"

definition archival_example_state :: checker_state where
  "archival_example_state = \<lparr>ck_audit_events = [archival_example_row], ck_archive = [], ck_objects = [], ck_reports = [], ck_alerts = [],
     ck_stdout = []\<rparr>"

lemmas archival_example_defs = archival_example_env_def archival_example_row_def archival_example_state_def

theorem archival_loses_nothing_witness:
  "ck_audit_events (snd (archive_old_audit_events archival_example_env archival_example_state)) = []
   \<and> archived_in archival_example_env (snd (archive_old_audit_events archival_example_env archival_example_state)) archival_example_row"
proof -
  have gone: "ck_audit_events (snd (archive_old_audit_events archival_example_env archival_example_state)) = []"
    by code_simp
  have "distinct (map ar_event_id (ck_audit_events archival_example_state))"
    "archival_example_row \<in> set (ck_audit_events archival_example_state)"
    by (simp_all add: archival_example_state_def)
  from archival_loses_nothing[OF prod.collapse[symmetric] this, of archival_example_env] gone show ?thesis by simp
qed

text \<open>
  An archived event can no longer be verified: neither the archive table nor the uploaded line keeps the
  canonical columns or the signature, so the checker classifies every archived event as
  unverifiable, also one that verified in the live table.
\<close>

theorem archived_events_unverifiable:
  "verify_hash_integrity environ (archive_json v (archive_of_row r)) = LegacyRow"
  by (simp add: verify_hash_integrity_def archive_json_def)

subsection \<open>What a pass means\<close>

definition flagged :: "(string \<times> int) list \<Rightarrow> bool" where
  "flagged vs \<longleftrightarrow> (\<exists>cn \<in> set vs. 0 < snd cn)"

definition counts_ok :: "(string \<times> int) list \<Rightarrow> bool" where
  "counts_ok vs \<longleftrightarrow> (\<forall>cn \<in> set vs. 0 \<le> snd cn) \<and> map fst vs = map fst COMPLIANCE_PATTERNS"

lemma bump_facts:
  "\<forall>cn \<in> set vs. 0 \<le> snd cn \<Longrightarrow>
     map fst (bump c vs) = map fst vs \<and> (\<forall>cn \<in> set (bump c vs). 0 \<le> snd cn)
     \<and> (flagged (bump c vs) \<longleftrightarrow> flagged vs \<or> c \<in> set (map fst vs))"
  by (induction c vs rule: bump.induct) (auto simp: flagged_def)

lemma bump_all:
  assumes "counts_ok vs" and "set cs \<subseteq> set (map fst COMPLIANCE_PATTERNS)"
  shows "counts_ok (foldl (\<lambda>vs c. bump c vs) vs cs) \<and> (flagged (foldl (\<lambda>vs c. bump c vs) vs cs) \<longleftrightarrow> flagged vs \<or> cs \<noteq> [])"
  using assms
proof (induction cs arbitrary: vs)
  case (Cons c cs)
  then have "counts_ok (bump c vs)" and "flagged (bump c vs)"
    using bump_facts[of vs c] by (auto simp: counts_ok_def)
  with Cons.IH[of "bump c vs"] Cons.prems show ?case by simp
qed simp

lemma violations_known: "set (check_event_for_violations e) \<subseteq> set (map fst COMPLIANCE_PATTERNS)"
  by (auto simp: check_event_for_violations_def Let_def)

definition clean :: "(string \<Rightarrow> string option) \<Rightarrow> json \<Rightarrow> bool" where
  "clean environ e \<longleftrightarrow> check_event_for_violations e = [] \<and> verify_hash_integrity environ e \<noteq> HashBad"

lemma check_event_facts:
  assumes "counts_ok (ta_violations t)" and "0 \<le> ta_mismatches t"
  shows "counts_ok (ta_violations (check_event environ t e)) \<and> 0 \<le> ta_mismatches (check_event environ t e)
    \<and> (categories_failed (check_event environ t e) = 0 \<longleftrightarrow> categories_failed t = 0 \<and> clean environ e)"
proof -
  have failed: "categories_failed u = 0 \<longleftrightarrow> \<not> flagged (ta_violations u) \<and> \<not> 0 < ta_mismatches u" for u
    by (auto simp: categories_failed_def flagged_def filter_empty_conv)
  from bump_all[OF assms(1) violations_known[of e]] assms(2) show ?thesis
    by (cases "verify_hash_integrity environ e") (auto simp: failed check_event_def Let_def clean_def)
qed

lemma check_events_fold:
  "counts_ok (ta_violations t) \<Longrightarrow> 0 \<le> ta_mismatches t \<Longrightarrow>
     categories_failed (foldl (check_event environ) t es) = 0 \<longleftrightarrow> categories_failed t = 0 \<and> (\<forall>e \<in> set es. clean environ e)"
proof (induction es arbitrary: t)
  case (Cons e es)
  from check_event_facts[OF Cons.prems] Cons.IH[of "check_event environ t e"] show ?case by auto
qed simp

lemma check_events_exact: "categories_failed (check_events environ es) = 0 \<longleftrightarrow> (\<forall>e \<in> set es. clean environ e)"
proof -
  let ?t = "\<lparr>ta_violations = map (\<lambda>cp. (fst cp, 0)) COMPLIANCE_PATTERNS, ta_mismatches = 0, ta_legacy = 0\<rparr>"
  have "counts_ok (ta_violations ?t)" by (auto simp: counts_ok_def)
  moreover have "categories_failed ?t = 0" by (simp add: categories_failed_def filter_empty_conv)
  ultimately show ?thesis using check_events_fold[of ?t environ es] unfolding check_events_def by simp
qed

text \<open>
  The daily check exits with 0 exactly when the database answered and every sampled event is free of all ten
  patterns and has no hash or signature mismatch; in every other case it exits with 1, and a check
  that failed on an event posts one alert.
\<close>

theorem compliance_pass_exact:
  "(fst (compliance_run v sample st) = 0 \<longleftrightarrow>
      ce_connect_ok v \<and> ce_fetch_ok v \<and>
      (\<forall>r \<in> set sample. check_event_for_violations (row_event (ce_ts_text v) r) = []
         \<and> verify_hash_integrity (ce_environ v) (row_event (ce_ts_text v) r) \<noteq> HashBad))
   \<and> (fst (compliance_run v sample st) = 0 \<or> fst (compliance_run v sample st) = 1)
   \<and> (ce_post_ok v \<longrightarrow> length (ck_alerts (snd (compliance_run v sample st))) =
        length (ck_alerts st) + (if ce_connect_ok v \<and> ce_fetch_ok v \<and> fst (compliance_run v sample st) = 1 then 1 else 0))"
proof -
  have "(cr_status (report_of i es t) = ''fail'') = (categories_failed t \<noteq> 0)" for i es t
    by (simp add: report_of_def)
  then show ?thesis
    by (auto simp: compliance_run_def Let_def post_alert_def check_events_exact clean_def)
qed

theorem compliance_pass_exact_witness:
  "fst (compliance_run archival_example_env [] archival_example_state) = 0
   \<and> fst (compliance_run archival_example_env
         [archival_example_row\<lparr>ar_event_ts_iso := Some ''t'', ar_sha256_hash := []\<rparr>] archival_example_state) = 1"
proof -
  let ?r = "archival_example_row\<lparr>ar_event_ts_iso := Some ''t'', ar_sha256_hash := []\<rparr>"
  have "verify_hash_integrity (ce_environ archival_example_env) (row_event (ce_ts_text archival_example_env) ?r) = HashBad"
    by (simp add: verify_hash_integrity_def row_event_def archival_example_row_def)
  moreover have "ce_connect_ok archival_example_env" "ce_fetch_ok archival_example_env"
    by (simp_all add: archival_example_env_def)
  ultimately show ?thesis
    using compliance_pass_exact[of archival_example_env "[]" archival_example_state]
      compliance_pass_exact[of archival_example_env "[?r]" archival_example_state] by auto
qed

end
