(* ===== verification/CredStore.thy ===== *)
theory CredStore
  imports JsonRoundTrip Sha256 Store
begin

section \<open>The credential store\<close>

text \<open>
  \<^verbatim>\<open>proxy/app/credential_broker/approaches/approach_a.py\<close>: the codec of every encrypted credential, and
  \<open>decrypt_credential\<close>, which the injection modes call; and \<^verbatim>\<open>proxy/app/services/credential_storage.py\<close>, which stores and
  retrieves credentials by identifier.

  HKDF and AES-GCM are library code: the record \<open>crypto\<close> holds them, and \<open>aesgcm_ok\<close> states what AES-GCM documents. Bytes
  are characters, as for the digests. The random salt and nonce of one encryption are arguments.
\<close>

subsection \<open>Rows\<close>

record credential_row =
  cs_id :: string
  cs_user_sub :: string
  cs_service :: string
  cs_tool_id :: "string option"
  cs_owner_type :: "string option"
  cs_credential_type :: string
  cs_blob :: string
  cs_principal_type :: "string option"
  cs_upn :: "string option"

record crypto =
  hkdf_derive :: "string \<Rightarrow> string \<Rightarrow> string \<Rightarrow> string"   \<comment> \<open>salt, info, secret\<close>
  aesgcm_encrypt :: "string \<Rightarrow> string \<Rightarrow> string \<Rightarrow> string \<Rightarrow> string"   \<comment> \<open>key, nonce, data, associated data\<close>
  aesgcm_decrypt :: "string \<Rightarrow> string \<Rightarrow> string \<Rightarrow> string \<Rightarrow> string option"   \<comment> \<open>\<open>None\<close> is \<open>InvalidTag\<close>\<close>

text \<open>
  Decryption accepts a text exactly when it is what encryption makes of the returned data under the same key, nonce and
  associated data (the tag is recomputed and compared), and the tag has 16 bytes.
\<close>

definition aesgcm_ok :: "crypto \<Rightarrow> bool" where
  "aesgcm_ok cr \<longleftrightarrow>
     (\<forall>k n c a p. aesgcm_decrypt cr k n c a = Some p \<longleftrightarrow> c = aesgcm_encrypt cr k n p a)
     \<and> (\<forall>k n p a. length (aesgcm_encrypt cr k n p a) = length p + 16)"

text \<open>\<open>bytes.decode()\<close>, on the texts whose characters the model has.\<close>

fun utf8_decode :: "string \<Rightarrow> string option" where
  "utf8_decode [] = Some []"
| "utf8_decode (c # s) =
     (if (of_char c :: int) < 128 then map_option (Cons c) (utf8_decode s)
      else case s of
        d # s' \<Rightarrow> (if (194 \<le> (of_char c :: int) \<and> (of_char c :: int) \<le> 195 \<and> 128 \<le> (of_char d :: int) \<and> (of_char d :: int) < 192)
                   then map_option (Cons (char_of ((of_char c - 192) * 64 + (of_char d - 128 :: int)))) (utf8_decode s') else None)
      | [] \<Rightarrow> None)"

subsection \<open>The codec\<close>

datatype codec_error = BlobTooShort nat | InvalidTag | UnicodeDecodeError

definition NONCE_SIZE :: nat where "NONCE_SIZE = 12"

definition SALT_SIZE :: nat where "SALT_SIZE = 32"

definition HKDF_INFO_PREFIX :: string where "HKDF_INFO_PREFIX = ''mcp-credential-broker-kek-v2:''"

definition AAD_PREFIX :: string where "AAD_PREFIX = ''mcp-cred-v2''"

definition kek_info :: "string \<Rightarrow> string" where
  "kek_info user_sub = HKDF_INFO_PREFIX @ utf8 user_sub"

definition derive_kek :: "crypto \<Rightarrow> string \<Rightarrow> string \<Rightarrow> string \<Rightarrow> string" where
  "derive_kek cr user_sub master_secret salt = hkdf_derive cr salt (kek_info user_sub) master_secret"

definition make_aad :: "string \<Rightarrow> string \<Rightarrow> string option \<Rightarrow> string \<Rightarrow> string" where
  "make_aad user_sub service tool_id owner_type =
     utf8 (AAD_PREFIX @ ''|'' @ user_sub @ ''|'' @ service @ ''|'' @ str_or tool_id [] @ ''|'' @ owner_type)"

definition encrypt :: "crypto \<Rightarrow> string \<Rightarrow> string \<Rightarrow> string \<Rightarrow> string \<Rightarrow> string \<Rightarrow> string \<Rightarrow> string option \<Rightarrow> string \<Rightarrow> string" where
  "encrypt cr salt nonce plaintext user_sub master_secret service tool_id owner_type =
     (let kek = derive_kek cr user_sub master_secret salt; aad = make_aad user_sub service tool_id owner_type in
      salt @ nonce @ aesgcm_encrypt cr kek nonce (utf8 plaintext) aad)"

definition decrypt :: "crypto \<Rightarrow> string \<Rightarrow> string \<Rightarrow> string \<Rightarrow> string \<Rightarrow> string option \<Rightarrow> string \<Rightarrow> codec_error + string" where
  "decrypt cr blob user_sub master_secret service tool_id owner_type =
     (if length blob < SALT_SIZE + NONCE_SIZE + 1 then Inl (BlobTooShort (length blob))
      else let salt = take SALT_SIZE blob; nonce = take NONCE_SIZE (drop SALT_SIZE blob); ct = drop (SALT_SIZE + NONCE_SIZE) blob;
               kek = derive_kek cr user_sub master_secret salt; aad = make_aad user_sub service tool_id owner_type in
           case aesgcm_decrypt cr kek nonce ct aad of
             None \<Rightarrow> Inl InvalidTag
           | Some data \<Rightarrow> (case utf8_decode data of None \<Rightarrow> Inl UnicodeDecodeError | Some s \<Rightarrow> Inr s))"

text \<open>
  \<open>decrypt_credential\<close>. \<open>master\<close> is what \<open>load_master_secret_standalone\<close> gives, \<open>None\<close> when it raises; \<open>db\<close> says whether the
  query succeeds. Each failure is logged and answered with \<open>None\<close>.
\<close>

definition user_row :: "string \<Rightarrow> string \<Rightarrow> credential_row \<Rightarrow> bool" where
  "user_row sub svc r = (cs_user_sub r = sub \<and> cs_service r = svc \<and> (cs_owner_type r = Some ''user'' \<or> cs_owner_type r = None))"

definition service_row :: "string \<Rightarrow> string \<Rightarrow> credential_row \<Rightarrow> bool" where
  "service_row tool_id svc r = (cs_owner_type r = Some ''service'' \<and> cs_tool_id r = Some tool_id \<and> cs_service r = svc)"

definition decrypt_credential ::
    "crypto \<Rightarrow> string option \<Rightarrow> bool \<Rightarrow> credential_row list \<Rightarrow> string \<Rightarrow> string \<Rightarrow> string option \<Rightarrow> string \<Rightarrow> string option" where
  "decrypt_credential cr master db rows user_sub service tool_id owner_type =
     (case master of
        None \<Rightarrow> None
      | Some m \<Rightarrow>
          if \<not> db then None
          else case (if owner_type = ''service'' \<and> str_true tool_id then find (service_row (the tool_id) service) rows
                     else find (user_row user_sub service) rows) of
            None \<Rightarrow> None
          | Some row \<Rightarrow>
              let kek_sub = (if cs_user_sub row = [] then user_sub else cs_user_sub row) in
              case decrypt cr (cs_blob row) kek_sub m service tool_id owner_type of Inl _ \<Rightarrow> None | Inr plaintext \<Rightarrow> Some plaintext)"

subsection \<open>Storing and retrieving by identifier\<close>

text \<open>The two partial unique indexes of migration V011.\<close>

definition same_key :: "credential_row \<Rightarrow> credential_row \<Rightarrow> bool" where
  "same_key r s =
     (cs_id r = cs_id s
      \<or> cs_owner_type r = Some ''user'' \<and> cs_owner_type s = Some ''user'' \<and> cs_user_sub r = cs_user_sub s \<and> cs_service r = cs_service s
      \<or> cs_owner_type r = Some ''service'' \<and> cs_owner_type s = Some ''service'' \<and> cs_tool_id r \<noteq> None
        \<and> cs_tool_id r = cs_tool_id s \<and> cs_service r = cs_service s)"

definition insert_credential :: "credential_row \<Rightarrow> credential_row list \<Rightarrow> credential_row list option" where
  "insert_credential r rows = (if list_ex (same_key r) rows then None else Some (rows @ [r]))"

definition store_credential ::
    "crypto \<Rightarrow> string \<Rightarrow> string \<Rightarrow> string \<Rightarrow> string option \<Rightarrow> bool \<Rightarrow> json \<Rightarrow> string \<Rightarrow> string \<Rightarrow> string \<Rightarrow> string \<Rightarrow> string option
     \<Rightarrow> credential_row list \<Rightarrow> (exn + string) \<times> credential_row list" where
  "store_credential cr salt nonce uuid master db credential_data credential_type owner_type user_sub service tool_id rows =
     (case master of
        None \<Rightarrow> (Inl (RuntimeError ''KMSError''), rows)
      | Some m \<Rightarrow>
          let blob = encrypt cr salt nonce (json_dumps credential_data) user_sub m service tool_id owner_type;
              row = \<lparr>cs_id = uuid, cs_user_sub = user_sub, cs_service = service, cs_tool_id = tool_id, cs_owner_type = Some owner_type,
                     cs_credential_type = credential_type, cs_blob = blob, cs_principal_type = None, cs_upn = None\<rparr> in
          if \<not> db then (Inl (RuntimeError ''database''), rows)
          else case insert_credential row rows of
            None \<Rightarrow> (Inl (RuntimeError ''unique violation''), rows)
          | Some rows' \<Rightarrow> (Inr uuid, rows'))"

definition retrieve_credential ::
    "crypto \<Rightarrow> string option \<Rightarrow> bool \<Rightarrow> credential_row list \<Rightarrow> string \<Rightarrow> string \<Rightarrow> string \<Rightarrow> string option \<Rightarrow> string \<Rightarrow> exn + json" where
  "retrieve_credential cr master db rows credential_id user_sub service tool_id owner_type =
     (case master of
        None \<Rightarrow> Inl (RuntimeError ''KMSError'')
      | Some m \<Rightarrow>
          if \<not> db then Inl (RuntimeError ''database'')
          else case find (\<lambda>r. cs_id r = credential_id) rows of
            None \<Rightarrow> Inl (KeyError credential_id)
          | Some row \<Rightarrow>
              if cs_user_sub row \<noteq> user_sub \<or> cs_service row \<noteq> service \<or> cs_tool_id row \<noteq> tool_id \<or> cs_owner_type row \<noteq> Some owner_type
              then Inl (ValueError ''Credential context mismatch; decryption would be insecure'')
              else case decrypt cr (cs_blob row) user_sub m service tool_id owner_type of
                Inl _ \<Rightarrow> Inl (RuntimeError ''decrypt'')
              | Inr plaintext \<Rightarrow> (case json_loads plaintext of None \<Rightarrow> Inl (ValueError ''JSONDecodeError'') | Some j \<Rightarrow> Inr j))"

subsection \<open>The administrator's handlers\<close>

text \<open>
  \<open>upload_credential\<close> and \<open>revoke_credential\<close> of \<^verbatim>\<open>proxy/app/routers/admin_credentials.py\<close>. \<open>tool\<close> is the row of \<open>tool_registry\<close> the
  handler reads; \<open>links\<close> are the \<open>credential_id\<close> columns of that table. Only the index of service rows is named in the \<open>ON CONFLICT\<close> clause of
  the insert: a second credential of a user for the same service violates the other index and is an error. The audit event
  that follows a change is not part of the model.
\<close>

datatype http_error = HTTPException int string

record CredentialUpload =
  up_secret :: string
  up_credential_type :: string
  up_owner_type :: string
  up_user_sub :: "string option"
  up_username :: "string option"

record upload_tool =
  ut_tool_id :: string
  ut_name :: string
  ut_service_name :: "string option"
  ut_entra_tenant_id :: "string option"
  ut_entra_client_id :: "string option"

record credential_tables =
  tb_rows :: "credential_row list"
  tb_links :: "string \<rightharpoonup> string"

definition upload_plaintext :: "CredentialUpload \<Rightarrow> upload_tool \<Rightarrow> http_error + string" where
  "upload_plaintext body tool =
     (if up_credential_type body = ''basic_auth''
      then (if \<not> str_true (up_username body) then Inl (HTTPException 400 ''VALIDATION_ERROR'')
            else if CHR '':'' \<in> set (the (up_username body)) then Inl (HTTPException 400 ''VALIDATION_ERROR'')
            else Inr (json_dumps (JObj [(''username'', JStr (the (up_username body))), (''secret'', JStr (up_secret body))])))
      else if up_credential_type body = ''entra_client_secret''
      then (if \<not> str_true (ut_entra_tenant_id tool) \<or> \<not> str_true (ut_entra_client_id tool) then Inl (HTTPException 400 ''VALIDATION_ERROR'')
            else Inr (json_dumps (JObj [(''tenant_id'', JStr (the (ut_entra_tenant_id tool))), (''client_id'', JStr (the (ut_entra_client_id tool))),
                   (''client_secret'', JStr (up_secret body))])))
      else Inr (up_secret body))"

text \<open>The insert with its conflict clause: the row's identifier and the new rows, or a violated constraint.\<close>

definition upsert_credential :: "credential_row \<Rightarrow> credential_row list \<Rightarrow> (string \<times> credential_row list) option" where
  "upsert_credential r rows =
     (if cs_owner_type r \<notin> {Some ''service'', Some ''user''} then None
      else if cs_owner_type r = Some ''service'' \<and> find (service_row (the (cs_tool_id r)) (cs_service r)) rows \<noteq> None
      then let old = the (find (service_row (the (cs_tool_id r)) (cs_service r)) rows) in
           Some (cs_id old, map (\<lambda>x. if service_row (the (cs_tool_id r)) (cs_service r) x
                                     then x\<lparr>cs_blob := cs_blob r, cs_credential_type := cs_credential_type r\<rparr> else x) rows)
      else map_option (Pair (cs_id r)) (insert_credential r rows))"

definition upload_credential ::
    "crypto \<Rightarrow> string \<Rightarrow> string \<Rightarrow> string \<Rightarrow> string option \<Rightarrow> bool \<Rightarrow> string list \<Rightarrow> upload_tool option \<Rightarrow> CredentialUpload
     \<Rightarrow> credential_tables \<Rightarrow> (http_error + string) \<times> credential_tables" where
  "upload_credential cr salt nonce uuid master db client_roles tool_row body tb =
     (if ''admin'' \<notin> set client_roles then (Inl (HTTPException 403 ''FORBIDDEN''), tb)
      else if \<not> db then (Inl (HTTPException 500 ''INTERNAL_ERROR''), tb)
      else case tool_row of
        None \<Rightarrow> (Inl (HTTPException 404 ''NOT_FOUND''), tb)
      | Some tool \<Rightarrow>
          let service_name = str_or (ut_service_name tool) (ut_name tool); owner_type = up_owner_type body;
              user_sub = (if owner_type = ''service'' then ''__service__'' else str_or (up_user_sub body) []) in
          if owner_type = ''user'' \<and> user_sub = [] then (Inl (HTTPException 400 ''VALIDATION_ERROR''), tb)
          else case upload_plaintext body tool of
            Inl e \<Rightarrow> (Inl e, tb)
          | Inr plaintext \<Rightarrow>
              (case master of
                 None \<Rightarrow> (Inl (HTTPException 500 ''ENCRYPTION_ERROR''), tb)
               | Some m \<Rightarrow>
                   let blob = encrypt cr salt nonce plaintext user_sub m service_name (Some (ut_tool_id tool)) owner_type;
                       row = \<lparr>cs_id = uuid, cs_user_sub = user_sub, cs_service = service_name, cs_tool_id = Some (ut_tool_id tool),
                              cs_owner_type = Some owner_type, cs_credential_type = up_credential_type body, cs_blob = blob,
                              cs_principal_type = None, cs_upn = None\<rparr> in
                   (case upsert_credential row (tb_rows tb) of
                      None \<Rightarrow> (Inl (HTTPException 500 ''INTERNAL_ERROR''), tb)
                    | Some (credential_id, rows) \<Rightarrow>
                        (Inr credential_id, tb\<lparr>tb_rows := rows,
                           tb_links := (if owner_type = ''service'' then (tb_links tb)(ut_tool_id tool \<mapsto> credential_id) else tb_links tb)\<rparr>))))"

definition revoke_credential ::
    "bool \<Rightarrow> string list \<Rightarrow> string \<Rightarrow> string \<Rightarrow> string option \<Rightarrow> credential_row list \<Rightarrow> (http_error + nat) \<times> credential_row list" where
  "revoke_credential db client_roles tool_id owner_type user_sub rows =
     (let owner = (if owner_type = ''service'' then ''__service__'' else str_or user_sub []);
          hit = (\<lambda>r. cs_tool_id r = Some tool_id \<and> cs_owner_type r = Some owner_type \<and> cs_user_sub r = owner) in
      if ''admin'' \<notin> set client_roles then (Inl (HTTPException 403 ''FORBIDDEN''), rows)
      else if owner_type = ''user'' \<and> \<not> str_true user_sub then (Inl (HTTPException 422 ''VALIDATION_ERROR''), rows)
      else if \<not> db \<or> owner_type \<notin> {''service'', ''user''} then (Inl (HTTPException 500 ''INTERNAL_ERROR''), rows)
      else (Inr (length (filter hit rows)), filter (\<lambda>r. \<not> hit r) rows))"

subsection \<open>The codec is sound\<close>

lemma utf8_Nil [simp]: "utf8 [] = []"
  by (simp add: utf8_def)

lemma utf8_append: "utf8 (s @ t) = utf8 s @ utf8 t"
  by (simp add: utf8_def)

lemma utf8_decode_pair:
  assumes "of_char a = (i :: int)" and "of_char b = (j :: int)" and "194 \<le> i" and "i \<le> 195" and "128 \<le> j" and "j < 192"
  shows "utf8_decode (a # b # s) = map_option (Cons (char_of ((i - 192) * 64 + (j - 128)))) (utf8_decode s)"
  using assms by simp

lemma utf8_decode_wide:
  assumes "\<not> (of_char c :: int) < 128"
  shows "utf8_decode (char_of (192 + (of_char c :: int) div 64) # char_of (128 + (of_char c :: int) mod 64) # s) = map_option (Cons c) (utf8_decode s)"
proof -
  define n where "n = (of_char c :: int)"
  have r: "128 \<le> n" "n < 256" using assms of_char_byte[of c] by (simp_all add: n_def)
  then have d: "2 \<le> n div 64" "n div 64 \<le> 3" by linarith+
  have m: "0 \<le> n mod 64" "n mod 64 < 64" by simp_all
  have hi: "of_char (char_of (192 + n div 64)) = 192 + n div 64" using d by (simp only: of_char_of) simp
  have lo: "of_char (char_of (128 + n mod 64)) = 128 + n mod 64" using m by (simp only: of_char_of) simp
  have "(192 + n div 64 - 192) * 64 + (128 + n mod 64 - 128) = n" using mult_div_mod_eq[of 64 n] by (simp add: algebra_simps)
  moreover have "char_of n = c" by (simp add: n_def)
  ultimately have "char_of ((192 + n div 64 - 192) * 64 + (128 + n mod 64 - 128)) = c" by (simp only:)
  moreover have "194 \<le> 192 + n div 64" "192 + n div 64 \<le> 195" "128 \<le> 128 + n mod 64" "128 + n mod 64 < 192" using d m by linarith+
  ultimately show ?thesis unfolding n_def[symmetric] using utf8_decode_pair[OF hi lo] by (simp only:)
qed

lemma utf8_Cons:
  "utf8 (c # s) = (if (of_char c :: int) < 128 then c # utf8 s
     else char_of (192 + (of_char c :: int) div 64) # char_of (128 + (of_char c :: int) mod 64) # utf8 s)"
  unfolding utf8_def by (simp only: list.map concat.simps if_distrib[of "\<lambda>x. x @ _"] append_Cons append_Nil)

lemma utf8_decode_encode: "utf8_decode (utf8 s) = Some s"
proof (induction s)
  case (Cons c s)
  show ?case
  proof (cases "(of_char c :: int) < 128")
    case True
    then show ?thesis by (simp only: utf8_Cons if_True utf8_decode.simps(2) Cons option.map)
  next
    case False
    then show ?thesis by (simp only: utf8_Cons if_False utf8_decode_wide[OF False] Cons option.map)
  qed
qed simp

lemma utf8_inj: "utf8 s = utf8 t \<Longrightarrow> s = t"
  by (metis utf8_decode_encode option.inject)

lemma aesgcmD:
  assumes "aesgcm_ok cr"
  shows "aesgcm_decrypt cr k n c a = Some p \<longleftrightarrow> c = aesgcm_encrypt cr k n p a" and "length (aesgcm_encrypt cr k n p a) = length p + 16"
  using assms by (simp_all add: aesgcm_ok_def)

lemma utf8_of_pair:
  assumes "194 \<le> (of_char c :: int)" and "(of_char c :: int) \<le> 195" and "128 \<le> (of_char d :: int)" and "(of_char d :: int) < 192"
  shows "utf8 (char_of ((of_char c - 192) * 64 + (of_char d - 128 :: int)) # s) = c # d # utf8 s"
proof -
  define i j where "i = (of_char c :: int)" and "j = (of_char d :: int)"
  define n where "n = (i - 192) * 64 + (j - 128)"
  have r: "194 \<le> i" "i \<le> 195" "128 \<le> j" "j < 192" using assms by (simp_all add: i_def j_def)
  then have n: "n div 64 = i - 192" "n mod 64 = j - 128" "128 \<le> n" "n < 256"
    by (simp_all add: n_def int_div_pos_eq[where r = "j - 128"] int_mod_pos_eq[where q = "i - 192"])
  have "(of_char (char_of n) :: int) = n" using n(3,4) by (simp only: of_char_of) simp
  then have "utf8 (char_of n # s) = char_of (192 + n div 64) # char_of (128 + n mod 64) # utf8 s" using n(3) by (simp only: utf8_Cons) simp
  also have "\<dots> = c # d # utf8 s" by (simp only: n) (simp add: i_def j_def)
  finally show ?thesis by (simp only: n_def i_def j_def)
qed

lemma utf8_encode_decode: "utf8_decode b = Some s \<Longrightarrow> utf8 s = b"
proof (induction b arbitrary: s rule: utf8_decode.induct)
  case (2 c b)
  show ?case
  proof (cases "(of_char c :: int) < 128")
    case True
    with 2(3) obtain u where "utf8_decode b = Some u" "s = c # u" by (simp only: utf8_decode.simps(2) if_True) blast
    with 2(1)[OF True] True show ?thesis by (simp only: utf8_Cons if_True)
  next
    case False
    with 2(3) obtain d b' where b: "b = d # b'" by (cases b) simp_all
    let ?ok = "194 \<le> (of_char c :: int) \<and> (of_char c :: int) \<le> 195 \<and> 128 \<le> (of_char d :: int) \<and> (of_char d :: int) < 192"
    from 2(3) False have ok: "?ok" unfolding b by (simp only: utf8_decode.simps(2) if_False list.case split: if_splits) simp
    from 2(3) False have "map_option (Cons (char_of ((of_char c - 192) * 64 + (of_char d - 128 :: int)))) (utf8_decode b') = Some s"
      unfolding b by (simp only: utf8_decode.simps(2)[of c] if_False list.case ok simp_thms if_True)
    then obtain u where u: "utf8_decode b' = Some u" "s = char_of ((of_char c - 192) * 64 + (of_char d - 128 :: int)) # u"
      by (cases "utf8_decode b'") auto
    with 2(2)[OF False b ok] show ?thesis unfolding b using utf8_of_pair[of c d u] ok by simp
  qed
qed simp

lemma decrypt_iff:
  assumes "aesgcm_ok cr"
  shows "decrypt cr blob user_sub m service tool_id owner_type = Inr p \<longleftrightarrow>
    (\<exists>salt nonce. length salt = SALT_SIZE \<and> length nonce = NONCE_SIZE
       \<and> blob = encrypt cr salt nonce p user_sub m service tool_id owner_type)" (is "?l = ?r")
proof
  let ?salt = "take SALT_SIZE blob" and ?nonce = "take NONCE_SIZE (drop SALT_SIZE blob)" and ?ct = "drop (SALT_SIZE + NONCE_SIZE) blob"
  let ?kek = "derive_kek cr user_sub m ?salt" and ?aad = "make_aad user_sub service tool_id owner_type"
  assume l: ?l
  then have len: "SALT_SIZE + NONCE_SIZE < length blob" by (simp add: decrypt_def split: if_splits)
  with l obtain data where d: "aesgcm_decrypt cr ?kek ?nonce ?ct ?aad = Some data" "utf8_decode data = Some p"
    by (auto simp: decrypt_def Let_def split: option.splits if_splits)
  then have "?ct = aesgcm_encrypt cr ?kek ?nonce (utf8 p) ?aad" using aesgcmD(1)[OF assms] utf8_encode_decode[OF d(2)] by simp
  moreover have "blob = ?salt @ ?nonce @ ?ct" by (metis append_take_drop_id drop_drop add.commute)
  ultimately have "blob = encrypt cr ?salt ?nonce p user_sub m service tool_id owner_type" by (simp add: encrypt_def)
  moreover have "length ?salt = SALT_SIZE" "length ?nonce = NONCE_SIZE" using len by simp_all
  ultimately show ?r by blast
next
  assume ?r
  then obtain salt nonce where s: "length salt = SALT_SIZE" "length nonce = NONCE_SIZE"
    and b: "blob = encrypt cr salt nonce p user_sub m service tool_id owner_type" by blast
  let ?ct = "aesgcm_encrypt cr (derive_kek cr user_sub m salt) nonce (utf8 p) (make_aad user_sub service tool_id owner_type)"
  have parts: "blob = salt @ nonce @ ?ct" "0 < length ?ct" using aesgcmD(2)[OF assms] by (simp_all add: b encrypt_def)
  then have "take SALT_SIZE blob = salt" "take NONCE_SIZE (drop SALT_SIZE blob) = nonce" "drop (SALT_SIZE + NONCE_SIZE) blob = ?ct"
    "\<not> length blob < SALT_SIZE + NONCE_SIZE + 1" using s by simp_all
  moreover have "aesgcm_decrypt cr (derive_kek cr user_sub m salt) nonce ?ct (make_aad user_sub service tool_id owner_type) = Some (utf8 p)"
    using aesgcmD(1)[OF assms] by simp
  ultimately show ?l by (simp add: decrypt_def Let_def utf8_decode_encode)
qed

lemma first_separator:
  "c \<notin> set a \<Longrightarrow> c \<notin> set b \<Longrightarrow> a @ c # x = b @ c # y \<Longrightarrow> a = b \<and> x = y"
  by (induction a arbitrary: b) (auto simp: Cons_eq_append_conv)

lemma last_separator:
  assumes "xs @ c # t = ys @ c # t'" and "c \<notin> set t" and "c \<notin> set t'"
  shows "xs = ys \<and> t = t'"
proof -
  from assms(1) have "rev (xs @ c # t) = rev (ys @ c # t')" by simp
  then show ?thesis using first_separator[of c "rev t" "rev t'" "rev xs" "rev ys"] assms(2,3) by simp
qed

text \<open>
  The key and the associated data together determine the context of a credential: the owner is part of the key's
  derivation, tool identifiers and owner types have no separator, and an absent tool is the empty one.
\<close>

lemma context_determined:
  assumes "kek_info u = kek_info u'" and "make_aad u s t k = make_aad u' s' t' k'"
    and "CHR ''|'' \<notin> set (str_or t []) \<union> set (str_or t' []) \<union> set k \<union> set k'"
  shows "u = u' \<and> s = s' \<and> str_or t [] = str_or t' [] \<and> k = k'"
proof -
  have u: "u = u'" using assms(1) by (auto simp: kek_info_def intro: utf8_inj)
  have "(AAD_PREFIX @ ''|'' @ u @ ''|'' @ s @ ''|'' @ str_or t []) @ CHR ''|'' # k =
    (AAD_PREFIX @ ''|'' @ u' @ ''|'' @ s' @ ''|'' @ str_or t' []) @ CHR ''|'' # k'"
    using utf8_inj[OF assms(2)[unfolded make_aad_def]] by simp
  from last_separator[OF this] assms(3) have k: "k = k'" and
    eq: "AAD_PREFIX @ ''|'' @ u @ ''|'' @ s @ ''|'' @ str_or t [] = AAD_PREFIX @ ''|'' @ u' @ ''|'' @ s' @ ''|'' @ str_or t' []"
    by blast+
  from eq have "(AAD_PREFIX @ ''|'' @ u @ ''|'' @ s) @ CHR ''|'' # str_or t [] = (AAD_PREFIX @ ''|'' @ u' @ ''|'' @ s') @ CHR ''|'' # str_or t' []"
    by simp
  from last_separator[OF this] assms(3)
  have "AAD_PREFIX @ ''|'' @ u @ ''|'' @ s = AAD_PREFIX @ ''|'' @ u' @ ''|'' @ s'" "str_or t [] = str_or t' []" by blast+
  with u k show ?thesis by simp
qed

subsection \<open>Rows and keys\<close>

text \<open>No two rows share a key, so a query that takes one row has no choice.\<close>

definition keys_unique :: "credential_row list \<Rightarrow> bool" where
  "keys_unique rows \<longleftrightarrow> (\<forall>i j. i < j \<longrightarrow> j < length rows \<longrightarrow> \<not> same_key (rows ! i) (rows ! j))"

lemma same_key_sym: "same_key r s = same_key s r"
  by (auto simp: same_key_def)

lemma keys_unique_snoc: "keys_unique (rows @ [r]) \<longleftrightarrow> keys_unique rows \<and> \<not> list_ex (same_key r) rows"
  by (auto simp: keys_unique_def nth_append list_ex_length less_Suc_eq same_key_sym)

lemma keys_unique_same:
  assumes "keys_unique rows" and "r \<in> set rows" and "s \<in> set rows" and "same_key r s"
  shows "r = s"
proof -
  from assms(2,3) obtain i j where i: "i < length rows" "r = rows ! i" and j: "j < length rows" "s = rows ! j" by (auto simp: in_set_conv_nth)
  have "\<not> i < j" using assms(1,4) i j by (auto simp: keys_unique_def)
  moreover have "\<not> j < i" using assms(1,4) i j same_key_sym[of r s] by (auto simp: keys_unique_def)
  ultimately show ?thesis using i j by simp
qed

lemma service_row_key: "service_row t s r \<Longrightarrow> service_row t s r' \<Longrightarrow> same_key r r'"
  by (auto simp: service_row_def same_key_def)

lemma find_service_row:
  assumes "keys_unique rows" and "r \<in> set rows" and "service_row t s r"
  shows "find (service_row t s) rows = Some r"
proof -
  from assms(2,3) obtain r' where f: "find (service_row t s) rows = Some r'"
    using find_None_iff_not[of "service_row t s" rows] by (cases "find (service_row t s) rows") auto
  from find_Some_set[OF f] have "r' \<in> set rows" "service_row t s r'" by simp_all
  with keys_unique_same[OF assms(1) _ assms(2)] service_row_key assms(3) f show ?thesis by blast
qed


lemma find_fresh: "\<not> list_ex P xs \<Longrightarrow> P x \<Longrightarrow> find P (xs @ [x]) = Some x"
  by (induction xs) auto

lemma sort_json_False [simp]: "sort_json False j = j"
proof (induction j)
  case (JArr xs)
  then show ?case by (simp add: map_idI)
next
  case (JObj kvs)
  have "map (\<lambda>kv. (fst kv, sort_json False (snd kv))) kvs = kvs"
    by (rule map_idI) (use JObj in \<open>auto simp: prod_eq_iff\<close>)
  then show ?case by (simp add: Let_def)
qed simp_all

lemma json_loads_json_dumps: "plain_json j \<Longrightarrow> json_loads (json_dumps j) = Some j"
  unfolding json_dumps_def by (subst json_loads_dumps) (simp_all add: separator_def is_ws_def)

text \<open>
  Property C17. A stored credential comes out as it went in. When \<open>store_credential\<close> returns an identifier, \<open>retrieve_credential\<close> of that
  identifier, in the same context and under the same master secret, returns the very dictionary that was stored; in any other
  context it raises.
\<close>

theorem stored_credential_is_retrieved:
  assumes "aesgcm_ok cr" and "length salt = SALT_SIZE" and "length nonce = NONCE_SIZE" and "plain_json credential_data"
    and "store_credential cr salt nonce uuid (Some m) True credential_data credential_type owner_type user_sub service tool_id rows = (Inr cid, rows')"
  shows "retrieve_credential cr (Some m) True rows' cid user_sub service tool_id owner_type = Inr credential_data
    \<and> ((user_sub', service', tool_id', owner_type') \<noteq> (user_sub, service, tool_id, owner_type) \<longrightarrow>
       isl (retrieve_credential cr (Some m) True rows' cid user_sub' service' tool_id' owner_type'))"
proof -
  let ?blob = "encrypt cr salt nonce (json_dumps credential_data) user_sub m service tool_id owner_type"
  obtain row where r: "cid = uuid" "rows' = rows @ [row]" "\<not> list_ex (same_key row) rows" "cs_id row = uuid" "cs_user_sub row = user_sub"
    "cs_service row = service" "cs_tool_id row = tool_id" "cs_owner_type row = Some owner_type" "cs_blob row = ?blob"
    using assms(5) by (auto simp: store_credential_def insert_credential_def Let_def split: option.splits if_splits)
  then have "\<not> list_ex (\<lambda>s. cs_id s = uuid) rows" by (auto simp: list_ex_iff same_key_def)
  with r have f: "find (\<lambda>s. cs_id s = cid) rows' = Some row" by (simp add: find_fresh)
  have "decrypt cr ?blob user_sub m service tool_id owner_type = Inr (json_dumps credential_data)"
    using decrypt_iff[OF assms(1)] assms(2,3) by blast
  with r f json_loads_json_dumps[OF assms(4)] show ?thesis by (auto simp: retrieve_credential_def)
qed

text \<open>
  Property C16. A credential cannot be moved. A blob made for one owner, service, tool and owner type decrypts under another context only
  where two different pairs of derivation input and associated data have the same AES-GCM output: swapping blobs between rows
  needs a forgery. (Tool identifiers and owner types have no separator.)
\<close>

theorem moved_credential_needs_forgery:
  assumes "aesgcm_ok cr" and "length salt = SALT_SIZE" and "length nonce = NONCE_SIZE"
    and "CHR ''|'' \<notin> set (str_or t []) \<union> set (str_or t' []) \<union> set k \<union> set k'"
    and "decrypt cr (encrypt cr salt nonce p u m s t k) u' m s' t' k' = Inr p'"
  shows "(u = u' \<and> s = s' \<and> str_or t [] = str_or t' [] \<and> k = k' \<and> p = p')
    \<or> ((kek_info u, make_aad u s t k) \<noteq> (kek_info u', make_aad u' s' t' k')
       \<and> aesgcm_encrypt cr (hkdf_derive cr salt (kek_info u) m) nonce (utf8 p) (make_aad u s t k)
         = aesgcm_encrypt cr (hkdf_derive cr salt (kek_info u') m) nonce (utf8 p') (make_aad u' s' t' k'))"
proof -
  let ?enc = "\<lambda>u p s t k. aesgcm_encrypt cr (hkdf_derive cr salt (kek_info u) m) nonce (utf8 p) (make_aad u s t k)"
  from assms(5) obtain salt' nonce' where "length salt' = SALT_SIZE" "length nonce' = NONCE_SIZE"
    "encrypt cr salt nonce p u m s t k = encrypt cr salt' nonce' p' u' m s' t' k'" unfolding decrypt_iff[OF assms(1)] by blast
  with assms(2,3) have c: "?enc u p s t k = ?enc u' p' s' t' k'" by (auto simp: encrypt_def derive_kek_def Let_def)
  show ?thesis
  proof (cases "(kek_info u, make_aad u s t k) = (kek_info u', make_aad u' s' t' k')")
    case True
    then have ia: "kek_info u = kek_info u'" "make_aad u s t k = make_aad u' s' t' k'" by (simp_all only: prod.inject)
    have "aesgcm_decrypt cr (hkdf_derive cr salt (kek_info u) m) nonce (?enc u p s t k) (make_aad u s t k) = Some q \<longleftrightarrow>
        ?enc u p s t k = aesgcm_encrypt cr (hkdf_derive cr salt (kek_info u) m) nonce q (make_aad u s t k)" for q
      by (rule aesgcmD(1)[OF assms(1)])
    from this[of "utf8 p"] this[of "utf8 p'"] c ia have "Some (utf8 p) = Some (utf8 p')" by (simp only: simp_thms)
    then have "p = p'" by (auto intro: utf8_inj)
    moreover note context_determined[OF ia assms(4)]
    ultimately show ?thesis by blast
  qed (use c in blast)
qed

subsection \<open>Instances\<close>

text \<open>A cipher that satisfies the law, for the witnesses: the associated data's length is the tag.\<close>

definition example_tag :: "string \<Rightarrow> string" where
  "example_tag a = replicate 15 CHR ''t'' @ [char_of (length a)]"

definition example_crypto :: crypto where
  "example_crypto = \<lparr>hkdf_derive = (\<lambda>salt info secret. info), aesgcm_encrypt = (\<lambda>k n p a. p @ example_tag a),
     aesgcm_decrypt = (\<lambda>k n c a. if drop (length c - 16) c = example_tag a then Some (take (length c - 16) c) else None)\<rparr>"

lemma example_crypto_ok: "aesgcm_ok example_crypto"
proof -
  have l: "length (example_tag a) = 16" for a by (simp add: example_tag_def)
  have "(drop (length c - 16) c = example_tag a \<and> take (length c - 16) c = p) \<longleftrightarrow> c = p @ example_tag a" for c p a
    using l[of a] append_take_drop_id[of "length c - 16" c] by (metis add_diff_cancel_right' append_eq_conv_conj length_append)
  then show ?thesis using l by (auto simp: aesgcm_ok_def example_crypto_def)
qed

definition example_salt :: string where "example_salt = replicate SALT_SIZE CHR ''s''"

definition example_nonce :: string where "example_nonce = replicate NONCE_SIZE CHR ''n''"

lemma example_lengths [simp]: "length example_salt = SALT_SIZE" "length example_nonce = NONCE_SIZE"
  by (simp_all add: example_salt_def example_nonce_def)


theorem stored_credential_is_retrieved_witness:
  "\<exists>rows. retrieve_credential example_crypto (Some ''m'') True rows ''id1'' ''__service__'' ''gitea'' (Some ''t1'') ''service''
     = Inr (JObj [(''client_id'', JStr ''c'')])"
proof -
  let ?st = "store_credential example_crypto example_salt example_nonce ''id1'' (Some ''m'') True (JObj [(''client_id'', JStr ''c'')]) ''api_key''
    ''service'' ''__service__'' ''gitea'' (Some ''t1'') []"
  obtain r rows where st: "?st = (r, rows)" by (rule prod.exhaust)
  have "fst ?st = Inr ''id1''" by (simp add: store_credential_def insert_credential_def)
  with st have "r = Inr ''id1''" by (simp only: fst_conv)
  note st = st[unfolded this]
  have "plain_json (JObj [(''client_id'', JStr ''c'')])" by simp
  note got = stored_credential_is_retrieved[OF example_crypto_ok example_lengths this st, THEN conjunct1]
  show ?thesis by (rule exI[of _ rows]) (rule got)
qed

text \<open>The example cipher does have collisions, and then a blob can be moved.\<close>

theorem moved_credential_needs_forgery_witness:
  "decrypt example_crypto (encrypt example_crypto example_salt example_nonce ''tok'' ''alice'' ''m'' ''jira'' None ''user'')
     ''carol'' ''m'' ''jira'' None ''user'' = Inr ''tok''
   \<and> aesgcm_encrypt example_crypto (hkdf_derive example_crypto example_salt (kek_info ''alice'') ''m'') example_nonce (utf8 ''tok'')
       (make_aad ''alice'' ''jira'' None ''user'')
     = aesgcm_encrypt example_crypto (hkdf_derive example_crypto example_salt (kek_info ''carol'') ''m'') example_nonce (utf8 ''tok'')
       (make_aad ''carol'' ''jira'' None ''user'')"
proof -
  have "encrypt example_crypto example_salt example_nonce ''tok'' ''alice'' ''m'' ''jira'' None ''user''
      = encrypt example_crypto example_salt example_nonce ''tok'' ''carol'' ''m'' ''jira'' None ''user''"
    by (simp add: encrypt_def example_crypto_def example_tag_def make_aad_def utf8_def AAD_PREFIX_def)
  then have d: "decrypt example_crypto (encrypt example_crypto example_salt example_nonce ''tok'' ''alice'' ''m'' ''jira'' None ''user'')
     ''carol'' ''m'' ''jira'' None ''user'' = Inr ''tok''" unfolding decrypt_iff[OF example_crypto_ok] using example_lengths by (intro exI conjI)
  have "CHR ''|'' \<notin> set (str_or None []) \<union> set (str_or None []) \<union> set ''user'' \<union> set ''user''" by simp
  note forged = moved_credential_needs_forgery[OF example_crypto_ok example_lengths this d]
  have "''alice'' \<noteq> ''carol''" by simp
  with forged d show ?thesis by (elim disjE conjE) (erule notE, assumption, intro conjI)
qed

end
