(* ===== verification/Base64.thy ===== *)
theory Base64
  imports Prelude
begin

section \<open>Base64\<close>

text \<open>
  \<open>base64.b64encode\<close>, which builds the value of a Basic header, and the reader a server applies to it. Bytes are characters.
\<close>

text \<open>\<open>base64.b64encode\<close>.\<close>

definition b64_alphabet :: string where
  "b64_alphabet = ''ABCDEFGHIJKLMNOPQRSTUVWXYZabcdefghijklmnopqrstuvwxyz0123456789+/''"

definition b64_digit :: "nat \<Rightarrow> char" where "b64_digit n = b64_alphabet ! n"

fun b64encode :: "string \<Rightarrow> string" where
  "b64encode [] = []"
| "b64encode [a] = (let x = of_char a :: nat in [b64_digit (x div 4), b64_digit (x mod 4 * 16), CHR ''='', CHR ''=''])"
| "b64encode [a, b] = (let x = of_char a :: nat; y = of_char b in
     [b64_digit (x div 4), b64_digit (x mod 4 * 16 + y div 16), b64_digit (y mod 16 * 4), CHR ''=''])"
| "b64encode (a # b # c # s) = (let x = of_char a :: nat; y = of_char b; z = of_char c in
     b64_digit (x div 4) # b64_digit (x mod 4 * 16 + y div 16) # b64_digit (y mod 16 * 4 + z div 64) # b64_digit (z mod 64) # b64encode s)"

text \<open>The reader of base64 text, and that it inverts the encoder.\<close>

definition b64_value :: "char \<Rightarrow> nat option" where
  "b64_value c = (let i = length (takeWhile (\<lambda>x. x \<noteq> c) b64_alphabet) in if i < 64 then Some i else None)"

fun b64decode :: "string \<Rightarrow> string option" where
  "b64decode [] = Some []"
| "b64decode (p # q # r # s # rest) =
     (case (b64_value p, b64_value q) of
        (Some a, Some b) \<Rightarrow>
          if r = CHR ''='' \<and> s = CHR ''='' \<and> rest = [] then Some [char_of (a * 4 + b div 16)]
          else (case b64_value r of
            None \<Rightarrow> None
          | Some c \<Rightarrow>
              if s = CHR ''='' \<and> rest = [] then Some [char_of (a * 4 + b div 16), char_of (b mod 16 * 16 + c div 4)]
              else (case b64_value s of
                None \<Rightarrow> None
              | Some d \<Rightarrow> map_option (\<lambda>t. char_of (a * 4 + b div 16) # char_of (b mod 16 * 16 + c div 4) # char_of (c mod 4 * 64 + d) # t) (b64decode rest)))
      | _ \<Rightarrow> None)"
| "b64decode _ = None"

lemma b64_value_digit: "n < 64 \<Longrightarrow> b64_value (b64_digit n) = Some n \<and> b64_digit n \<noteq> CHR ''=''"
proof -
  have "list_all (\<lambda>n. b64_value (b64_digit n) = Some n \<and> b64_digit n \<noteq> CHR ''='') [0..<64]" by code_simp
  then show "n < 64 \<Longrightarrow> ?thesis" by (simp add: list_all_iff)
qed

lemma of_char_less_256: "(of_char c :: nat) < 256"
proof -
  have "(of_char c :: nat) = of_char c mod 256" by simp
  also have "\<dots> < 256" by simp
  finally show ?thesis .
qed

lemma digits_split:
  "(v :: nat) < 16 \<Longrightarrow> (u * 16 + v) div 16 = u \<and> (u * 16 + v) mod 16 = v"
  "(w :: nat) < 4 \<Longrightarrow> (u * 4 + w) div 4 = u \<and> (u * 4 + w) mod 4 = w"
  by simp_all

lemma decode_two:
  "a < 64 \<Longrightarrow> b < 64 \<Longrightarrow> b64decode [b64_digit a, b64_digit b, CHR ''='', CHR ''=''] = Some [char_of (a * 4 + b div 16)]"
  by (simp add: b64_value_digit)

lemma decode_three:
  "a < 64 \<Longrightarrow> b < 64 \<Longrightarrow> c < 64 \<Longrightarrow>
     b64decode [b64_digit a, b64_digit b, b64_digit c, CHR ''=''] = Some [char_of (a * 4 + b div 16), char_of (b mod 16 * 16 + c div 4)]"
  by (simp add: b64_value_digit)

lemma decode_four:
  "a < 64 \<Longrightarrow> b < 64 \<Longrightarrow> c < 64 \<Longrightarrow> d < 64 \<Longrightarrow>
     b64decode (b64_digit a # b64_digit b # b64_digit c # b64_digit d # rest) =
     map_option (\<lambda>t. char_of (a * 4 + b div 16) # char_of (b mod 16 * 16 + c div 4) # char_of (c mod 4 * 64 + d) # t) (b64decode rest)"
  by (simp add: b64_value_digit)

lemma byte_parts:
  assumes "x < (256 :: nat)"
  shows "x div 4 < 64" "x mod 4 < 4" "x div 4 * 4 + x mod 4 = x" "x div 16 < 16" "x mod 16 < 16" "x mod 16 + x div 16 * 16 = x"
    "x div 64 < 4" "x mod 64 < 64" "x div 64 * 64 + x mod 64 = x"
  using assms by (simp_all add: less_mult_imp_div_less)

lemma b64decode_encode: "b64decode (b64encode s) = Some s"
proof (induction s rule: b64encode.induct)
  case (2 a)
  define x where "x = (of_char a :: nat)"
  have x: "x < 256" "char_of x = a" by (simp_all add: x_def of_char_less_256)
  note p = byte_parts[OF x(1)]
  have "x mod 4 * 16 < 64" using p(2) by linarith
  moreover have "x mod 4 * 16 div 16 = x mod 4" by (rule nonzero_mult_div_cancel_right) simp
  ultimately show ?case unfolding b64encode.simps x_def[symmetric] Let_def by (simp only: decode_two p x)
next
  case (3 a b)
  define x y where "x = (of_char a :: nat)" and "y = (of_char b :: nat)"
  have x: "x < 256" "char_of x = a" "y < 256" "char_of y = b" by (simp_all add: x_def y_def of_char_less_256)
  note p = byte_parts[OF x(1)] and q = byte_parts[OF x(3)]
  have d: "x mod 4 * 16 + y div 16 < 64" "y mod 16 * 4 < 64" using p(2) q(4,5) by linarith+
  have m: "y mod 16 * 4 div 4 = y mod 16" by (rule nonzero_mult_div_cancel_right) simp
  have y: "y div 16 * 16 + y mod 16 = y" by simp
  show ?case unfolding b64encode.simps x_def[symmetric] y_def[symmetric] Let_def
    by (simp only: decode_three[OF p(1) d] digits_split(1)[OF q(4)] m p(3) y x)
next
  case (4 a b c s)
  define x y z where "x = (of_char a :: nat)" and "y = (of_char b :: nat)" and "z = (of_char c :: nat)"
  have x: "x < 256" "char_of x = a" "y < 256" "char_of y = b" "z < 256" "char_of z = c" by (simp_all add: x_def y_def z_def of_char_less_256)
  note p = byte_parts[OF x(1)] and q = byte_parts[OF x(3)] and r = byte_parts[OF x(5)]
  have d: "x mod 4 * 16 + y div 16 < 64" "y mod 16 * 4 + z div 64 < 64" using p(2) q(4,5) r(7) by linarith+
  have y: "y div 16 * 16 + y mod 16 = y" by simp
  show ?case unfolding b64encode.simps x_def[symmetric] y_def[symmetric] z_def[symmetric] Let_def
    by (simp only: decode_four[OF p(1) d r(8)] digits_split(1)[OF q(4)] digits_split(2)[OF r(7)] p(3) y r(9) x 4 option.map)
qed simp

end
