(* ===== verification/Dispatcher.thy ===== *)
theory Dispatcher
  imports CredStore PyRegex Base64
begin

section \<open>Credential injection\<close>

text \<open>
  \<^verbatim>\<open>proxy/app/credential_broker/dispatcher.py\<close>: \<open>dispatch_credential_injection\<close> and the helper of each injection mode;
  \<^verbatim>\<open>principal_resolution.py\<close>: whose stored credential a caller may use; \<^verbatim>\<open>broker.py\<close>: the refresh of a delegated token;
  \<^verbatim>\<open>keycloak_client.py\<close>: the cached token requests; \<^verbatim>\<open>token_assert.py\<close>; and the scope check of
  \<^verbatim>\<open>proxy/app/services/oauth_policy.py\<close>.

  The state is the rows of \<open>credential_store\<close> and Redis. Identity providers, the JWT library and the adapters are
  fields of the environment: what a token endpoint answers, what the claims of a token are, whether a signature verifies.
  An answer of a token endpoint is its JSON, or \<open>None\<close> when the request, its status or its body fails.
\<close>

subsection \<open>Environment, state and errors\<close>

text \<open>The columns of a tool that injection reads; \<open>None\<close> is a missing key or a null.\<close>

record cred_tool =
  ct_tool_id :: "string option"
  ct_name :: "string option"
  ct_server_id :: "string option"
  ct_injection_mode :: "string option"
  ct_server_default_injection_mode :: "string option"
  ct_service_name :: "string option"
  ct_inject_header :: "string option"
  ct_inject_prefix :: "string option"
  ct_kc_client_id :: "string option"
  ct_kc_token_audience :: "string option"
  ct_credential_id :: "string option"

text \<open>The authenticated caller.\<close>

record caller =
  cl_client_id :: string
  cl_kc_token :: "string option"
  cl_principal_id :: "string option"
  cl_principal_type :: "string option"

datatype cred_query = QOwner | QCredential | QStored | QResolve | QUpn | QApprovedConfig

datatype refresh_outcome = Refreshed string string | TokenExchangeError int | RefreshRaised

record cred_env =
  cd_crypto :: crypto
  cd_salt :: string   \<comment> \<open>of a re-encryption\<close>
  cd_nonce :: string
  cd_broker :: bool   \<comment> \<open>\<open>broker_instance\<close> is set\<close>
  cd_master :: "string option"   \<comment> \<open>the master secret, where the KMS answers\<close>
  cd_db :: "cred_query \<Rightarrow> bool"
  cd_world :: world
  cd_base_url :: string   \<comment> \<open>\<open>PROXY_BASE_URL.rstrip("/")\<close>\<close>
  cd_allowed_audiences :: "string list"
  cd_allowed_scopes :: "string list"
  cd_exchange_enabled :: bool
  cd_sa_endpoint :: "string \<Rightarrow> string \<Rightarrow> string \<Rightarrow> json option"   \<comment> \<open>client, secret, scope\<close>
  cd_exchange_endpoint :: "string \<Rightarrow> string \<Rightarrow> json option"   \<comment> \<open>subject token, audience\<close>
  cd_entra_endpoint :: "string \<Rightarrow> string \<Rightarrow> string \<Rightarrow> json option"   \<comment> \<open>tenant, client, secret\<close>
  cd_oauth_endpoint :: "string \<Rightarrow> (string \<times> string) list \<Rightarrow> (string \<times> string) option \<Rightarrow> json option"   \<comment> \<open>URL, form, basic credentials\<close>
  cd_unverified :: "string \<Rightarrow> json option"   \<comment> \<open>claims without verification\<close>
  cd_key_id :: "string \<Rightarrow> string option option"   \<comment> \<open>\<open>kid\<close> of a token's header, where the header parses\<close>
  cd_jwks :: "(string option \<times> string) list"   \<comment> \<open>\<open>kid\<close> and key; empty when the fetch fails\<close>
  cd_jwt_decode :: "string \<Rightarrow> string \<Rightarrow> string \<Rightarrow> json option"   \<comment> \<open>key, token, audience: verified claims\<close>
  cd_adapter :: "string \<Rightarrow> (string \<Rightarrow> refresh_outcome) option"   \<comment> \<open>the adapter of a service\<close>
  cd_approved :: "string \<Rightarrow> (json \<times> json) option"   \<comment> \<open>\<open>approved_upstream_idp_config\<close>, \<open>approved_oauth_scopes\<close>\<close>
  cd_float :: "string \<Rightarrow> rat"   \<comment> \<open>value and text of floats\<close>
  cd_float_text :: "rat \<Rightarrow> string"
  cd_str :: "json \<Rightarrow> string"   \<comment> \<open>\<open>str()\<close> of what is not text\<close>

record cred_state =
  cst_rows :: "credential_row list"
  cst_redis :: redis

text \<open>
  \<open>CredentialInjectionError\<close>, its three subclasses with the fields they carry, and what is no
  \<open>CredentialInjectionError\<close>. \<open>Inl\<close> in a result is a raise.
\<close>

datatype inject_error =
    InjectionError string
  | EnrollmentRequired string string   \<comment> \<open>service, enrollment URL\<close>
  | ServiceCredentialMissing string
  | CrossTypeDenied string string string   \<comment> \<open>service, the caller's type, the row's type\<close>
  | Escaped exn

type_synonym headers = "(string \<times> string) list"

subsection \<open>Modes\<close>

datatype InjectionMode =
    NONE | SERVICE | BASIC_AUTH | USER | SERVICE_ACCOUNT | KC_TOKEN_EXCHANGE | OAUTH_USER_TOKEN | ENTRA_CLIENT_CREDENTIALS
  | ENTRA_USER_TOKEN | EXTERNAL_OAUTH_CLIENT_CREDENTIALS | EXTERNAL_OAUTH_USER_TOKEN | PASSTHROUGH

definition AUTH_MODE_VALUES :: "(string \<times> InjectionMode) list" where
  "AUTH_MODE_VALUES =
     [(''none'', NONE), (''service'', SERVICE), (''basic_auth'', BASIC_AUTH), (''user'', USER), (''service_account'', SERVICE_ACCOUNT),
      (''kc_token_exchange'', KC_TOKEN_EXCHANGE), (''oauth_user_token'', OAUTH_USER_TOKEN),
      (''entra_client_credentials'', ENTRA_CLIENT_CREDENTIALS), (''entra_user_token'', ENTRA_USER_TOKEN),
      (''external_oauth_client_credentials'', EXTERNAL_OAUTH_CLIENT_CREDENTIALS),
      (''external_oauth_user_token'', EXTERNAL_OAUTH_USER_TOKEN), (''passthrough'', PASSTHROUGH)]"

text \<open>The name the dispatcher parses: the tool's mode, the server's default, or \<open>none\<close>; the old name of the exchange is replaced.\<close>

definition raw_mode :: "cred_tool \<Rightarrow> string" where
  "raw_mode t =
     (let raw = (case ct_injection_mode t of Some m \<Rightarrow> m | None \<Rightarrow> str_or (ct_server_default_injection_mode t) ''none'') in
      if raw = ''oauth_user_token'' then ''kc_token_exchange'' else raw)"

definition STORED_MODES :: "InjectionMode list" where
  "STORED_MODES = [SERVICE, USER, BASIC_AUTH, ENTRA_USER_TOKEN, EXTERNAL_OAUTH_USER_TOKEN]"

subsection \<open>Whose credential\<close>

datatype owner_error = CrossTypePrincipalMismatch string string | OwnerQueryFailed

definition INFERRED_LEGACY_PRINCIPAL_TYPE :: string where "INFERRED_LEGACY_PRINCIPAL_TYPE = ''human''"

definition resolve_credential_owner ::
    "bool \<Rightarrow> credential_row list \<Rightarrow> string option \<Rightarrow> string option \<Rightarrow> string \<Rightarrow> string \<Rightarrow> owner_error + (string \<times> bool) option" where
  "resolve_credential_owner db rows principal_id principal_type bare_sub service =
     (let caller_type = str_or principal_type INFERRED_LEGACY_PRINCIPAL_TYPE in
      if str_true principal_id \<and> \<not> db then Inl OwnerQueryFailed
      else if str_true principal_id \<and> find (user_row (the principal_id) service) rows \<noteq> None
      then Inr (Some (the principal_id, True))
      else if principal_id = Some bare_sub then Inr None
      else if \<not> db then Inl OwnerQueryFailed
      else case find (user_row bare_sub service) rows of
        None \<Rightarrow> Inr None
      | Some record \<Rightarrow>
          let row_type = str_or (cs_principal_type record) INFERRED_LEGACY_PRINCIPAL_TYPE in
          if row_type \<noteq> caller_type then Inl (CrossTypePrincipalMismatch caller_type row_type)
          else Inr (Some (bare_sub, False)))"

definition resolve_owner_key_or_none :: "cred_env \<Rightarrow> cred_state \<Rightarrow> caller \<Rightarrow> string \<Rightarrow> owner_error + string option" where
  "resolve_owner_key_or_none env st c service =
     (if cl_principal_id c = None then Inr (Some (cl_client_id c))
      else case resolve_credential_owner (cd_db env QOwner) (cst_rows st) (cl_principal_id c) (cl_principal_type c) (cl_client_id c) service of
        Inl e \<Rightarrow> Inl e
      | Inr resolved \<Rightarrow> Inr (map_option fst resolved))"

definition read_credential :: "cred_env \<Rightarrow> cred_state \<Rightarrow> string \<Rightarrow> string \<Rightarrow> string option \<Rightarrow> string \<Rightarrow> string option" where
  "read_credential env st = decrypt_credential (cd_crypto env) (cd_master env) (cd_db env QCredential) (cst_rows st)"

text \<open>\<open>f"{inject_prefix} {token}".strip()\<close>, and the URL that a missing enrollment carries.\<close>

definition header_value :: "string \<Rightarrow> string \<Rightarrow> string" where
  "header_value inject_prefix token = strip (inject_prefix @ '' '' @ token)"

definition enrollment_required :: "cred_env \<Rightarrow> string \<Rightarrow> inject_error" where
  "enrollment_required env service = EnrollmentRequired service (cd_base_url env @ ''/auth/enroll/'' @ service)"

subsection \<open>Stored credentials\<close>

definition inject_service_credential :: "cred_env \<Rightarrow> cred_state \<Rightarrow> string option \<Rightarrow> string \<Rightarrow> string \<Rightarrow> string \<Rightarrow> inject_error + headers" where
  "inject_service_credential env st tool_id service_name inject_header inject_prefix =
     (let plaintext = read_credential env st ''__service__'' service_name tool_id ''service'' in
      if \<not> str_true plaintext then Inl (ServiceCredentialMissing service_name)
      else Inr [(inject_header, header_value inject_prefix (strip (the plaintext)))])"

definition inject_user_credential ::
    "cred_env \<Rightarrow> cred_state \<Rightarrow> string option \<Rightarrow> caller \<Rightarrow> string \<Rightarrow> string \<Rightarrow> string \<Rightarrow> inject_error + headers" where
  "inject_user_credential env st tool_id c service_name inject_header inject_prefix =
     (case resolve_owner_key_or_none env st c service_name of
        Inl (CrossTypePrincipalMismatch caller_type row_type) \<Rightarrow> Inl (CrossTypeDenied service_name caller_type row_type)
      | Inl OwnerQueryFailed \<Rightarrow> Inl (Escaped (RuntimeError ''database''))
      | Inr owner_key \<Rightarrow>
          let plaintext = (case owner_key of
                None \<Rightarrow> None | Some k \<Rightarrow> read_credential env st k service_name tool_id ''user'') in
          if \<not> str_true plaintext then Inl (enrollment_required env service_name)
          else Inr [(inject_header, header_value inject_prefix (strip (the plaintext)))])"

text \<open>The user name and the secret of a stored payload, where it has the shape.\<close>

definition basic_pair :: "string \<Rightarrow> (string \<times> string) option" where
  "basic_pair plaintext =
     (case json_loads plaintext of
        None \<Rightarrow> None
      | Some data \<Rightarrow> (case (jlookup data ''username'', jlookup data ''secret'') of
            (Some (JStr username), Some (JStr secret)) \<Rightarrow> if username = [] then None else Some (username, secret)
          | _ \<Rightarrow> None))"

definition inject_basic_auth :: "cred_env \<Rightarrow> cred_state \<Rightarrow> string option \<Rightarrow> caller \<Rightarrow> string \<Rightarrow> string \<Rightarrow> inject_error + headers" where
  "inject_basic_auth env st tool_id c service_name inject_header =
     (let user_leg = (if cl_client_id c = [] then Inr None
            else case resolve_owner_key_or_none env st c service_name of
              Inl e \<Rightarrow> Inl e
            | Inr None \<Rightarrow> Inr None
            | Inr (Some k) \<Rightarrow> Inr (read_credential env st k service_name tool_id ''user'')) in
      case user_leg of
        Inl (CrossTypePrincipalMismatch caller_type row_type) \<Rightarrow> Inl (CrossTypeDenied service_name caller_type row_type)
      | Inl OwnerQueryFailed \<Rightarrow> Inl (InjectionError ''basic_auth credential decryption raised'')
      | Inr own \<Rightarrow>
          let plaintext = (if str_true own then own else read_credential env st ''__service__'' service_name tool_id ''service'') in
          if \<not> str_true plaintext then Inl (ServiceCredentialMissing service_name)
          else case basic_pair (the plaintext) of
            None \<Rightarrow> Inl (InjectionError ''basic_auth credential is not the structured JSON payload'')
          | Some (username, secret) \<Rightarrow>
              if CHR '':'' \<in> set username then Inl (InjectionError ''basic_auth credential has a colon in the username'')
              else Inr [(inject_header, ''Basic '' @ b64encode (utf8 (username @ '':'' @ secret)))])"

subsection \<open>Keycloak tokens\<close>

text \<open>\<open>scope.split()\<close>.\<close>

fun split_ws :: "string \<Rightarrow> string \<Rightarrow> string list" where
  "split_ws acc [] = (if acc = [] then [] else [rev acc])"
| "split_ws acc (c # s) =
     (if py_space c then (if acc = [] then [] else [rev acc]) @ split_ws [] s else split_ws (c # acc) s)"

definition service_account_scope_ok :: "string \<Rightarrow> string list \<Rightarrow> bool" where
  "service_account_scope_ok scope allowed_scopes = list_all (\<lambda>t. t \<in> set allowed_scopes) (split_ws [] scope)"

text \<open>
  A read of a cached JSON document: \<open>None\<close> is a miss, a fault, or text that is no JSON, all of which fall through to a fresh request.
\<close>

definition cached_doc :: "cred_env \<Rightarrow> cred_state \<Rightarrow> string \<Rightarrow> json option" where
  "cached_doc env st key =
     (if \<not> r_init (cst_redis st) \<or> \<not> redis_ok (cd_world env) (RGet key) then None
      else case redis_get (cst_redis st) (now (cd_world env)) key of
        Some (CJson (JObj kvs)) \<Rightarrow> Some (JObj kvs)
      | _ \<Rightarrow> None)"

definition cache_doc :: "cred_env \<Rightarrow> string \<Rightarrow> int \<Rightarrow> json \<Rightarrow> cred_state \<Rightarrow> cred_state" where
  "cache_doc env key ttl doc st =
     (if r_init (cst_redis st) \<and> redis_ok (cd_world env) (RSetex key)
      then st\<lparr>cst_redis := redis_setex (cst_redis st) (now (cd_world env)) key (of_int ttl) (CJson doc)\<rparr> else st)"

text \<open>A JSON number as Python computes with it, and what is no number.\<close>

definition number_of :: "cred_env \<Rightarrow> json \<Rightarrow> rat option" where
  "number_of env j = (case j of JInt n \<Rightarrow> Some (of_int n) | JBool b \<Rightarrow> Some (if b then 1 else 0) | JFloat s \<Rightarrow> Some (cd_float env s) | _ \<Rightarrow> None)"

definition get_default :: "json \<Rightarrow> string \<Rightarrow> json \<Rightarrow> json" where
  "get_default d k v = (case jlookup d k of None \<Rightarrow> v | Some x \<Rightarrow> x)"

definition KC_TOKEN_CACHE_MARGIN_SECONDS :: int where "KC_TOKEN_CACHE_MARGIN_SECONDS = 30"

text \<open>
  The token of the client-credentials grant. A time to live that is no integer is refused by Redis, and the refusal is logged.
\<close>

definition get_service_account_token :: "cred_env \<Rightarrow> string \<Rightarrow> string \<Rightarrow> string \<Rightarrow> cred_state \<Rightarrow> (inject_error + json) \<times> cred_state" where
  "get_service_account_token env client_id client_secret scope st =
     (let key = ''kc:sa:'' @ client_id in
      case cached_doc env st key of
        Some data \<Rightarrow> (Inr (jget data ''access_token''), st)
      | None \<Rightarrow> (case cd_sa_endpoint env client_id client_secret scope of
            None \<Rightarrow> (Inr JNull, st)
          | Some token_data \<Rightarrow>
              if \<not> is_obj token_data then (Inl (Escaped (AttributeError ''get'')), st)
              else let access_token = jget token_data ''access_token''; expires_in = get_default token_data ''expires_in'' (JInt 300) in
                case expires_in of
                  JInt n \<Rightarrow> (Inr access_token, cache_doc env key (max 1 (n - KC_TOKEN_CACHE_MARGIN_SECONDS)) (JObj [(''access_token'', access_token)]) st)
                | _ \<Rightarrow> (if number_of env expires_in = None then (Inl (Escaped (TypeError ''expires_in'')), st) else (Inr access_token, st))))"

definition token_text :: "cred_env \<Rightarrow> json \<Rightarrow> string" where
  "token_text env j = (case j of JStr s \<Rightarrow> s | _ \<Rightarrow> cd_str env j)"

definition inject_service_account_token ::
    "cred_env \<Rightarrow> cred_tool \<Rightarrow> string \<Rightarrow> string \<Rightarrow> cred_state \<Rightarrow> (inject_error + headers) \<times> cred_state" where
  "inject_service_account_token env t inject_header inject_prefix st =
     (if \<not> str_true (ct_service_name t) then (Inl (InjectionError ''requires an approval-set service_name''), st)
      else if \<not> str_true (ct_kc_client_id t) then (Inl (InjectionError ''no kc_client_id configured''), st)
      else let client_secret = read_credential env st ''__kc_sa__'' (the (ct_kc_client_id t)) (ct_tool_id t) ''service'';
               sa_scope = str_or (ct_kc_token_audience t) ''openid'' in
        if \<not> str_true client_secret then (Inl (InjectionError ''No KC client secret found''), st)
        else if \<not> service_account_scope_ok sa_scope (cd_allowed_scopes env) then (Inl (InjectionError ''service_account mode: scope rejected''), st)
        else case get_service_account_token env (the (ct_kc_client_id t)) (strip (the client_secret)) sa_scope st of
          (Inl e, st') \<Rightarrow> (Inl e, st')
        | (Inr token, st') \<Rightarrow>
            if \<not> truthy token then (Inl (InjectionError ''Keycloak returned no service-account token''), st')
            else (Inr [(inject_header, header_value inject_prefix (token_text env token))], st'))"

definition exchange_key :: "string \<Rightarrow> string \<Rightarrow> string" where
  "exchange_key subject_token audience = ''kc:ex:'' @ take 16 (sha256 (utf8 subject_token)) @ '':'' @ audience"

text \<open>A cached exchange counts while its own expiry is more than the margin away.\<close>

definition cached_exchange :: "cred_env \<Rightarrow> cred_state \<Rightarrow> string \<Rightarrow> json option" where
  "cached_exchange env st key =
     (case cached_doc env st key of
        None \<Rightarrow> None
      | Some data \<Rightarrow> (case number_of env (get_default data ''expires_at'' (JInt 0)) of
            Some e \<Rightarrow> if now (cd_world env) + of_int KC_TOKEN_CACHE_MARGIN_SECONDS < e then Some (jget data ''access_token'') else None
          | None \<Rightarrow> None))"

definition exchange_token :: "cred_env \<Rightarrow> string \<Rightarrow> string \<Rightarrow> cred_state \<Rightarrow> (inject_error + json) \<times> cred_state" where
  "exchange_token env subject_token audience st =
     (if \<not> cd_exchange_enabled env then (Inr JNull, st)
      else let key = exchange_key subject_token audience in
        case cached_exchange env st key of
          Some token \<Rightarrow> (Inr token, st)
        | None \<Rightarrow> (case cd_exchange_endpoint env subject_token audience of
              None \<Rightarrow> (Inr JNull, st)
            | Some token_data \<Rightarrow>
                if \<not> is_obj token_data then (Inl (Escaped (AttributeError ''get'')), st)
                else let access_token = jget token_data ''access_token''; expires_in = get_default token_data ''expires_in'' (JInt 300) in
                  case number_of env expires_in of
                    None \<Rightarrow> (Inl (Escaped (TypeError ''expires_in'')), st)
                  | Some e \<Rightarrow>
                      (Inr access_token,
                       case expires_in of
                         JInt n \<Rightarrow> cache_doc env key (max 1 (n - KC_TOKEN_CACHE_MARGIN_SECONDS))
                           (JObj [(''access_token'', access_token), (''expires_at'', JFloat (cd_float_text env (now (cd_world env) + e)))]) st
                       | _ \<Rightarrow> st)))"

text \<open>\<open>get_public_key_for_token\<close>; \<open>None\<close> is a raise.\<close>

definition get_public_key_for_token :: "cred_env \<Rightarrow> string \<Rightarrow> string option" where
  "get_public_key_for_token env token =
     (case cd_key_id env token of
        None \<Rightarrow> None
      | Some kid \<Rightarrow> (case (if str_true kid then filter (\<lambda>k. fst k = kid) (cd_jwks env) else cd_jwks env) of
            [] \<Rightarrow> None
          | k # _ \<Rightarrow> Some (snd k)))"

definition EXPECTED_ACTOR :: string where "EXPECTED_ACTOR = ''mcp-proxy''"

definition assert_exchanged_token :: "cred_env \<Rightarrow> string \<Rightarrow> json \<Rightarrow> string \<Rightarrow> string \<Rightarrow> bool" where
  "assert_exchanged_token env token expected_sub expected_aud public_key =
     (case cd_jwt_decode env public_key token expected_aud of
        None \<Rightarrow> False
      | Some claims \<Rightarrow> jget claims ''sub'' = expected_sub \<and> jget claims ''azp'' = JStr EXPECTED_ACTOR)"

definition inject_kc_token_exchange ::
    "cred_env \<Rightarrow> cred_tool \<Rightarrow> string option \<Rightarrow> string \<Rightarrow> string \<Rightarrow> cred_state \<Rightarrow> (inject_error + headers) \<times> cred_state" where
  "inject_kc_token_exchange env t user_kc_token inject_header inject_prefix st =
     (let audience = str_or (ct_kc_token_audience t) [] in
      if \<not> str_true user_kc_token then (Inl (InjectionError ''kc_token_exchange mode: no caller Keycloak access token''), st)
      else if audience = [] then (Inl (InjectionError ''kc_token_exchange mode: no kc_token_audience configured''), st)
      else if audience \<notin> set (cd_allowed_audiences env) then (Inl (InjectionError ''kc_token_exchange mode: audience not in allowlist''), st)
      else case exchange_token env (the user_kc_token) audience st of
        (Inl e, st') \<Rightarrow> (Inl e, st')
      | (Inr exchanged, st') \<Rightarrow>
          if \<not> truthy exchanged then (Inl (InjectionError ''Keycloak token exchange returned no token''), st')
          else case cd_unverified env (the user_kc_token) of
            None \<Rightarrow> (Inl (Escaped (ValueError ''DecodeError'')), st')
          | Some claims \<Rightarrow>
              let token = token_text env exchanged in
              case get_public_key_for_token env token of
                None \<Rightarrow> (Inl (InjectionError ''S-5 JWKS fetch failed''), st')
              | Some public_key \<Rightarrow>
                  if assert_exchanged_token env token (get_default claims ''sub'' (JStr [])) audience public_key
                  then (Inr [(inject_header, header_value inject_prefix token)], st')
                  else (Inl (InjectionError ''exchanged token failed S-5 assertion''), st'))"

subsection \<open>Delegated tokens\<close>

text \<open>
  \<open>_resolve_a\<close> of the broker: the owner's refresh token is decrypted, refreshed, and the rotated one is stored. The two statements on
  \<open>credential_store\<close> name the subject and the service only.
\<close>

datatype resolve_error = ResolveMismatch string string | CredentialNotEnrolled | ResolveRaised

definition owned_row :: "string \<Rightarrow> string \<Rightarrow> credential_row \<Rightarrow> bool" where
  "owned_row owner svc r = (cs_user_sub r = owner \<and> cs_service r = svc)"

definition rotate_blob :: "string \<Rightarrow> string \<Rightarrow> string \<Rightarrow> credential_row list \<Rightarrow> credential_row list" where
  "rotate_blob owner svc blob rows = map (\<lambda>r. if owned_row owner svc r then r\<lparr>cs_blob := blob\<rparr> else r) rows"

definition resolve_a :: "cred_env \<Rightarrow> caller \<Rightarrow> string \<Rightarrow> cred_state \<Rightarrow> (resolve_error + string) \<times> cred_state" where
  "resolve_a env c service st =
     (case resolve_credential_owner (cd_db env QResolve) (cst_rows st) (cl_principal_id c) (cl_principal_type c) (cl_client_id c) service of
        Inl (CrossTypePrincipalMismatch caller_type row_type) \<Rightarrow> (Inl (ResolveMismatch caller_type row_type), st)
      | Inl OwnerQueryFailed \<Rightarrow> (Inl ResolveRaised, st)
      | Inr None \<Rightarrow> (Inl CredentialNotEnrolled, st)
      | Inr (Some (owner_key, _)) \<Rightarrow>
          (case (find (owned_row owner_key service) (cst_rows st), cd_master env) of
             (None, _) \<Rightarrow> (Inl CredentialNotEnrolled, st)
           | (Some _, None) \<Rightarrow> (Inl ResolveRaised, st)
           | (Some record, Some master) \<Rightarrow>
               (case decrypt (cd_crypto env) (cs_blob record) owner_key master service None ''user'' of
                  Inl _ \<Rightarrow> (Inl ResolveRaised, st)
                | Inr refresh_token \<Rightarrow>
                    (case cd_adapter env service of
                       None \<Rightarrow> (Inl CredentialNotEnrolled, st)
                     | Some refresh \<Rightarrow>
                         (case refresh refresh_token of
                            TokenExchangeError code \<Rightarrow> (Inl (if code = 400 then CredentialNotEnrolled else ResolveRaised), st)
                          | RefreshRaised \<Rightarrow> (Inl ResolveRaised, st)
                          | Refreshed access_token new_refresh \<Rightarrow>
                              (Inr access_token, st\<lparr>cst_rows := rotate_blob owner_key service
                                 (encrypt (cd_crypto env) (cd_salt env) (cd_nonce env) new_refresh owner_key master service None ''user'')
                                 (cst_rows st)\<rparr>))))))"

definition delegated_token :: "cred_env \<Rightarrow> caller \<Rightarrow> string \<Rightarrow> cred_state \<Rightarrow> (inject_error + string) \<times> cred_state" where
  "delegated_token env c service_name st =
     (if \<not> cd_broker env then (Inl (InjectionError ''credential broker not initialized''), st)
      else case resolve_a env c service_name st of
        (Inl (ResolveMismatch caller_type row_type), st') \<Rightarrow> (Inl (CrossTypeDenied service_name caller_type row_type), st')
      | (Inl CredentialNotEnrolled, st') \<Rightarrow> (Inl (enrollment_required env service_name), st')
      | (Inl ResolveRaised, st') \<Rightarrow> (Inl (InjectionError ''resolve failed''), st')
      | (Inr token, st') \<Rightarrow> if token = [] then (Inl (InjectionError ''broker returned no delegated token''), st') else (Inr token, st'))"

definition inject_entra_user_token :: "cred_env \<Rightarrow> caller \<Rightarrow> string \<Rightarrow> string \<Rightarrow> string \<Rightarrow> cred_state \<Rightarrow> (inject_error + headers) \<times> cred_state" where
  "inject_entra_user_token env c service_name inject_header inject_prefix st =
     (case delegated_token env c service_name st of
        (Inl e, st') \<Rightarrow> (Inl e, st')
      | (Inr token, st') \<Rightarrow> (Inr (AList.update ''X-Entra-Auth-Mode'' ''delegated'' [(inject_header, header_value inject_prefix token)]), st'))"

definition inject_external_oauth_user_token ::
    "cred_env \<Rightarrow> caller \<Rightarrow> string \<Rightarrow> string \<Rightarrow> string \<Rightarrow> cred_state \<Rightarrow> (inject_error + headers) \<times> cred_state" where
  "inject_external_oauth_user_token env c service_name inject_header inject_prefix st =
     (case delegated_token env c service_name st of
        (Inl e, st') \<Rightarrow> (Inl e, st')
      | (Inr token, st') \<Rightarrow> (Inr [(inject_header, header_value inject_prefix token)], st'))"

subsection \<open>Application tokens\<close>

text \<open>
  \<open>_UPN_RE\<close>. \<open>$\<close> holds at the end and before a final line break.
\<close>

definition upn_local :: "char \<Rightarrow> bool" where "upn_local c = (is_alnum c \<or> in_str ''._%+-'' c)"

definition upn_domain :: "char \<Rightarrow> bool" where "upn_domain c = (is_alnum c \<or> in_str ''.-'' c)"

definition UPN_RE :: rx where
  "UPN_RE = seqs [PyRegex.plus (Cls upn_local), lit ''@'', PyRegex.plus (Cls upn_domain), lit ''.'', Cls is_alpha, PyRegex.plus (Cls is_alpha)]"

definition upn_matches :: "string \<Rightarrow> bool" where
  "upn_matches s = list_ex (\<lambda>q. snd q = [] \<or> snd q = [CHR 0x0A]) (rmatch UPN_RE (None, s))"

definition lookup_m365_caller_upn :: "cred_env \<Rightarrow> cred_state \<Rightarrow> caller \<Rightarrow> string option" where
  "lookup_m365_caller_upn env st c =
     (let candidates = filter (\<lambda>s. s \<noteq> []) ((case cl_principal_id c of None \<Rightarrow> [] | Some p \<Rightarrow> [p]) @ [cl_client_id c]) in
      if candidates = [] \<or> \<not> cd_db env QUpn then None
      else case find (\<lambda>r. cs_service r = ''m365'' \<and> cs_owner_type r = Some ''user'' \<and> cs_user_sub r \<in> set candidates \<and> cs_upn r \<noteq> None) (cst_rows st) of
        None \<Rightarrow> None
      | Some row \<Rightarrow> if str_true (cs_upn row) \<and> \<not> upn_matches (the (cs_upn row)) then None else cs_upn row)"

definition app_only_headers :: "cred_env \<Rightarrow> cred_state \<Rightarrow> caller \<Rightarrow> string \<Rightarrow> string \<Rightarrow> string \<Rightarrow> headers" where
  "app_only_headers env st c inject_header inject_prefix token =
     (let base = AList.update ''X-Entra-Auth-Mode'' ''app-only'' [(inject_header, header_value inject_prefix token)];
          upn = lookup_m365_caller_upn env st c in
      if str_true upn then AList.update ''X-M365-Caller-Upn'' (the upn) base else base)"

definition ENTRA_TOKEN_CACHE_MARGIN_SECONDS :: int where "ENTRA_TOKEN_CACHE_MARGIN_SECONDS = 60"

text \<open>\<open>int()\<close>: a text may have a sign, surrounding blanks and single underscores between digits.\<close>

definition int_of_str :: "string \<Rightarrow> int option" where
  "int_of_str s =
     (let t = strip s; neg = take 1 t = ''-''; u = (if take 1 t = ''-'' \<or> take 1 t = ''+'' then tl t else t); parts = split_on CHR ''_'' u in
      if list_all isdigit parts then Some ((if neg then -1 else 1) * int_of_digits (concat parts)) else None)"

definition py_int :: "cred_env \<Rightarrow> json \<Rightarrow> int option" where
  "py_int env j = (case j of JInt n \<Rightarrow> Some n | JBool b \<Rightarrow> Some (if b then 1 else 0)
     | JFloat s \<Rightarrow> (let x = cd_float env s in Some (if 0 \<le> x then floor x else ceiling x))
     | JStr s \<Rightarrow> int_of_str s | _ \<Rightarrow> None)"

definition stored_client :: "cred_env \<Rightarrow> cred_state \<Rightarrow> cred_tool \<Rightarrow> inject_error + json" where
  "stored_client env st t =
     (if \<not> str_true (ct_credential_id t) then Inl (InjectionError ''has no credential_id'')
      else if \<not> cd_broker env then Inl (InjectionError ''credential broker not initialized'')
      else case retrieve_credential (cd_crypto env) (cd_master env) (cd_db env QStored) (cst_rows st) (the (ct_credential_id t)) ''__service__''
                  (str_or (ct_service_name t) (str_or (ct_name t) [])) (ct_tool_id t) ''service'' of
        Inl (KeyError _) \<Rightarrow> Inl (InjectionError ''credential_id not found in credential_store'')
      | Inl _ \<Rightarrow> Inl (InjectionError ''credential_store retrieval failed'')
      | Inr d \<Rightarrow> if is_obj d then Inr d else Inl (Escaped (AttributeError ''get'')))"

definition fetch_entra_token ::
    "cred_env \<Rightarrow> string \<Rightarrow> json \<Rightarrow> json \<Rightarrow> json \<Rightarrow> cred_state \<Rightarrow> (inject_error + string) \<times> cred_state" where
  "fetch_entra_token env key tenant_id client_id client_secret st =
     (case cd_entra_endpoint env (token_text env tenant_id) (token_text env client_id) (token_text env client_secret) of
        None \<Rightarrow> (Inl (InjectionError ''entra_client_credentials token fetch failed''), st)
      | Some data \<Rightarrow>
          if \<not> is_obj data then (Inl (Escaped (AttributeError ''get'')), st)
          else case py_int env (get_default data ''expires_in'' (JInt 3600)) of
            None \<Rightarrow> (Inl (Escaped (ValueError ''expires_in'')), st)
          | Some expires_in \<Rightarrow>
              let access_token = jget data ''access_token'' in
              if \<not> truthy access_token then (Inl (InjectionError ''no access_token in Azure AD response''), st)
              else (Inr (token_text env access_token),
                    cache_doc env key (max 1 (expires_in - ENTRA_TOKEN_CACHE_MARGIN_SECONDS)) (JObj [(''access_token'', access_token)]) st))"

definition inject_entra_client_credentials ::
    "cred_env \<Rightarrow> cred_tool \<Rightarrow> caller \<Rightarrow> string \<Rightarrow> string \<Rightarrow> cred_state \<Rightarrow> (inject_error + headers) \<times> cred_state" where
  "inject_entra_client_credentials env t c inject_header inject_prefix st =
     (case stored_client env st t of
        Inl e \<Rightarrow> (Inl e, st)
      | Inr d \<Rightarrow>
          let tenant_id = jget d ''tenant_id''; client_id = jget d ''client_id''; client_secret = jget d ''client_secret'';
              key = ''entra:cc:'' @ token_text env tenant_id @ '':'' @ token_text env client_id in
          if \<not> (truthy tenant_id \<and> truthy client_id \<and> truthy client_secret) then (Inl (InjectionError ''credential missing required fields''), st)
          else case cached_doc env st key of
            Some doc \<Rightarrow>
              if truthy (jget doc ''access_token'')
              then (Inr (app_only_headers env st c inject_header inject_prefix (token_text env (jget doc ''access_token''))), st)
              else (case fetch_entra_token env key tenant_id client_id client_secret st of
                      (Inl e, st') \<Rightarrow> (Inl e, st')
                    | (Inr token, st') \<Rightarrow> (Inr (app_only_headers env st' c inject_header inject_prefix token), st'))
          | None \<Rightarrow> (case fetch_entra_token env key tenant_id client_id client_secret st of
                      (Inl e, st') \<Rightarrow> (Inl e, st')
                    | (Inr token, st') \<Rightarrow> (Inr (app_only_headers env st' c inject_header inject_prefix token), st')))"

text \<open>\<open>" ".join(list(x or []))\<close>: text is listed by character, a dictionary by key; \<open>None\<close> is a \<open>TypeError\<close>.\<close>

definition scope_texts :: "json \<Rightarrow> string list option" where
  "scope_texts j =
     (if \<not> truthy j then Some []
      else case j of
        JArr xs \<Rightarrow> those (map (\<lambda>x. case x of JStr s \<Rightarrow> Some s | _ \<Rightarrow> None) xs)
      | JStr s \<Rightarrow> Some (map (\<lambda>ch. [ch]) s)
      | JObj kvs \<Rightarrow> Some (map fst kvs)
      | _ \<Rightarrow> None)"

definition inject_external_oauth_client_credentials ::
    "cred_env \<Rightarrow> cred_state \<Rightarrow> cred_tool \<Rightarrow> string \<Rightarrow> string \<Rightarrow> inject_error + headers" where
  "inject_external_oauth_client_credentials env st t inject_header inject_prefix =
     (case stored_client env st t of
        Inl e \<Rightarrow> Inl e
      | Inr d \<Rightarrow>
          let client_id = jget d ''client_id''; client_secret = jget d ''client_secret'' in
          if \<not> (truthy client_id \<and> truthy client_secret) then Inl (InjectionError ''credential missing required fields'')
          else if \<not> str_true (ct_server_id t) then Inl (InjectionError ''tool has no server_id'')
          else if \<not> cd_db env QApprovedConfig then Inl (Escaped (RuntimeError ''database''))
          else
            let (config, approved_scopes) = (case cd_approved env (the (ct_server_id t)) of Some cs \<Rightarrow> cs | None \<Rightarrow> (JNull, JNull));
                token_endpoint = jget config ''token_endpoint'';
                cid = token_text env client_id; secret = token_text env client_secret in
            if truthy config \<and> \<not> is_obj config then Inl (Escaped (AttributeError ''get''))
            else if \<not> truthy token_endpoint then Inl (InjectionError ''no approved token_endpoint for server'')
            else case scope_texts (if truthy approved_scopes then approved_scopes else jget config ''scopes'') of
              None \<Rightarrow> Inl (Escaped (TypeError ''scopes''))
            | Some scopes \<Rightarrow>
            let form = (''grant_type'', ''client_credentials'') # (if scopes = [] then [] else [(''scope'', join '' '' scopes)]) in
            case (if jget config ''client_auth_method'' = JStr ''client_secret_basic''
                  then cd_oauth_endpoint env (token_text env token_endpoint) form (Some (cid, secret))
                  else cd_oauth_endpoint env (token_text env token_endpoint) (form @ [(''client_id'', cid), (''client_secret'', secret)]) None) of
              None \<Rightarrow> Inl (InjectionError ''external_oauth_client_credentials token fetch failed'')
            | Some data \<Rightarrow>
                if \<not> is_obj data then Inl (Escaped (AttributeError ''get''))
                else if \<not> truthy (jget data ''access_token'') then Inl (InjectionError ''no access_token in token endpoint response'')
                else Inr [(inject_header, header_value inject_prefix (token_text env (jget data ''access_token'')))])"

subsection \<open>Dispatch\<close>

definition dispatch_credential_injection :: "cred_env \<Rightarrow> cred_tool \<Rightarrow> caller \<Rightarrow> cred_state \<Rightarrow> (inject_error + headers) \<times> cred_state" where
  "dispatch_credential_injection env t c st =
     (case map_of AUTH_MODE_VALUES (raw_mode t) of
        None \<Rightarrow> (Inl (InjectionError ''unsupported injection_mode''), st)
      | Some mode \<Rightarrow>
          let inject_header = str_or (ct_inject_header t) ''Authorization''; inject_prefix = str_or (ct_inject_prefix t) ''Bearer'';
              service_name = the (ct_service_name t); tool_id = ct_tool_id t in
          if mode \<noteq> NONE \<and> \<not> cd_broker env then (Inl (InjectionError ''Credential broker not initialized''), st)
          else if mode \<in> set STORED_MODES \<and> \<not> str_true (ct_service_name t)
          then (Inl (InjectionError ''requires an approval-set service_name''), st)
          else case mode of
            NONE \<Rightarrow> (Inr [], st)
          | SERVICE \<Rightarrow> (inject_service_credential env st tool_id service_name inject_header inject_prefix, st)
          | USER \<Rightarrow> (inject_user_credential env st tool_id c service_name inject_header inject_prefix, st)
          | BASIC_AUTH \<Rightarrow> (inject_basic_auth env st tool_id c service_name inject_header, st)
          | SERVICE_ACCOUNT \<Rightarrow> inject_service_account_token env t inject_header inject_prefix st
          | KC_TOKEN_EXCHANGE \<Rightarrow> inject_kc_token_exchange env t (cl_kc_token c) inject_header inject_prefix st
          | OAUTH_USER_TOKEN \<Rightarrow> inject_kc_token_exchange env t (cl_kc_token c) inject_header inject_prefix st
          | PASSTHROUGH \<Rightarrow> (Inr [], st)
          | ENTRA_CLIENT_CREDENTIALS \<Rightarrow> inject_entra_client_credentials env t c inject_header inject_prefix st
          | ENTRA_USER_TOKEN \<Rightarrow>
              if cl_client_id c = [] then (Inl (InjectionError ''entra_user_token mode: no authenticated user sub''), st)
              else inject_entra_user_token env c service_name inject_header inject_prefix st
          | EXTERNAL_OAUTH_CLIENT_CREDENTIALS \<Rightarrow> (inject_external_oauth_client_credentials env st t inject_header inject_prefix, st)
          | EXTERNAL_OAUTH_USER_TOKEN \<Rightarrow>
              if cl_client_id c = [] then (Inl (InjectionError ''external_oauth_user_token mode: no authenticated user sub''), st)
              else inject_external_oauth_user_token env c service_name inject_header inject_prefix st)"

end
