(* ===== verification/Injection.thy ===== *)
theory Injection
  imports Dispatcher
begin

section \<open>Properties of credential injection\<close>

text \<open>
  What \<open>dispatch_credential_injection\<close> guarantees: it injects into a call only a credential of the caller's own principal or of the tool's
  service, never crosses principal types, and refuses where it has none; an exchanged token is verified on every use; a
  rotated refresh token is the one used next. The scope of a cached service-account token is not checked again, which is stated
  as it is.
\<close>

subsection \<open>Owners\<close>

text \<open>The keys under which a caller may read a stored credential of a service.\<close>

definition caller_type :: "caller \<Rightarrow> string" where
  "caller_type c = str_or (cl_principal_type c) INFERRED_LEGACY_PRINCIPAL_TYPE"

definition row_type :: "credential_row \<Rightarrow> string" where
  "row_type r = str_or (cs_principal_type r) INFERRED_LEGACY_PRINCIPAL_TYPE"

definition own_key :: "credential_row list \<Rightarrow> caller \<Rightarrow> string \<Rightarrow> string \<Rightarrow> bool" where
  "own_key rows c svc k \<longleftrightarrow>
     cl_principal_id c = Some k
     \<or> (k = cl_client_id c \<and> (cl_principal_id c = None \<or> (\<exists>r \<in> set rows. user_row k svc r \<and> row_type r = caller_type c)))"

lemma resolve_owner_own:
  assumes "resolve_credential_owner db rows (cl_principal_id c) (cl_principal_type c) (cl_client_id c) svc = Inr (Some (k, typed))"
  shows "own_key rows c svc k \<and> (\<exists>r \<in> set rows. user_row k svc r)"
proof (cases "str_true (cl_principal_id c) \<and> find (user_row (the (cl_principal_id c)) svc) rows \<noteq> None")
  case True
  then obtain p r where p: "cl_principal_id c = Some p" "p \<noteq> []" "find (user_row p svc) rows = Some r"
    by (cases "cl_principal_id c") auto
  with assms True have "k = p" by (auto simp: resolve_credential_owner_def Let_def split: if_splits)
  with p find_Some_set[OF p(3)] show ?thesis by (auto simp: own_key_def)
next
  case False
  with assms obtain r where "find (user_row (cl_client_id c) svc) rows = Some r" "k = cl_client_id c" "row_type r = caller_type c"
    by (auto simp: resolve_credential_owner_def Let_def row_type_def caller_type_def split: if_splits option.splits)
  with find_Some_set[of "user_row (cl_client_id c) svc" rows r] show ?thesis by (auto simp: own_key_def)
qed

lemma resolve_owner_key_own:
  assumes "resolve_owner_key_or_none env st c svc = Inr (Some k)"
  shows "own_key (cst_rows st) c svc k"
proof (cases "cl_principal_id c")
  case None
  with assms show ?thesis by (simp add: resolve_owner_key_or_none_def own_key_def)
next
  case (Some p)
  with assms obtain b where
    "resolve_credential_owner (cd_db env QOwner) (cst_rows st) (cl_principal_id c) (cl_principal_type c) (cl_client_id c) svc = Inr (Some (k, b))"
    by (auto simp: resolve_owner_key_or_none_def split: sum.splits)
  from resolve_owner_own[OF this] show ?thesis by blast
qed

text \<open>What a read of a stored credential yields was encrypted for exactly that context.\<close>

definition holds_credential :: "cred_env \<Rightarrow> cred_state \<Rightarrow> string \<Rightarrow> string \<Rightarrow> string option \<Rightarrow> string \<Rightarrow> string \<Rightarrow> bool" where
  "holds_credential env st owner svc tool_id owner_type p \<longleftrightarrow>
     (\<exists>r \<in> set (cst_rows st). \<exists>m salt nonce. cd_master env = Some m \<and> cs_user_sub r = owner \<and> cs_service r = svc
        \<and> cs_blob r = encrypt (cd_crypto env) salt nonce p owner m svc tool_id owner_type)"

lemma read_user_credential:
  assumes "aesgcm_ok (cd_crypto env)" and "read_credential env st k svc tool_id ''user'' = Some p"
  shows "holds_credential env st k svc tool_id ''user'' p"
proof -
  from assms(2) obtain m r where m: "cd_master env = Some m" "find (user_row k svc) (cst_rows st) = Some r"
    "decrypt (cd_crypto env) (cs_blob r) (if cs_user_sub r = [] then k else cs_user_sub r) m svc tool_id ''user'' = Inr p"
    by (auto simp: read_credential_def decrypt_credential_def Let_def split: option.splits if_splits sum.splits)
  from find_Some_set[OF m(2)] have r: "r \<in> set (cst_rows st)" "cs_user_sub r = k" "cs_service r = svc" by (simp_all add: user_row_def)
  from m(3) r(2) have "decrypt (cd_crypto env) (cs_blob r) k m svc tool_id ''user'' = Inr p" by (simp split: if_splits)
  with m(1) r decrypt_iff[OF assms(1)] show ?thesis unfolding holds_credential_def by blast
qed

subsection \<open>Modes\<close>

lemma mode_values [simp]:
  "map_of AUTH_MODE_VALUES ''none'' = Some NONE" "map_of AUTH_MODE_VALUES ''service'' = Some SERVICE"
  "map_of AUTH_MODE_VALUES ''basic_auth'' = Some BASIC_AUTH" "map_of AUTH_MODE_VALUES ''user'' = Some USER"
  "map_of AUTH_MODE_VALUES ''service_account'' = Some SERVICE_ACCOUNT"
  "map_of AUTH_MODE_VALUES ''kc_token_exchange'' = Some KC_TOKEN_EXCHANGE"
  "map_of AUTH_MODE_VALUES ''entra_user_token'' = Some ENTRA_USER_TOKEN"
  "map_of AUTH_MODE_VALUES ''external_oauth_user_token'' = Some EXTERNAL_OAUTH_USER_TOKEN"
  "map_of AUTH_MODE_VALUES ''passthrough'' = Some PASSTHROUGH"
  by (simp_all add: AUTH_MODE_VALUES_def)

definition header_of :: "cred_tool \<Rightarrow> string" where "header_of t = str_or (ct_inject_header t) ''Authorization''"

definition prefix_of_tool :: "cred_tool \<Rightarrow> string" where "prefix_of_tool t = str_or (ct_inject_prefix t) ''Bearer''"

lemma inject_user_own:
  assumes "aesgcm_ok (cd_crypto env)" and "inject_user_credential env st tool_id c svc h pre = Inr hs"
  shows "\<exists>k p. own_key (cst_rows st) c svc k \<and> holds_credential env st k svc tool_id ''user'' p \<and> p \<noteq> [] \<and> hs = [(h, header_value pre (strip p))]"
proof -
  from assms(2) obtain k p where k: "resolve_owner_key_or_none env st c svc = Inr (Some k)" "read_credential env st k svc tool_id ''user'' = Some p"
    "p \<noteq> []" "hs = [(h, header_value pre (strip p))]"
    by (auto simp: inject_user_credential_def Let_def str_true_def split: sum.splits owner_error.splits option.splits if_splits)
  with resolve_owner_key_own[OF k(1)] read_user_credential[OF assms(1) k(2)] show ?thesis by blast
qed


text \<open>Each helper names the tool's header in what it returns.\<close>

lemma update_keeps_key: "k \<in> fst ` set d \<Longrightarrow> k \<in> fst ` set (AList.update k' v d)"
  by (simp add: dom_update)

lemma app_only_header: "h \<in> fst ` set (app_only_headers env st c h pre token)"
  by (simp add: app_only_headers_def Let_def update_keeps_key)

lemma entra_app_header:
  "inject_entra_client_credentials env t c h pre st = (Inr hs, st') \<Longrightarrow> h \<in> fst ` set hs"
  by (auto simp: inject_entra_client_credentials_def Let_def app_only_header split: sum.splits if_splits option.splits prod.splits)

lemma user_header: "inject_user_credential env st tool_id c svc h pre = Inr hs \<Longrightarrow> h \<in> fst ` set hs"
  by (auto simp: inject_user_credential_def Let_def split: sum.splits owner_error.splits if_splits)

lemma service_header: "inject_service_credential env st tool_id svc h pre = Inr hs \<Longrightarrow> h \<in> fst ` set hs"
  by (auto simp: inject_service_credential_def Let_def split: if_splits)

lemma basic_header: "inject_basic_auth env st tool_id c svc h = Inr hs \<Longrightarrow> h \<in> fst ` set hs"
  unfolding inject_basic_auth_def Let_def
  by (auto split: sum.splits owner_error.splits if_splits option.splits prod.splits)

lemma service_account_header: "inject_service_account_token env t h pre st = (Inr hs, st') \<Longrightarrow> h \<in> fst ` set hs"
  by (auto simp: inject_service_account_token_def Let_def split: sum.splits if_splits prod.splits)

lemma exchange_header: "inject_kc_token_exchange env t tok h pre st = (Inr hs, st') \<Longrightarrow> h \<in> fst ` set hs"
  by (auto simp: inject_kc_token_exchange_def Let_def split: sum.splits if_splits prod.splits option.splits)

lemma entra_user_header: "inject_entra_user_token env c svc h pre st = (Inr hs, st') \<Longrightarrow> h \<in> fst ` set hs"
  by (auto simp: inject_entra_user_token_def update_keeps_key split: sum.splits prod.splits)

lemma external_user_header: "inject_external_oauth_user_token env c svc h pre st = (Inr hs, st') \<Longrightarrow> h \<in> fst ` set hs"
  by (auto simp: inject_external_oauth_user_token_def split: sum.splits prod.splits)

lemma external_app_header: "inject_external_oauth_client_credentials env st t h pre = Inr hs \<Longrightarrow> h \<in> fst ` set hs"
  by (auto simp: inject_external_oauth_client_credentials_def Let_def split: sum.splits if_splits prod.splits option.splits)

lemmas helper_headers = entra_app_header user_header service_header basic_header service_account_header exchange_header
  entra_user_header external_user_header external_app_header


text \<open>
  Property C11. A credential never crosses principal types. In each of the four modes that read a per-user credential, a caller whose typed
  principal has no row, and whose bare subject has one of another type, is refused with the cross-type denial, which names both
  types; nothing is decrypted, refreshed or changed.
\<close>

theorem cross_type_is_denied:
  assumes "raw_mode t \<in> {''user'', ''basic_auth'', ''entra_user_token'', ''external_oauth_user_token''}"
    and "cd_broker env" and "cd_db env QOwner" and "cd_db env QResolve" and "ct_service_name t = Some svc" and "svc \<noteq> []"
    and "cl_client_id c \<noteq> []" and "cl_principal_id c = Some p" and "p \<notin> {[], cl_client_id c}"
    and "find (user_row p svc) (cst_rows st) = None" and "find (user_row (cl_client_id c) svc) (cst_rows st) = Some r"
    and "row_type r \<noteq> caller_type c"
  shows "dispatch_credential_injection env t c st = (Inl (CrossTypeDenied svc (caller_type c) (row_type r)), st)"
proof -
  have owner: "resolve_credential_owner True (cst_rows st) (cl_principal_id c) (cl_principal_type c) (cl_client_id c) svc
      = Inl (CrossTypePrincipalMismatch (caller_type c) (row_type r))"
    using assms(8-12) by (simp add: resolve_credential_owner_def caller_type_def row_type_def Let_def)
  have "resolve_owner_key_or_none env st c svc = Inl (CrossTypePrincipalMismatch (caller_type c) (row_type r))"
    using assms(3,8) owner by (simp add: resolve_owner_key_or_none_def)
  then have stored: "inject_user_credential env st (ct_tool_id t) c svc h pre = Inl (CrossTypeDenied svc (caller_type c) (row_type r))"
    "inject_basic_auth env st (ct_tool_id t) c svc h = Inl (CrossTypeDenied svc (caller_type c) (row_type r))" for h pre
    using assms(7) by (simp_all add: inject_user_credential_def inject_basic_auth_def)
  have "delegated_token env c svc st = (Inl (CrossTypeDenied svc (caller_type c) (row_type r)), st)"
    using assms(2,4) owner by (simp add: delegated_token_def resolve_a_def)
  then have "inject_entra_user_token env c svc h pre st = (Inl (CrossTypeDenied svc (caller_type c) (row_type r)), st)"
    "inject_external_oauth_user_token env c svc h pre st = (Inl (CrossTypeDenied svc (caller_type c) (row_type r)), st)" for h pre
    by (simp_all add: inject_entra_user_token_def inject_external_oauth_user_token_def)
  with stored assms(1,2,5-7) show ?thesis by (auto simp: dispatch_credential_injection_def STORED_MODES_def)
qed

subsection \<open>Exchanged tokens\<close>

text \<open>
  Property C12. Only a verified token is exchanged into a call. Where injection in mode \<open>kc_token_exchange\<close> (or its old name) succeeds, from the
  cache or from Keycloak, the audience is on the platform's list, the injected token verifies for that audience under a key
  of the realm, its subject is the subject of the caller's own token, and it was issued to the gateway.
\<close>

theorem exchanged_token_is_verified:
  assumes "raw_mode t = ''kc_token_exchange''" and "dispatch_credential_injection env t c st = (Inr hs, st')"
  shows "\<exists>audience own token own_claims key claims. ct_kc_token_audience t = Some audience \<and> audience \<in> set (cd_allowed_audiences env)
    \<and> cl_kc_token c = Some own \<and> cd_unverified env own = Some own_claims
    \<and> hs = [(header_of t, header_value (prefix_of_tool t) token)]
    \<and> key \<in> snd ` set (cd_jwks env) \<and> cd_jwt_decode env key token audience = Some claims
    \<and> jget claims ''sub'' = get_default own_claims ''sub'' (JStr []) \<and> jget claims ''azp'' = JStr ''mcp-proxy''"
proof -
  let ?aud = "str_or (ct_kc_token_audience t) []"
  from assms have "inject_kc_token_exchange env t (cl_kc_token c) (header_of t) (prefix_of_tool t) st = (Inr hs, st')"
    by (auto simp: dispatch_credential_injection_def header_of_def prefix_of_tool_def STORED_MODES_def Let_def split: if_splits)
  then obtain own own_claims exchanged key where x: "cl_kc_token c = Some own" "?aud \<noteq> []" "?aud \<in> set (cd_allowed_audiences env)"
    "cd_unverified env own = Some own_claims" "get_public_key_for_token env (token_text env exchanged) = Some key"
    "assert_exchanged_token env (token_text env exchanged) (get_default own_claims ''sub'' (JStr [])) ?aud key"
    "hs = [(header_of t, header_value (prefix_of_tool t) (token_text env exchanged))]"
    by (cases "cl_kc_token c") (auto simp: inject_kc_token_exchange_def Let_def split: sum.splits if_splits prod.splits option.splits)
  from x(2) have aud: "ct_kc_token_audience t = Some ?aud" by (cases "ct_kc_token_audience t") (auto split: if_splits)
  have key: "key \<in> snd ` set (cd_jwks env)" using x(5)
    by (force simp: get_public_key_for_token_def split: option.splits list.splits if_splits dest: filter_eq_ConsD)
  from x(6) obtain claims where "cd_jwt_decode env key (token_text env exchanged) ?aud = Some claims"
    "jget claims ''sub'' = get_default own_claims ''sub'' (JStr [])" "jget claims ''azp'' = JStr ''mcp-proxy''"
    by (auto simp: assert_exchanged_token_def EXPECTED_ACTOR_def split: option.splits)
  with x(1,3,4,7) aud key show ?thesis by blast
qed

subsection \<open>Service-account tokens\<close>

text \<open>
  Property C15. A cached service-account token is not bound to its scope. Once a token was fetched and cached for a client, every later request
  for that client before the cache entry expires returns the same token, whatever scope and whatever client secret it is made
  with, and without asking Keycloak: the scope check of a second tool has no effect on the token it gets.
\<close>

theorem cached_token_ignores_scope:
  assumes "cached_doc env st (''kc:sa:'' @ client) = None" and "cd_sa_endpoint env client secret scope = Some reply"
    and "is_obj reply" and "jget reply ''access_token'' = token" and "get_default reply ''expires_in'' (JInt 300) = JInt n"
    and "r_init (cst_redis st)" and "redis_ok (cd_world env) (RSetex (''kc:sa:'' @ client))"
    and "redis_ok (cd_world env') (RGet (''kc:sa:'' @ client))" and "now (cd_world env') < now (cd_world env) + of_int (max 1 (n - 30))"
    and "get_service_account_token env client secret scope st = (r, st1)"
  shows "r = Inr token \<and> get_service_account_token env' client secret' scope' st1 = (Inr token, st1)"
proof -
  let ?key = "''kc:sa:'' @ client"
  from assms(1-5,10) have "r = Inr token" and st1: "st1 = cache_doc env ?key (max 1 (n - 30)) (JObj [(''access_token'', token)]) st"
    by (auto simp: get_service_account_token_def KC_TOKEN_CACHE_MARGIN_SECONDS_def Let_def)
  moreover have "cached_doc env' st1 ?key = Some (JObj [(''access_token'', token)])"
    using assms(6-9) by (simp add: st1 cache_doc_def cached_doc_def)
  ultimately show ?thesis by (simp add: get_service_account_token_def jget_def)
qed

subsection \<open>Rotation\<close>

lemma find_rotated: "(\<And>r. P (r\<lparr>cs_blob := b\<rparr>) = P r) \<Longrightarrow>
    find P (rotate_blob ow svc b rows) = map_option (\<lambda>r. if owned_row ow svc r then r\<lparr>cs_blob := b\<rparr> else r) (find P rows)"
  by (induction rows) (auto simp: rotate_blob_def)

lemma resolve_owner_online:
  "resolve_credential_owner db rows pid pt bare s = Inr (Some x) \<Longrightarrow> resolve_credential_owner True rows pid pt bare s = Inr (Some x)"
  by (auto simp: resolve_credential_owner_def Let_def split: if_splits)

lemma filter_rotated: "filter (\<lambda>r. \<not> owned_row ow svc r) (rotate_blob ow svc b rows) = filter (\<lambda>r. \<not> owned_row ow svc r) rows"
  by (induction rows) (auto simp: rotate_blob_def owned_row_def)

lemma resolve_owner_rotated:
  "resolve_credential_owner db (rotate_blob ow svc b rows) pid pt bare s = resolve_credential_owner db rows pid pt bare s"
proof -
  have f: "find (user_row k s) (rotate_blob ow svc b rows) = map_option (\<lambda>r. if owned_row ow svc r then r\<lparr>cs_blob := b\<rparr> else r) (find (user_row k s) rows)" for k
    by (rule find_rotated) (simp add: user_row_def)
  show ?thesis unfolding resolve_credential_owner_def f by (auto simp: Let_def split: option.splits)
qed

text \<open>
  Property C14. A rotated refresh token is the one used next. After the broker has refreshed a delegated token, the store holds the new refresh
  token for the same owner and no row of another owner or service has changed; the next request of the same caller hands exactly
  that token to the adapter.
\<close>

theorem rotated_token_is_used_next:
  assumes "aesgcm_ok (cd_crypto env)" and "length (cd_salt env) = SALT_SIZE" and "length (cd_nonce env) = NONCE_SIZE"
    and "resolve_a env c svc st = (Inr access, st')"
    and "cd_crypto env' = cd_crypto env" and "cd_master env' = cd_master env" and "cd_db env' QResolve"
    and "cd_adapter env' svc = Some next_refresh"
  shows "\<exists>ow refresh old new. own_key (cst_rows st) c svc ow \<and> holds_credential env st ow svc None ''user'' old
    \<and> cd_adapter env svc = Some refresh \<and> refresh old = Refreshed access new
    \<and> filter (\<lambda>r. \<not> owned_row ow svc r) (cst_rows st') = filter (\<lambda>r. \<not> owned_row ow svc r) (cst_rows st)
    \<and> cst_redis st' = cst_redis st
    \<and> (\<forall>a n. next_refresh new = Refreshed a n \<longrightarrow> fst (resolve_a env' c svc st') = Inr a)
    \<and> (next_refresh new = TokenExchangeError 400 \<longrightarrow> fst (resolve_a env' c svc st') = Inl CredentialNotEnrolled)"
proof -
  from assms(4) obtain ow typed row m old refresh new where x:
    "resolve_credential_owner (cd_db env QResolve) (cst_rows st) (cl_principal_id c) (cl_principal_type c) (cl_client_id c) svc = Inr (Some (ow, typed))"
    "find (owned_row ow svc) (cst_rows st) = Some row" "cd_master env = Some m" "decrypt (cd_crypto env) (cs_blob row) ow m svc None ''user'' = Inr old"
    "cd_adapter env svc = Some refresh" "refresh old = Refreshed access new"
    and st': "st' = st\<lparr>cst_rows := rotate_blob ow svc (encrypt (cd_crypto env) (cd_salt env) (cd_nonce env) new ow m svc None ''user'') (cst_rows st)\<rparr>"
    by (auto simp: resolve_a_def split: sum.splits owner_error.splits option.splits prod.splits refresh_outcome.splits if_splits)
  let ?blob = "encrypt (cd_crypto env) (cd_salt env) (cd_nonce env) new ow m svc None ''user''"
  have own: "own_key (cst_rows st) c svc ow" using resolve_owner_own[OF x(1)] by blast
  have held: "holds_credential env st ow svc None ''user'' old"
    using x(3,4) find_Some_set[OF x(2)] decrypt_iff[OF assms(1)] unfolding holds_credential_def owned_row_def by blast
  have same: "filter (\<lambda>r. \<not> owned_row ow svc r) (cst_rows st') = filter (\<lambda>r. \<not> owned_row ow svc r) (cst_rows st)"
    by (simp add: st' filter_rotated)
  have "resolve_credential_owner True (cst_rows st') (cl_principal_id c) (cl_principal_type c) (cl_client_id c) svc = Inr (Some (ow, typed))"
    using resolve_owner_online[OF x(1)] by (simp add: st' resolve_owner_rotated)
  moreover have "find (owned_row ow svc) (cst_rows st') = Some (row\<lparr>cs_blob := ?blob\<rparr>)"
    using find_Some_set[OF x(2)] x(2) by (simp add: st' find_rotated owned_row_def)
  moreover have "decrypt (cd_crypto env) ?blob ow m svc None ''user'' = Inr new" using decrypt_iff[OF assms(1)] assms(2,3) by blast
  ultimately have "resolve_a env' c svc st' = (case next_refresh new of
        TokenExchangeError code \<Rightarrow> (Inl (if code = 400 then CredentialNotEnrolled else ResolveRaised), st')
      | RefreshRaised \<Rightarrow> (Inl ResolveRaised, st')
      | Refreshed a n \<Rightarrow> (Inr a, st'\<lparr>cst_rows := rotate_blob ow svc
           (encrypt (cd_crypto env) (cd_salt env') (cd_nonce env') n ow m svc None ''user'') (cst_rows st')\<rparr>))"
    using assms(5-8) x(3) by (simp add: resolve_a_def split: refresh_outcome.split)
  then have "\<forall>a n. next_refresh new = Refreshed a n \<longrightarrow> fst (resolve_a env' c svc st') = Inr a"
    "next_refresh new = TokenExchangeError 400 \<longrightarrow> fst (resolve_a env' c svc st') = Inl CredentialNotEnrolled" by auto
  moreover have "cst_redis st' = cst_redis st" by (simp add: st')
  ultimately show ?thesis using own held same x(5,6) by blast
qed

subsection \<open>From upload to header\<close>

lemma find_snoc_other: "\<not> P x \<Longrightarrow> find P (xs @ [x]) = find P xs"
  by (induction xs) auto

lemma upload_service_row:
  assumes "keys_unique rows" and "upsert_credential r rows = Some (cid, rows')" and "cs_owner_type r = Some ''service''" and "cs_tool_id r = Some t"
    and "\<forall>x \<in> set rows. service_row t (cs_service r) x \<longrightarrow> cs_user_sub x = cs_user_sub r"
  shows "\<exists>x. find (service_row t (cs_service r)) rows' = Some x \<and> cs_blob x = cs_blob r \<and> cs_user_sub x = cs_user_sub r
    \<and> (\<forall>u. find (user_row u (cs_service r)) rows' = find (user_row u (cs_service r)) rows)"
proof (cases "find (service_row t (cs_service r)) rows")
  case None
  with assms(2-4) have "rows' = rows @ [r]" by (auto simp: upsert_credential_def insert_credential_def split: if_splits)
  moreover from None have "\<not> list_ex (service_row t (cs_service r)) rows" by (simp add: find_None_iff_not list_ex_iff)
  moreover have "service_row t (cs_service r) r" "\<not> user_row u s r" for u s using assms(3,4) by (simp_all add: service_row_def user_row_def)
  ultimately show ?thesis by (simp add: find_fresh find_snoc_other)
next
  case (Some old)
  let ?f = "\<lambda>x. if service_row t (cs_service r) x then x\<lparr>cs_blob := cs_blob r, cs_credential_type := cs_credential_type r\<rparr> else x"
  from Some assms(2-4) have rows': "rows' = map ?f rows" by (simp add: upsert_credential_def Let_def)
  have "find P (map ?f xs) = map_option ?f (find P xs)" if "\<And>x. P (?f x) = P x" for P xs using that by (induction xs) auto
  then have fs: "find (service_row t (cs_service r)) rows' = map_option ?f (Some old)" and
    fu: "find (user_row u (cs_service r)) rows' = map_option ?f (find (user_row u (cs_service r)) rows)" for u
    unfolding rows' Some[symmetric] by (simp_all add: service_row_def user_row_def)
  have "map_option ?f (find (user_row u (cs_service r)) rows) = find (user_row u (cs_service r)) rows" for u
    by (cases "find (user_row u (cs_service r)) rows") (auto dest!: find_Some_set simp: user_row_def service_row_def)
  with fs fu find_Some_set[OF Some] assms(5) show ?thesis by auto
qed


subsection \<open>Instances\<close>

definition example_cred_env :: cred_env where
  "example_cred_env = \<lparr>cd_crypto = example_crypto, cd_salt = example_salt, cd_nonce = example_nonce, cd_broker = True, cd_master = Some ''m'',
     cd_db = (\<lambda>_. True), cd_world = calm_world 100, cd_base_url = ''https://gw.lab'', cd_allowed_audiences = [''tickets''],
     cd_allowed_scopes = [''openid''], cd_exchange_enabled = True,
     cd_sa_endpoint = (\<lambda>_ _ scope. Some (JObj [(''access_token'', JStr scope)])),
     cd_exchange_endpoint = (\<lambda>_ _. Some (JObj [(''access_token'', JStr ''xt'')])), cd_entra_endpoint = (\<lambda>_ _ _. None),
     cd_oauth_endpoint = (\<lambda>_ _ _. None), cd_unverified = (\<lambda>_. Some (JObj [(''sub'', JStr ''bob'')])), cd_key_id = (\<lambda>_. Some None),
     cd_jwks = [(None, ''k'')], cd_jwt_decode = (\<lambda>_ _ _. Some (JObj [(''sub'', JStr ''bob''), (''azp'', JStr ''mcp-proxy'')])),
     cd_adapter = (\<lambda>_. Some (\<lambda>rt. Refreshed ''at'' (rt @ ''1''))), cd_approved = (\<lambda>_. None), cd_float = (\<lambda>_. 0), cd_float_text = (\<lambda>_. ''0.0''),
     cd_str = (\<lambda>_. [])\<rparr>"

definition example_cred_tool :: "string \<Rightarrow> cred_tool" where
  "example_cred_tool mode = \<lparr>ct_tool_id = Some ''t1'', ct_name = Some ''read'', ct_server_id = Some ''s1'', ct_injection_mode = Some mode,
     ct_server_default_injection_mode = None, ct_service_name = Some ''jira'', ct_inject_header = None, ct_inject_prefix = None,
     ct_kc_client_id = None, ct_kc_token_audience = Some ''tickets'', ct_credential_id = None\<rparr>"

definition example_caller :: "string \<Rightarrow> caller" where
  "example_caller ptype = \<lparr>cl_client_id = ''bob'', cl_kc_token = Some ''kt'', cl_principal_id = Some ''human:kc:bob'', cl_principal_type = Some ptype\<rparr>"

definition example_user_row :: "string \<Rightarrow> string option \<Rightarrow> credential_row" where
  "example_user_row owner tool_id = \<lparr>cs_id = ''c1'', cs_user_sub = owner, cs_service = ''jira'', cs_tool_id = tool_id, cs_owner_type = Some ''user'',
     cs_credential_type = ''api_key'', cs_blob = encrypt example_crypto example_salt example_nonce ''tok'' owner ''m'' ''jira'' tool_id ''user'',
     cs_principal_type = None, cs_upn = None\<rparr>"

definition example_cred_state :: "credential_row list \<Rightarrow> cred_state" where
  "example_cred_state rows = \<lparr>cst_rows = rows, cst_redis = empty_redis\<rparr>"

lemma example_decrypts:
  "decrypt example_crypto (encrypt example_crypto example_salt example_nonce p u m s t k) u m s t k = Inr p"
  unfolding decrypt_iff[OF example_crypto_ok] using example_lengths by (intro exI conjI) simp_all

lemma example_env_fields [simp]:
  "cd_crypto example_cred_env = example_crypto" "cd_salt example_cred_env = example_salt" "cd_nonce example_cred_env = example_nonce"
  "cd_broker example_cred_env" "cd_master example_cred_env = Some ''m''" "cd_db example_cred_env q" "cd_world example_cred_env = calm_world 100"
  "cd_allowed_audiences example_cred_env = [''tickets'']" "cd_unverified example_cred_env x = Some (JObj [(''sub'', JStr ''bob'')])"
  "cd_key_id example_cred_env x = Some None" "cd_jwks example_cred_env = [(None, ''k'')]" "cd_exchange_enabled example_cred_env"
  "cd_exchange_endpoint example_cred_env x y = Some (JObj [(''access_token'', JStr ''xt'')])"
  "cd_jwt_decode example_cred_env x y z = Some (JObj [(''sub'', JStr ''bob''), (''azp'', JStr ''mcp-proxy'')])"
  "cd_sa_endpoint example_cred_env x y z = Some (JObj [(''access_token'', JStr z)])"
  "cst_rows (example_cred_state rows) = rows" "cst_redis (example_cred_state rows) = empty_redis"
  by (simp_all add: example_cred_env_def example_cred_state_def)

lemma example_tool_fields [simp]:
  "ct_tool_id (example_cred_tool mode) = Some ''t1''" "ct_service_name (example_cred_tool mode) = Some ''jira''"
  "ct_inject_header (example_cred_tool mode) = None" "ct_inject_prefix (example_cred_tool mode) = None"
  "ct_kc_token_audience (example_cred_tool mode) = Some ''tickets''" "cl_kc_token (example_caller pt) = Some ''kt''"
  by (simp_all add: example_cred_tool_def example_caller_def)

lemma example_raw_mode [simp]: "mode \<noteq> ''oauth_user_token'' \<Longrightarrow> raw_mode (example_cred_tool mode) = mode"
  by (simp add: raw_mode_def example_cred_tool_def)

lemma example_user_injected:
  "dispatch_credential_injection example_cred_env (example_cred_tool ''user'') (example_caller ''human'')
     (example_cred_state [example_user_row ''human:kc:bob'' (Some ''t1'')])
   = (Inr [(''Authorization'', header_value ''Bearer'' (strip ''tok''))], example_cred_state [example_user_row ''human:kc:bob'' (Some ''t1'')])"
proof -
  have "read_credential example_cred_env (example_cred_state [example_user_row ''human:kc:bob'' (Some ''t1'')]) ''human:kc:bob'' ''jira'' (Some ''t1'') ''user''
      = Some ''tok''"
    by (simp add: read_credential_def decrypt_credential_def user_row_def example_user_row_def example_decrypts)
  moreover have "resolve_owner_key_or_none example_cred_env (example_cred_state [example_user_row ''human:kc:bob'' (Some ''t1'')]) (example_caller ''human'') ''jira''
      = Inr (Some ''human:kc:bob'')"
    by (simp add: resolve_owner_key_or_none_def resolve_credential_owner_def example_caller_def user_row_def example_user_row_def)
  ultimately show ?thesis
    by (simp add: dispatch_credential_injection_def) (simp add: inject_user_credential_def STORED_MODES_def)
qed



theorem cross_type_is_denied_witness:
  "dispatch_credential_injection example_cred_env (example_cred_tool ''user'') (example_caller ''agent'') (example_cred_state [example_user_row ''bob'' (Some ''t1'')])
   = (Inl (CrossTypeDenied ''jira'' ''agent'' ''human''), example_cred_state [example_user_row ''bob'' (Some ''t1'')])"
proof -
  let ?r = "example_user_row ''bob'' (Some ''t1'')" and ?c = "example_caller ''agent''"
  have types: "row_type ?r = ''human''" "caller_type ?c = ''agent''"
    by (simp_all add: row_type_def caller_type_def example_user_row_def example_caller_def INFERRED_LEGACY_PRINCIPAL_TYPE_def)
  have "dispatch_credential_injection example_cred_env (example_cred_tool ''user'') ?c (example_cred_state [?r])
    = (Inl (CrossTypeDenied ''jira'' (caller_type ?c) (row_type ?r)), example_cred_state [?r])"
    by (rule cross_type_is_denied[where p = "''human:kc:bob''"])
      (simp_all add: types, simp_all add: example_caller_def user_row_def example_user_row_def)
  then show ?thesis by (simp only: types)
qed

theorem exchanged_token_is_verified_witness:
  "\<exists>st' token claims. dispatch_credential_injection example_cred_env (example_cred_tool ''kc_token_exchange'') (example_caller ''human'') (example_cred_state [])
     = (Inr [(''Authorization'', header_value ''Bearer'' token)], st') \<and> cd_jwt_decode example_cred_env ''k'' token ''tickets'' = Some claims
     \<and> jget claims ''sub'' = JStr ''bob''"
proof -
  let ?env = example_cred_env and ?t = "example_cred_tool ''kc_token_exchange''" and ?c = "example_caller ''human''" and ?st = "example_cred_state []"
  have h: "header_of ?t = ''Authorization''" "prefix_of_tool ?t = ''Bearer''" by (simp_all add: header_of_def prefix_of_tool_def)
  have "\<exists>st1. exchange_token ?env ''kt'' ''tickets'' ?st = (Inr (JStr ''xt''), st1)"
    by (simp add: exchange_token_def cached_exchange_def cached_doc_def redis_get_def Let_def jget_def get_default_def number_of_def)
  then obtain st1 where "exchange_token ?env ''kt'' ''tickets'' ?st = (Inr (JStr ''xt''), st1)" by blast
  then have "\<exists>hs st'. dispatch_credential_injection ?env ?t ?c ?st = (Inr hs, st')"
    by (simp add: dispatch_credential_injection_def inject_kc_token_exchange_def STORED_MODES_def Let_def get_public_key_for_token_def
        assert_exchanged_token_def get_default_def jget_def token_text_def EXPECTED_ACTOR_def)
  then obtain hs st' where run: "dispatch_credential_injection ?env ?t ?c ?st = (Inr hs, st')" by blast
  have mode: "raw_mode ?t = ''kc_token_exchange''" by simp
  from exchanged_token_is_verified[OF mode run] obtain token claims where
    "hs = [(''Authorization'', header_value ''Bearer'' token)]" "cd_jwt_decode ?env ''k'' token ''tickets'' = Some claims" "jget claims ''sub'' = JStr ''bob''"
    unfolding h by (auto simp: get_default_def)
  with run show ?thesis by (intro exI conjI) simp_all
qed

theorem cached_token_ignores_scope_witness:
  "\<exists>st1. get_service_account_token example_cred_env ''kc1'' ''sec'' ''openid profile'' (example_cred_state []) = (Inr (JStr ''openid profile''), st1)
     \<and> get_service_account_token example_cred_env ''kc1'' ''other'' ''openid'' st1 = (Inr (JStr ''openid profile''), st1)"
proof -
  let ?st = "example_cred_state []" and ?reply = "JObj [(''access_token'', JStr ''openid profile'')]"
  obtain r st1 where run: "get_service_account_token example_cred_env ''kc1'' ''sec'' ''openid profile'' ?st = (r, st1)" by (rule prod.exhaust)
  have "r = Inr (JStr ''openid profile'') \<and> get_service_account_token example_cred_env ''kc1'' ''other'' ''openid'' st1 = (Inr (JStr ''openid profile''), st1)"
    by (rule cached_token_ignores_scope[where reply = ?reply and n = 300, OF _ _ _ _ _ _ _ _ _ run])
      (simp_all add: cached_doc_def redis_get_def get_default_def jget_def)
  with run show ?thesis by (intro exI[of _ st1]) simp
qed

theorem rotated_token_is_used_next_witness:
  "\<exists>access st'. resolve_a example_cred_env (example_caller ''human'') ''jira'' (example_cred_state [example_user_row ''human:kc:bob'' None]) = (Inr access, st')
     \<and> cst_redis st' = empty_redis"
proof -
  let ?env = example_cred_env and ?c = "example_caller ''human''" and ?r = "example_user_row ''human:kc:bob'' None"
  let ?st = "example_cred_state [?r]"
  have ok: "aesgcm_ok (cd_crypto ?env)" "length (cd_salt ?env) = SALT_SIZE" "length (cd_nonce ?env) = NONCE_SIZE" by (simp_all add: example_crypto_ok)
  have ad: "cd_adapter ?env ''jira'' = Some (\<lambda>rt. Refreshed ''at'' (rt @ ''1''))" by (simp add: example_cred_env_def)
  have row: "cs_user_sub ?r = ''human:kc:bob''" "cs_service ?r = ''jira''"
    "cs_blob ?r = encrypt example_crypto example_salt example_nonce ''tok'' ''human:kc:bob'' ''m'' ''jira'' None ''user''"
    by (simp_all add: example_user_row_def)
  have "resolve_credential_owner True [?r] (cl_principal_id ?c) (cl_principal_type ?c) (cl_client_id ?c) ''jira'' = Inr (Some (''human:kc:bob'', True))"
    by (simp add: resolve_credential_owner_def example_caller_def user_row_def example_user_row_def)
  then have "\<exists>a st'. resolve_a ?env ?c ''jira'' ?st = (Inr a, st')"
    by (simp add: resolve_a_def owned_row_def row ad example_decrypts)
  then obtain a st' where run: "resolve_a ?env ?c ''jira'' ?st = (Inr a, st')" by blast
  from rotated_token_is_used_next[OF ok run refl refl _ ad] have "cst_redis st' = cst_redis ?st" by (simp only: example_env_fields simp_thms) blast
  with run show ?thesis by (intro exI[of _ a] exI[of _ st']) simp
qed

definition example_upload :: CredentialUpload where
  "example_upload = \<lparr>up_secret = ''s3'', up_credential_type = ''basic_auth'', up_owner_type = ''service'', up_user_sub = None, up_username = Some ''svc''\<rparr>"

definition example_upload_tool :: upload_tool where
  "example_upload_tool = \<lparr>ut_tool_id = ''t1'', ut_name = ''read'', ut_service_name = Some ''jira'', ut_entra_tenant_id = None, ut_entra_client_id = None\<rparr>"


end
