(* ===== verification/Spec2Isabelle.thy ===== *)
theory Spec2Isabelle
  imports CallSafety Consent Compliance Injection
begin

section \<open>The MCP security platform\<close>

text \<open>
  The repository is a gateway between AI clients and MCP tool servers. A client's \<open>tools/call\<close> reaches
  \<open>invoke_tool\<close> of \<^verbatim>\<open>src/proxy/app/services/invocation.py\<close>, which runs nine gates, asks the policy engine, checks the
  address of the tool's server twice, fetches a credential, forwards the call, writes an audit record, and
  screens the answer. Around it stand the services the gates call, the Rego policy, the audit
  logger with its redaction, the compliance checker that later verifies the audit rows, and the
  consent tokens that guard changes of a server.

  \<^bold>\<open>Theories and sources.\<close>
  \<^item> \<open>Prelude\<close>: JSON values, the exceptions that cross components, lemmas on lists and options.
  \<^item> \<open>PyStd\<close>: what the sources use of \<open>str\<close>, \<open>ipaddress\<close> and \<open>urllib.parse\<close>; addresses are words of 32 and 128 bits.
  \<^item> \<open>PyRegex\<close>: a backtracking matcher with the priorities of \<open>re\<close>, and \<open>sub\<close>.
  \<^item> \<open>JsonText\<close>, \<open>JsonParse\<close>, \<open>JsonRoundTrip\<close>: \<open>json.dumps\<close>, \<open>json.loads\<close>, and that the second inverts the first.
  \<^item> \<open>Sha256\<close>: SHA-256 and HMAC on words of 32 bits, and \<open>str.encode\<close>.
  \<^item> \<open>Store\<close>: Redis (\<^verbatim>\<open>core/redis_client.py\<close>), the database rows, and the world of one request: its clock and its faults.
  \<^item> \<open>Ssrf\<close>: \<^verbatim>\<open>services/ssrf.py\<close>, the upstream checks of \<^verbatim>\<open>services/server_onboarding.py\<close>, the pinned transport.
  \<^item> \<open>Taint\<close>: \<^verbatim>\<open>services/taint_floor.py\<close> and \<^verbatim>\<open>services/taint_store.py\<close>.
  \<^item> \<open>Cache\<close>: the contract of a lookup through Redis, a locale interpreted in the next three.
  \<^item> \<open>Entitlement\<close>: \<^verbatim>\<open>services/entitlement.py\<close>.
  \<^item> \<open>Anomaly\<close>: \<^verbatim>\<open>services/anomaly.py\<close>, \<^verbatim>\<open>services/limits.py\<close> and the sliding window.
  \<^item> \<open>Profile\<close>: the profile part of \<^verbatim>\<open>services/invocation.py\<close> and the tool name check of \<^verbatim>\<open>models/tool.py\<close>.
  \<^item> \<open>Authz\<close>: \<^verbatim>\<open>policies/rego/authz.rego\<close> and \<^verbatim>\<open>anomaly.rego\<close>, one predicate per rule.
  \<^item> \<open>Policy\<close>: \<^verbatim>\<open>services/policy.py\<close> and \<^verbatim>\<open>services/deny_map.py\<close>.
  \<^item> \<open>Redaction\<close>, \<open>AuditLog\<close>: \<^verbatim>\<open>observability/mcp-audit-logger\<close> and \<open>_emit_audit_event\<close>.
  \<^item> \<open>Compliance\<close>: \<^verbatim>\<open>observability/compliance-checker/checker.py\<close>.
  \<^item> \<open>Consent\<close>: \<^verbatim>\<open>services/consent.py\<close> and \<^verbatim>\<open>core/redis_atomic.py\<close>.
  \<^item> \<open>ResponseFilter\<close>: \<^verbatim>\<open>services/response_filter.py\<close>.
  \<^item> \<open>Invocation\<close>: \<open>invoke_tool\<close> and every stage of it, in the order of the source.
  \<^item> \<open>Base64\<close>: \<open>base64.b64encode\<close> and its inverse.
  \<^item> \<open>CredStore\<close>: \<^verbatim>\<open>credential_broker/approaches/approach_a.py\<close>, \<^verbatim>\<open>services/credential_storage.py\<close>, and upload and revocation of
    \<^verbatim>\<open>routers/admin_credentials.py\<close>.
  \<^item> \<open>Dispatcher\<close>, \<open>Injection\<close>: \<^verbatim>\<open>credential_broker/dispatcher.py\<close> with \<^verbatim>\<open>principal_resolution.py\<close>, \<^verbatim>\<open>token_assert.py\<close>, the delegated
    refresh of \<^verbatim>\<open>broker.py\<close> and the token requests of \<^verbatim>\<open>keycloak_client.py\<close>; and their properties.
  \<^item> \<open>Pipeline\<close>, \<open>CallSafety\<close>: the library on the stages, and the properties of whole calls and of runs of calls.

  \<^bold>\<open>State and operations.\<close> A function that may raise returns \<open>exn + 'a\<close>. A function that changes Redis, a table or
  the audit store takes the old value and returns the new one. The state of the pipeline is the record \<open>gw\<close>, whose
  trace lists what a call does to the outside; its surroundings are the record \<open>gw_env\<close>: settings,
  OPA, the two uses of the resolver, the credential dispatcher and the upstream server, whose answers may depend
  on everything it was sent. Each database query and each Redis command has a fault bit, so that every
  \<open>except\<close> branch is a branch of the model. Times and scores are rationals. Text is a list of 8-bit characters.

  \<^bold>\<open>What is shown.\<close>
  \<^item> Calls: no request is sent unless every gate, the policy and both address checks pass; requests go to a validated
    address and carry the gateway's identity headers; the audit rows are the audit actions of the trace, every
    answer names its row, every audited refusal ends in one; a result from an untrusted server bars later sensitive calls;
    three connection failures lock a server.
  \<^item> Addresses: the metadata floor holds for every URL and permitted network, IPv4 addresses inside IPv6 forms stay blocked, and
    what registration accepts is what the check at invoke time accepts; the exception for \<open>localhost\<close> is stated as it is.
  \<^item> Identity and policy: discovery lists exactly what invocation permits; cached answers are never older than their time to live;
    profiles combine to their meet; an allow of the policy implies each of its conditions; failures of OPA deny.
  \<^item> Audit: no log line holds a key of fixed shape; a row written by the gateway verifies, an altered row that verifies exhibits a
    hash collision, and the one way around the signature is stated; archiving loses no row.
  \<^item> Consent: a token verifies exactly for what it was issued for until it expires, once; kinds of tokens do not mix.

  \<^item> Credentials: a per-user tool gets only a secret encrypted for a key of the caller, never one of another principal type; a mode without its
    credential raises; an exchanged token is verified on every use; blobs cannot be moved between rows without a forgery; what is
    uploaded or rotated is what is used next. That a cached service-account token is not bound to its scope is stated as it is.

  \<^bold>\<open>Bounds and fuel.\<close> \<open>json_loads\<close> descends with fuel one more than the length of the text, and \<open>JsonParse\<close> proves
  that more fuel reads nothing more. \<open>Star\<close> of the matcher runs at most as often as characters are left, since an iteration
  that consumes nothing is cut off as in \<open>re\<close>. All other recursion is structural or has its termination proof.

  \<^bold>\<open>Not modelled.\<close>
  \<^item> AES-GCM, HKDF, JWT verification, Vault and the identity providers are parameters of the credential theories; the law of AES-GCM that
    the properties use is \<open>aesgcm_ok\<close>. The back ends of single services (\<^verbatim>\<open>credential_broker/adapters\<close>) are functions from a refresh token to an
    outcome.
  \<^item> Routers, middleware and the admin pages of \<^verbatim>\<open>src/proxy/app\<close>: request parsing, SQL reports and HTML. The
    authenticated identity is an argument of the call.
  \<^item> Scanning, building and deploying servers, the labels and the transparency log: drivers of external programs,
    containers and signature libraries.
  \<^item> Log lines, metrics and tracing spans of the modelled functions, which nothing reads.
  \<^item> The lab, example servers, scripts and the vendored static checker.
\<close>

end
